theory Spec2Isabelle
  imports Main "HOL-Library.Finite_Map"
begin

section \<open>Strings and JavaScript values\<close>

text \<open>
  File names, header values and file contents are strings; a payload or a file content is
  the list of its bytes.  An optional header or argument is an \<open>option\<close>; JavaScript
  treats an absent value, the empty string and the number zero as false.
\<close>

type_synonym path = string
type_synonym bytes = string
type_synonym metadata = "(string \<times> string) list"

definition truthy :: "string option \<Rightarrow> bool" where
  "truthy s = (case s of None \<Rightarrow> False | Some v \<Rightarrow> v \<noteq> [])"

definition truthyNum :: "nat option \<Rightarrow> bool" where
  "truthyNum n = (case n of None \<Rightarrow> False | Some v \<Rightarrow> v \<noteq> 0)"

definition digit :: "nat \<Rightarrow> char" where
  "digit d = ''0123456789'' ! d"

text \<open>The decimal rendering of a number, as \<open>'-'+i\<close> produces it.\<close>

fun show_nat :: "nat \<Rightarrow> string" where
  "show_nat n = (if n < 10 then [digit n]
                 else show_nat (n div 10) @ [digit (n mod 10)])"

declare show_nat.simps [simp del]

text \<open>\<open>String.prototype.lastIndexOf\<close> for a single character; \<open>None\<close> is \<open>-1\<close>.\<close>

fun lastIndexOf :: "char \<Rightarrow> string \<Rightarrow> nat option" where
  "lastIndexOf c [] = None"
| "lastIndexOf c (x # xs) =
     (case lastIndexOf c xs of
        Some i \<Rightarrow> Some (Suc i)
      | None \<Rightarrow> if x = c then Some 0 else None)"

section \<open>The file system\<close>

text \<open>
  The disk is a finite map from paths to contents, together with the write streams that
  have been opened and not yet ended, the number of names drawn so far from the id
  generator, and the removals that have been started and not yet carried out: where the
  code calls \<open>removeFile\<close> and does not wait for the promise it returns, the file is
  still there when the code goes on.  The generator itself
  (\<open>idGenerator(TMP_FILE)+'-'+Date.now()\<close>, from the \<open>utils\<close> package) is a parameter:
  \<open>gen n\<close> is the name it yields at its \<open>n\<close>-th call.  Directories are not modelled,
  and a file operation fails only where the state of the disk makes it fail (reading a
  path that is undefined or does not exist).
\<close>

record disk =
  files :: "(path, bytes) fmap"
  handles :: "path list"
  tick :: nat
  pending :: "path list"

datatype error = TypeError | ENOENT | CallbackError

definition exists :: "disk \<Rightarrow> path \<Rightarrow> bool" where
  "exists d p = (p |\<in>| fmdom (files d))"

definition unlink :: "path \<Rightarrow> disk \<Rightarrow> disk" where
  "unlink p d = d\<lparr>files := fmdrop p (files d)\<rparr>"

definition createWriteStream :: "path \<Rightarrow> disk \<Rightarrow> disk" where
  "createWriteStream p d = d\<lparr>files := fmupd p [] (files d), handles := p # handles d\<rparr>"

definition wstream_write :: "path \<Rightarrow> bytes \<Rightarrow> disk \<Rightarrow> disk" where
  "wstream_write p dat d =
     d\<lparr>files := fmupd p ((case fmlookup (files d) p of None \<Rightarrow> [] | Some c \<Rightarrow> c) @ dat) (files d)\<rparr>"

definition endPromise :: "path \<Rightarrow> disk \<Rightarrow> disk" where
  "endPromise p d = d\<lparr>handles := remove1 p (handles d)\<rparr>"

section \<open>The helpers of index.js\<close>

definition fullFilename :: "string \<Rightarrow> nat \<Rightarrow> string" where
  "fullFilename fname i = fname @ (if i > 0 then ''-'' @ show_nat i else '''')"

lemma digit_inj: "a < 10 \<Longrightarrow> b < 10 \<Longrightarrow> digit a = digit b \<Longrightarrow> a = b"
proof -
  assume a: "a < 10" and b: "b < 10" and e: "digit a = digit b"
  have "distinct ''0123456789''" by simp
  moreover have "a < length ''0123456789''" "b < length ''0123456789''"
    using a b by simp_all
  ultimately show "a = b"
    using e unfolding digit_def by (metis nth_eq_iff_index_eq)
qed

lemma show_nat_not_Nil: "show_nat n \<noteq> []" "[] \<noteq> show_nat n"
  by (simp_all add: show_nat.simps [of n])

lemma show_nat_inj: "show_nat m = show_nat n \<Longrightarrow> m = n"
proof (induction m arbitrary: n rule: show_nat.induct)
  case (1 m)
  show ?case
  proof (cases "m < 10")
    case True
    note m = this
    show ?thesis
    proof (cases "n < 10")
      case True
      with m "1.prems" show ?thesis
        by (simp add: show_nat.simps [of m] show_nat.simps [of n] digit_inj)
    next
      case False
      with m "1.prems" show ?thesis
        by (simp add: show_nat.simps [of m] show_nat.simps [of n] show_nat_not_Nil)
    qed
  next
    case False
    note m = this
    show ?thesis
    proof (cases "n < 10")
      case True
      with m "1.prems" show ?thesis
        by (simp add: show_nat.simps [of m] show_nat.simps [of n] show_nat_not_Nil)
    next
      case False
      with m "1.prems" have e: "show_nat (m div 10) = show_nat (n div 10)"
        and d: "digit (m mod 10) = digit (n mod 10)"
        by (simp_all add: show_nat.simps [of m] show_nat.simps [of n])
      from "1.IH" [OF m e] have "m div 10 = n div 10" .
      moreover from d have "m mod 10 = n mod 10"
        by (intro digit_inj) simp_all
      ultimately show ?thesis
        by (metis div_mult_mod_eq)
    qed
  qed
qed

lemma fullFilename_inj: "fullFilename f i = fullFilename f j \<Longrightarrow> i = j"
  by (auto simp: fullFilename_def split: if_splits dest: show_nat_inj)

lemma probe_decreases:
  assumes "fullFilename fname i |\<in>| fmdom fs"
  shows "card {j. Suc i \<le> j \<and> fullFilename fname j |\<in>| fmdom fs}
       < card {j. i \<le> j \<and> fullFilename fname j |\<in>| fmdom fs}"
proof -
  let ?S = "\<lambda>k. {j. k \<le> j \<and> fullFilename fname j |\<in>| fmdom fs}"
  have "inj (fullFilename fname)"
    by (rule injI) (rule fullFilename_inj)
  then have "finite (fullFilename fname -` fset (fmdom fs))"
    by (intro finite_vimageI) simp_all
  then have fin: "finite (?S i)"
    by (rule rev_finite_subset) auto
  have "i \<in> ?S i" "i \<notin> ?S (Suc i)" "?S (Suc i) \<subseteq> ?S i"
    using assms by auto
  then have "?S (Suc i) \<subset> ?S i"
    by blast
  with fin show ?thesis
    by (rule psubset_card_mono)
qed

text \<open>
  \<open>nameReserved\<close> of index.js: probe \<open>filename\<close>, \<open>filename-1\<close>, \<open>filename-2\<close>, ... and
  return the first name that does not exist.  The disk is finite and the probed names
  are pairwise different, so the probing ends.
\<close>

function nameReserved :: "(path, bytes) fmap \<Rightarrow> string \<Rightarrow> nat \<Rightarrow> path" where
  "nameReserved fs fname i =
     (if fullFilename fname i |\<in>| fmdom fs then nameReserved fs fname (i + 1)
      else fullFilename fname i)"
  by pat_completeness auto
termination
  by (relation "measure (\<lambda>(fs, fname, i). card {j. i \<le> j \<and> fullFilename fname j |\<in>| fmdom fs})")
     (simp_all add: probe_decreases)

declare nameReserved.simps [simp del]

definition getUniqueFilename :: "(nat \<Rightarrow> string) \<Rightarrow> string \<Rightarrow> disk \<Rightarrow> path \<times> disk" where
  "getUniqueFilename gen folder d =
     (let tmpFilename = gen (tick d)
      in (nameReserved (files d) (folder @ tmpFilename) 0, d\<lparr>tick := Suc (tick d)\<rparr>))"

text \<open>\<open>removeFile\<close>, when its promise is waited for: the file is gone if it was there.\<close>

definition removeFile :: "path \<Rightarrow> disk \<Rightarrow> disk" where
  "removeFile p d = (if exists d p then unlink p d else d)"

text \<open>
  \<open>removeFile\<close>, when nobody waits for its promise: the removal is started, and the
  disk is as it was.  \<open>settle\<close> is the disk once the removals that were started have
  been carried out, in the order in which they were started.
\<close>

definition startRemoveFile :: "path \<Rightarrow> disk \<Rightarrow> disk" where
  "startRemoveFile p d = d\<lparr>pending := pending d @ [p]\<rparr>"

definition settle :: "disk \<Rightarrow> disk" where
  "settle d = fold removeFile (pending d) (d\<lparr>pending := []\<rparr>)"

section \<open>Transmissions\<close>

text \<open>
  One entry of \<open>FILE_TRANSMISSIONS[clientId]\<close>.  The JavaScript object has the keys
  \<open>cummulatedSize\<close>, \<open>count\<close>, \<open>filename\<close>, \<open>data\<close> (the last three only once the chunk
  carrying the file name has been stored) and one key per stored chunk, the value of the
  \<open>x-partial\<close> header.  That header is the 1-based chunk number in decimal; the numbered
  keys are the finite map \<open>parts\<close> from chunk numbers to the paths of the chunk files.
\<close>

record transmission =
  cummulatedSize :: nat
  count :: "nat option"
  filename :: "string option"
  data :: "metadata option"
  parts :: "(nat, path) fmap"

text \<open>\<open>transmission.size()\<close>: the number of keys of the object.\<close>

definition size_t :: "transmission \<Rightarrow> nat" where
  "size_t t = 1 + (if count t = None then 0 else 1) + (if filename t = None then 0 else 1)
                + (if data t = None then 0 else 1) + fcard (fmdom (parts t))"

text \<open>
  The loop \<open>transmission.each\<close> at the end of \<open>getFinalFile\<close>: \<open>removeFile\<close> is called
  for the file of every numbered key (the keys are visited in ascending order), and none
  of these calls is waited for.
\<close>

definition removeParts :: "transmission \<Rightarrow> disk \<Rightarrow> disk" where
  "removeParts t d = fold (\<lambda>(key, p). startRemoveFile p) (sorted_list_of_fmap (parts t)) d"

lemma part_decreases:
  assumes "fmlookup (parts t) part = Some p"
  shows "card {k. Suc part \<le> k \<and> k |\<in>| fmdom (parts t)}
       < card {k. part \<le> k \<and> k |\<in>| fmdom (parts t)}"
proof -
  let ?S = "\<lambda>n. {k. n \<le> k \<and> k |\<in>| fmdom (parts t)}"
  have fin: "finite (?S part)"
    by (rule finite_subset [of _ "fset (fmdom (parts t))"]) auto
  from assms have "part |\<in>| fmdom (parts t)"
    by (rule fmdomI)
  then have "part \<in> ?S part" "part \<notin> ?S (Suc part)" "?S (Suc part) \<subseteq> ?S part"
    by auto
  then have "?S (Suc part) \<subset> ?S part"
    by blast
  with fin show ?thesis
    by (rule psubset_card_mono)
qed

text \<open>
  \<open>appendFileData\<close> of index.js.  \<open>out\<close> is the path of the write stream.  Reading an
  undefined path throws, reading a missing file is rejected; in both cases the chain is
  rejected at that point and the disk stays as it is then.  After the last part the
  stream is ended, and once it has ended the removal of the chunk files is started; the
  promise resolves without waiting for these removals.
\<close>

function appendFileData :: "transmission \<Rightarrow> path \<Rightarrow> nat \<Rightarrow> disk \<Rightarrow> (error + unit) \<times> disk" where
  "appendFileData t out part d =
     (case fmlookup (parts t) part of
        None \<Rightarrow> (Inl TypeError, d)
      | Some p \<Rightarrow>
          (case fmlookup (files d) p of
             None \<Rightarrow> (Inl ENOENT, d)
           | Some dat \<Rightarrow>
               (let d1 = wstream_write out dat d
                in if Some part = count t
                   then (Inr (), removeParts t (endPromise out d1))
                   else appendFileData t out (part + 1) d1)))"
  by pat_completeness auto
termination
  by (relation "measure (\<lambda>(t, out, part, d). card {k. part \<le> k \<and> k |\<in>| fmdom (parts t)})")
     (simp_all add: part_decreases)

declare appendFileData.simps [simp del]

record finalFile =
  originalFilename :: "string option"
  tmpBuildFilename :: path

definition getFinalFile ::
  "(nat \<Rightarrow> string) \<Rightarrow> string \<Rightarrow> transmission \<Rightarrow> disk \<Rightarrow> (error + finalFile) \<times> disk" where
  "getFinalFile gen folder t d =
     (let (tmpBuild, d1) = getUniqueFilename gen folder d;
          d2 = createWriteStream tmpBuild d1
      in case appendFileData t tmpBuild 1 d2 of
           (Inl e, d3) \<Rightarrow> (Inl e, d3)
         | (Inr u, d3) \<Rightarrow>
             (Inr \<lparr>originalFilename = filename t, tmpBuildFilename = tmpBuild\<rparr>, d3))"

section \<open>The helpers of lib/file-utils.js\<close>

text \<open>
  \<open>nameReserved\<close> of lib/file-utils.js: the same probing, and the extension is appended
  to the name that was found free.
\<close>

function fileUtils_nameReserved ::
  "(path, bytes) fmap \<Rightarrow> string option \<Rightarrow> string \<Rightarrow> nat \<Rightarrow> path" where
  "fileUtils_nameReserved fs extention fname i =
     (if fullFilename fname i |\<in>| fmdom fs then fileUtils_nameReserved fs extention fname (i + 1)
      else fullFilename fname i @ (case extention of None \<Rightarrow> [] | Some e \<Rightarrow> e))"
  by pat_completeness auto
termination
  by (relation "measure (\<lambda>(fs, extention, fname, i).
        card {j. i \<le> j \<and> fullFilename fname j |\<in>| fmdom fs})")
     (simp_all add: probe_decreases)

declare fileUtils_nameReserved.simps [simp del]

definition fileUtils_getUniqueFilename ::
  "(nat \<Rightarrow> string) \<Rightarrow> string \<Rightarrow> string option \<Rightarrow> disk \<Rightarrow> path \<times> disk" where
  "fileUtils_getUniqueFilename gen folder extention d =
     (let tmpFilename = gen (tick d);
          extention' = (if truthy extention then map_option (\<lambda>e. ''.'' @ e) extention
                        else extention)
      in (fileUtils_nameReserved (files d) extention' (folder @ tmpFilename) 0,
          d\<lparr>tick := Suc (tick d)\<rparr>))"

definition fileUtils_removeFile :: "path \<Rightarrow> disk \<Rightarrow> disk" where
  "fileUtils_removeFile p d = (if exists d p then unlink p d else d)"

text \<open>
  The loop \<open>transmission.each\<close> of lib/file-utils.js calls \<open>fileUtils.removeFile\<close> for
  the file of every numbered key and waits for none of the calls either.
\<close>

definition fileUtils_startRemoveFile :: "path \<Rightarrow> disk \<Rightarrow> disk" where
  "fileUtils_startRemoveFile p d = d\<lparr>pending := pending d @ [p]\<rparr>"

definition fileUtils_settle :: "disk \<Rightarrow> disk" where
  "fileUtils_settle d = fold fileUtils_removeFile (pending d) (d\<lparr>pending := []\<rparr>)"

definition fileUtils_removeParts :: "transmission \<Rightarrow> disk \<Rightarrow> disk" where
  "fileUtils_removeParts t d =
     fold (\<lambda>(key, p). fileUtils_startRemoveFile p) (sorted_list_of_fmap (parts t)) d"

function fileUtils_appendFileData ::
  "transmission \<Rightarrow> path \<Rightarrow> nat \<Rightarrow> disk \<Rightarrow> (error + unit) \<times> disk" where
  "fileUtils_appendFileData t out part d =
     (case fmlookup (parts t) part of
        None \<Rightarrow> (Inl TypeError, d)
      | Some p \<Rightarrow>
          (case fmlookup (files d) p of
             None \<Rightarrow> (Inl ENOENT, d)
           | Some dat \<Rightarrow>
               (let d1 = wstream_write out dat d
                in if Some part = count t
                   then (Inr (), fileUtils_removeParts t (endPromise out d1))
                   else fileUtils_appendFileData t out (part + 1) d1)))"
  by pat_completeness auto
termination
  by (relation "measure (\<lambda>(t, out, part, d). card {k. part \<le> k \<and> k |\<in>| fmdom (parts t)})")
     (simp_all add: part_decreases)

declare fileUtils_appendFileData.simps [simp del]

text \<open>
  \<open>getFinalFile\<close> of lib/file-utils.js takes the extension of \<open>transmission.filename\<close>
  (what follows its last dot); on a transmission without a file name the call
  \<open>transmission.filename.lastIndexOf\<close> throws.
\<close>

definition extentionOf :: "string \<Rightarrow> string option" where
  "extentionOf fn =
     (let dot = lastIndexOf CHR ''.'' fn
      in case dot of None \<Rightarrow> None | Some i \<Rightarrow> Some (drop (i + 1) fn))"

definition fileUtils_getFinalFile ::
  "(nat \<Rightarrow> string) \<Rightarrow> string \<Rightarrow> transmission \<Rightarrow> disk \<Rightarrow> (error + finalFile) \<times> disk" where
  "fileUtils_getFinalFile gen folder t d =
     (case filename t of
        None \<Rightarrow> (Inl TypeError, d)
      | Some fn \<Rightarrow>
          (let extention = extentionOf fn;
               (tmpBuild, d1) = fileUtils_getUniqueFilename gen folder extention d;
               d2 = createWriteStream tmpBuild d1
           in case fileUtils_appendFileData t tmpBuild 1 d2 of
                (Inl e, d3) \<Rightarrow> (Inl e, d3)
              | (Inr u, d3) \<Rightarrow>
                  (Inr \<lparr>originalFilename = filename t, tmpBuildFilename = tmpBuild\<rparr>, d3)))"

section \<open>recieveFile\<close>

text \<open>
  What \<open>recieveFile\<close> reads of a request: the payload and the headers \<open>x-filename\<close>,
  \<open>x-transid\<close>, \<open>x-clientid\<close>, \<open>x-partial\<close>, \<open>x-total-size\<close> and \<open>x-data\<close>.  A header
  \<open>x-total-size\<close> that is absent or not a number compares false with every number and
  is \<open>None\<close>.
\<close>

record request =
  payload :: bytes
  x_filename :: "string option"
  x_transid :: string
  x_clientid :: string
  x_partial :: nat
  x_total_size :: "nat option"
  x_data :: "string option"

text \<open>
  The closure of \<open>handleFile\<close>: the temp directory, the global size limit, and the two
  collaborators from other packages, the id generator and \<open>JSON.parse\<close> (\<open>None\<close> when
  it throws).  The temp directory is the argument \<open>tempdir\<close>, or else the environment
  variable \<open>TMP\<close>, or else \<open>TEMP\<close>, or else \<open>/tmp\<close>, and it is given a final slash when it
  has none.  The third argument of \<open>handleFile\<close>, the prefix of the client ids, is used by
  \<open>generateClientId\<close> only.
\<close>

text \<open>\<open>a || b\<close> on strings: \<open>b\<close> when \<open>a\<close> is absent or empty.\<close>

definition orElse :: "string option \<Rightarrow> string \<Rightarrow> string" where
  "orElse a b = (case a of None \<Rightarrow> b | Some v \<Rightarrow> if v = [] then b else v)"

record config =
  TMP_DIR :: string
  globalMaxFileSize :: "nat option"
  idGenerator :: "nat \<Rightarrow> string"
  parseJSON :: "string \<Rightarrow> metadata option"

definition DEF_MAX_FILESIZE :: nat where
  "DEF_MAX_FILESIZE = 10 * 1024 * 1024"

definition handleFile ::
  "string option \<Rightarrow> string option \<Rightarrow> string option \<Rightarrow> nat option \<Rightarrow>
   (nat \<Rightarrow> string) \<Rightarrow> (string \<Rightarrow> metadata option) \<Rightarrow> config" where
  "handleFile tempdir env_TMP env_TEMP maxFileSize gen parse =
     (let dir = orElse tempdir (orElse env_TMP (orElse env_TEMP ''/tmp''))
      in \<lparr>TMP_DIR = (if dir \<noteq> [] \<and> last dir = CHR ''/'' then dir else dir @ ''/''),
          globalMaxFileSize = maxFileSize, idGenerator = gen, parseJSON = parse\<rparr>)"

type_synonym registry = "(string, (string, transmission) fmap) fmap"

record world =
  FILE_TRANSMISSIONS :: registry
  disk_of :: disk

datatype outcome = Incomplete | Complete finalFile | QuotaExceeded | Failed error

text \<open>
  The consumer of the final file: it is given the path and the original file name, may
  change the disk, and resolves (\<open>True\<close>) or throws or rejects (\<open>False\<close>).  It is called
  as soon as the promise of \<open>getFinalFile\<close> has resolved: the removals of the chunk files
  have been started, and none has been carried out.
\<close>

type_synonym callback = "path \<Rightarrow> string option \<Rightarrow> disk \<Rightarrow> bool \<times> disk"

definition transmissionOf :: "registry \<Rightarrow> string \<Rightarrow> string \<Rightarrow> transmission option" where
  "transmissionOf reg clientId transId =
     (case fmlookup reg clientId of None \<Rightarrow> None | Some client \<Rightarrow> fmlookup client transId)"

definition putTransmission :: "string \<Rightarrow> string \<Rightarrow> transmission \<Rightarrow> registry \<Rightarrow> registry" where
  "putTransmission clientId transId t reg =
     fmupd clientId
       (fmupd transId t (case fmlookup reg clientId of None \<Rightarrow> fmempty | Some client \<Rightarrow> client))
       reg"

text \<open>Lines 280 to 289: create the client and the transmission, or add to the size.\<close>

definition accumulate :: "request \<Rightarrow> registry \<Rightarrow> registry" where
  "accumulate r reg =
     (let filedataSize = length (payload r);
          t = (case transmissionOf reg (x_clientid r) (x_transid r) of
                 None \<Rightarrow> \<lparr>cummulatedSize = filedataSize, count = None, filename = None,
                           data = None, parts = fmempty\<rparr>
               | Some t0 \<Rightarrow> t0\<lparr>cummulatedSize := cummulatedSize t0 + filedataSize\<rparr>)
      in putTransmission (x_clientid r) (x_transid r) t reg)"

text \<open>Lines 290 to 296: \<open>maxFileSize || globalMaxFileSize || DEF_MAX_FILESIZE\<close>.\<close>

definition maxSize :: "config \<Rightarrow> nat option \<Rightarrow> nat" where
  "maxSize cfg maxFileSize =
     (case maxFileSize of
        Some m \<Rightarrow> if m \<noteq> 0 then m
                  else (case globalMaxFileSize cfg of
                          Some g \<Rightarrow> if g \<noteq> 0 then g else DEF_MAX_FILESIZE
                        | None \<Rightarrow> DEF_MAX_FILESIZE)
      | None \<Rightarrow> (case globalMaxFileSize cfg of
                   Some g \<Rightarrow> if g \<noteq> 0 then g else DEF_MAX_FILESIZE
                 | None \<Rightarrow> DEF_MAX_FILESIZE))"

text \<open>Line 302: the condition of the abort.\<close>

definition exceeds :: "config \<Rightarrow> request \<Rightarrow> nat option \<Rightarrow> registry \<Rightarrow> bool" where
  "exceeds cfg r maxFileSize reg =
     ((case x_total_size r of None \<Rightarrow> False | Some totalSize \<Rightarrow> totalSize > maxSize cfg maxFileSize)
      \<or> (case transmissionOf reg (x_clientid r) (x_transid r) of
            None \<Rightarrow> False
          | Some t \<Rightarrow> cummulatedSize t > maxSize cfg maxFileSize))"

text \<open>
  Lines 303 to 307 and 374 to 378: delete the transmission, and the client when it has
  no transmission left.
\<close>

definition deleteTransmission :: "string \<Rightarrow> string \<Rightarrow> registry \<Rightarrow> registry" where
  "deleteTransmission clientId transId reg =
     (case fmlookup reg clientId of
        None \<Rightarrow> reg
      | Some client \<Rightarrow>
          (let client' = fmdrop transId client
           in if fcard (fmdom client') = 0 then fmdrop clientId reg
              else fmupd clientId client' reg))"

text \<open>Lines 326 to 343: what the chunk that carries the file name sets.\<close>

definition terminalInfo :: "config \<Rightarrow> request \<Rightarrow> transmission \<Rightarrow> transmission" where
  "terminalInfo cfg r t =
     (if truthy (x_filename r)
      then t\<lparr>count := Some (x_partial r),
             filename := x_filename r,
             data := Some (case x_data r of
                             None \<Rightarrow> []
                           | Some s \<Rightarrow> if s = [] then []
                                       else (case parseJSON cfg s of None \<Rightarrow> [] | Some v \<Rightarrow> v))\<rparr>
      else t)"

text \<open>Line 346: \<open>partCount && (size() === partCount + 4)\<close>.\<close>

definition allPartsProcessed :: "transmission \<Rightarrow> bool" where
  "allPartsProcessed t =
     (case count t of None \<Rightarrow> False | Some partCount \<Rightarrow> partCount \<noteq> 0 \<and> size_t t = partCount + 4)"

text \<open>
  Lines 311 to 343: the chunk is written to a new file, the file is recorded under the
  chunk number, and the chunk that carries the file name sets \<open>count\<close>, \<open>filename\<close>
  and \<open>data\<close>.  Recording into a transmission that is not in the table throws.
\<close>

definition storeChunk :: "config \<Rightarrow> request \<Rightarrow> world \<Rightarrow> (error + transmission) \<times> world" where
  "storeChunk cfg r w =
     (let (chunkFile, d1) = getUniqueFilename (idGenerator cfg) (TMP_DIR cfg) (disk_of w);
          d2 = endPromise chunkFile
                 (wstream_write chunkFile (payload r) (createWriteStream chunkFile d1))
      in case transmissionOf (FILE_TRANSMISSIONS w) (x_clientid r) (x_transid r) of
           None \<Rightarrow> (Inl TypeError, w\<lparr>disk_of := d2\<rparr>)
         | Some t0 \<Rightarrow>
             (let t1 = terminalInfo cfg r (t0\<lparr>parts := fmupd (x_partial r) chunkFile (parts t0)\<rparr>)
              in (Inr t1,
                  \<lparr>FILE_TRANSMISSIONS =
                     putTransmission (x_clientid r) (x_transid r) t1 (FILE_TRANSMISSIONS w),
                   disk_of = d2\<rparr>)))"

text \<open>Lines 347 to 353: the final file is built from the chunks of the transmission.\<close>

definition assemble :: "config \<Rightarrow> transmission \<Rightarrow> world \<Rightarrow> outcome \<times> world" where
  "assemble cfg t w =
     (case getFinalFile (idGenerator cfg) (TMP_DIR cfg) t (disk_of w) of
        (Inl e, d) \<Rightarrow> (Failed e, w\<lparr>disk_of := d\<rparr>)
      | (Inr f, d) \<Rightarrow> (Complete f, w\<lparr>disk_of := d\<rparr>))"

text \<open>Lines 344 to 359: build the final file when all parts are there.\<close>

definition buildIfComplete :: "config \<Rightarrow> transmission \<Rightarrow> world \<Rightarrow> outcome \<times> world" where
  "buildIfComplete cfg t w = (if allPartsProcessed t then assemble cfg t w else (Incomplete, w))"

text \<open>
  Lines 269 to 359, up to the promise of the final file.
\<close>

definition processChunk :: "config \<Rightarrow> request \<Rightarrow> nat option \<Rightarrow> world \<Rightarrow> outcome \<times> world" where
  "processChunk cfg r maxFileSize w =
     (let w1 = w\<lparr>FILE_TRANSMISSIONS := accumulate r (FILE_TRANSMISSIONS w)\<rparr>
      in if exceeds cfg r maxFileSize (FILE_TRANSMISSIONS w1)
         then (QuotaExceeded,
               w1\<lparr>FILE_TRANSMISSIONS :=
                    deleteTransmission (x_clientid r) (x_transid r) (FILE_TRANSMISSIONS w1)\<rparr>)
         else (case storeChunk cfg r w1 of
                 (Inl e, w2) \<Rightarrow> (Failed e, w2)
               | (Inr t1, w2) \<Rightarrow> buildIfComplete cfg t1 w2))"

text \<open>
  Lines 360 to 381: the callback is invoked with the final file, the reply is sent, the
  transmission is deleted and the final file removed (\<open>removeFile\<close> is the last step of
  the chain, and its promise is what the chain returns).  When the callback throws or
  rejects nothing more is done and no reply is sent.
\<close>

definition replyAndCleanup ::
  "callback option \<Rightarrow> request \<Rightarrow> outcome \<times> world \<Rightarrow> outcome \<times> world" where
  "replyAndCleanup cb r ow =
     (case ow of
        (Complete f, w) \<Rightarrow>
          (let (resolved, d) =
                 (case cb of
                    None \<Rightarrow> (True, disk_of w)
                  | Some c \<Rightarrow> c (tmpBuildFilename f) (originalFilename f) (disk_of w))
           in if resolved
              then (Complete f,
                    \<lparr>FILE_TRANSMISSIONS =
                       deleteTransmission (x_clientid r) (x_transid r) (FILE_TRANSMISSIONS w),
                     disk_of = removeFile (tmpBuildFilename f) d\<rparr>)
              else (Failed CallbackError, w\<lparr>disk_of := d\<rparr>))
      | (out, w) \<Rightarrow> (out, w))"

text \<open>
  The requests are served one after the other, each on a disk at rest: the removals that
  were started before a request are carried out before it is served, and those that it
  starts are carried out when it has been served.
\<close>

definition atRest :: "world \<Rightarrow> world" where
  "atRest w = w\<lparr>disk_of := settle (disk_of w)\<rparr>"

definition recieveFile ::
  "config \<Rightarrow> request \<Rightarrow> nat option \<Rightarrow> callback option \<Rightarrow> world \<Rightarrow> outcome \<times> world" where
  "recieveFile cfg r maxFileSize cb w =
     (let (out, w1) = replyAndCleanup cb r (processChunk cfg r maxFileSize (atRest w))
      in (out, atRest w1))"

text \<open>A sequence of requests on one route, served in the order of arrival.\<close>

fun recieveFiles ::
  "config \<Rightarrow> nat option \<Rightarrow> callback option \<Rightarrow> request list \<Rightarrow> world \<Rightarrow> outcome list \<times> world" where
  "recieveFiles cfg maxFileSize cb [] w = ([], w)"
| "recieveFiles cfg maxFileSize cb (r # rs) w =
     (let (out, w1) = recieveFile cfg r maxFileSize cb w;
          (outs, w2) = recieveFiles cfg maxFileSize cb rs w1
      in (out # outs, w2))"

definition initial :: world where
  "initial = \<lparr>FILE_TRANSMISSIONS = fmempty,
              disk_of = \<lparr>files = fmempty, handles = [], tick = 0, pending = []\<rparr>\<rparr>"

text \<open>
  Inputs for the examples: a server on \<open>/tmp\<close> whose id generator yields
  \<open>tmp-file-0\<close>, \<open>tmp-file-1\<close>, ... and whose \<open>JSON.parse\<close> rejects every string, and
  the chunks of one transmission of one client.
\<close>

definition exampleNames :: "nat \<Rightarrow> string" where
  "exampleNames n = ''tmp-file-'' @ show_nat n"

definition exampleConfig :: config where
  "exampleConfig = handleFile (Some ''/tmp'') None None None exampleNames (\<lambda>s. None)"

definition chunk :: "nat \<Rightarrow> bytes \<Rightarrow> string option \<Rightarrow> request" where
  "chunk k p fn =
     \<lparr>payload = p, x_filename = fn, x_transid = ''ITSA-FILETRANS-1'',
      x_clientid = ''ITSA_CL_ID-1'', x_partial = k, x_total_size = None, x_data = None\<rparr>"

section \<open>Notions used in the claims\<close>

text \<open>The size received so far for a transmission; zero while it is not in the table.\<close>

definition receivedSize :: "registry \<Rightarrow> string \<Rightarrow> string \<Rightarrow> nat" where
  "receivedSize reg clientId transId =
     (case transmissionOf reg clientId transId of None \<Rightarrow> 0 | Some t \<Rightarrow> cummulatedSize t)"

text \<open>
  Completeness in the words of the specification: the expected count is known and the
  number of recorded chunk entries equals it.
\<close>

definition complete :: "transmission \<Rightarrow> bool" where
  "complete t = (case count t of None \<Rightarrow> False | Some n \<Rightarrow> fcard (fmdom (parts t)) = n)"

text \<open>
  In every transmission of the table the keys \<open>count\<close>, \<open>filename\<close> and \<open>data\<close> are
  there together or not at all: \<open>recieveFile\<close> sets them in one step.
\<close>

definition keysTogether :: "transmission \<Rightarrow> bool" where
  "keysTogether t =
     (case count t of
        None \<Rightarrow> filename t = None \<and> data t = None
      | Some n \<Rightarrow> filename t \<noteq> None \<and> data t \<noteq> None)"

definition consistent :: "registry \<Rightarrow> bool" where
  "consistent reg = fmpred (\<lambda>clientId client. fmpred (\<lambda>transId t. keysTogether t) client) reg"

text \<open>
  A consumer that leaves alone the removals that have been started: it can change the
  files, not what the server has asked the file system to do.
\<close>

definition leavesRemovals :: "callback option \<Rightarrow> bool" where
  "leavesRemovals cb =
     (case cb of
        None \<Rightarrow> True
      | Some c \<Rightarrow> \<forall>p fn d. pending (snd (c p fn d)) = pending d)"

text \<open>
  The content of the chunk file that a transmission records for a chunk number, on a
  given disk (empty when there is none).
\<close>

definition chunkData :: "transmission \<Rightarrow> disk \<Rightarrow> nat \<Rightarrow> bytes" where
  "chunkData t d k =
     (case fmlookup (parts t) k of
        None \<Rightarrow> []
      | Some p \<Rightarrow> (case fmlookup (files d) p of None \<Rightarrow> [] | Some dat \<Rightarrow> dat))"

text \<open>
  The steps of one arrival that passes the quota check, named for the statements below:
  the path allocated for the chunk, the transmission with the new size (lines 280 to
  289), the transmission as it is recorded (lines 322 to 343), and the state of the
  server once the chunk is stored and recorded.
\<close>

definition chunkPath :: "config \<Rightarrow> world \<Rightarrow> path" where
  "chunkPath cfg w = fst (getUniqueFilename (idGenerator cfg) (TMP_DIR cfg) (disk_of w))"

definition arrived :: "request \<Rightarrow> registry \<Rightarrow> transmission" where
  "arrived r reg =
     (case transmissionOf reg (x_clientid r) (x_transid r) of
        None \<Rightarrow> \<lparr>cummulatedSize = length (payload r), count = None, filename = None,
                  data = None, parts = fmempty\<rparr>
      | Some t0 \<Rightarrow> t0\<lparr>cummulatedSize := cummulatedSize t0 + length (payload r)\<rparr>)"

definition recorded :: "config \<Rightarrow> request \<Rightarrow> world \<Rightarrow> transmission" where
  "recorded cfg r w =
     terminalInfo cfg r
       ((arrived r (FILE_TRANSMISSIONS w))
          \<lparr>parts := fmupd (x_partial r) (chunkPath cfg w)
                      (parts (arrived r (FILE_TRANSMISSIONS w)))\<rparr>)"

definition stored :: "config \<Rightarrow> request \<Rightarrow> world \<Rightarrow> world" where
  "stored cfg r w =
     \<lparr>FILE_TRANSMISSIONS =
        putTransmission (x_clientid r) (x_transid r) (recorded cfg r w)
          (accumulate r (FILE_TRANSMISSIONS w)),
      disk_of = (disk_of w)\<lparr>files := fmupd (chunkPath cfg w) (payload r) (files (disk_of w)),
                             tick := Suc (tick (disk_of w))\<rparr>\<rparr>"

definition aborted :: "request \<Rightarrow> world \<Rightarrow> world" where
  "aborted r w =
     w\<lparr>FILE_TRANSMISSIONS :=
         deleteTransmission (x_clientid r) (x_transid r) (accumulate r (FILE_TRANSMISSIONS w))\<rparr>"

text \<open>
  A transmission of \<open>N\<close> chunks in some order of arrival: every request belongs to the
  client and the transmission, the chunk numbers are 1 to \<open>N\<close>, each once, and the file
  name comes with chunk \<open>N\<close> and with no other chunk.
\<close>

definition wellFormed :: "string \<Rightarrow> string \<Rightarrow> nat \<Rightarrow> request list \<Rightarrow> bool" where
  "wellFormed clientId transId N rs =
     ((\<forall>r\<in>set rs. x_clientid r = clientId \<and> x_transid r = transId \<and>
                   (truthy (x_filename r) \<longleftrightarrow> x_partial r = N)) \<and>
      distinct (map x_partial rs) \<and> set (map x_partial rs) = {1..N})"

text \<open>The requests stay within the quota: their payloads together, and every declared size.\<close>

definition withinQuota :: "config \<Rightarrow> nat option \<Rightarrow> request list \<Rightarrow> bool" where
  "withinQuota cfg maxFileSize rs =
     (sum_list (map (\<lambda>r. length (payload r)) rs) \<le> maxSize cfg maxFileSize \<and>
      (\<forall>r\<in>set rs. case x_total_size r of
                     None \<Rightarrow> True
                   | Some totalSize \<Rightarrow> totalSize \<le> maxSize cfg maxFileSize))"

text \<open>
  The transmission of a client as the table holds it, or the empty one when the table
  does not hold it yet.
\<close>

definition view :: "registry \<Rightarrow> string \<Rightarrow> string \<Rightarrow> transmission" where
  "view reg clientId transId =
     (case transmissionOf reg clientId transId of
        None \<Rightarrow> \<lparr>cummulatedSize = 0, count = None, filename = None, data = None,
                  parts = fmempty\<rparr>
      | Some t \<Rightarrow> t)"

text \<open>
  What holds of a transmission and the disk after the arrivals \<open>seen\<close> of a transmission
  of \<open>N\<close> chunks: the size is the sum of the payloads, the recorded parts are the chunk
  numbers seen, each part names a file that holds the payload of its chunk, and the count
  and the file name are those of chunk \<open>N\<close> once it has been seen.
\<close>

definition tracks :: "nat \<Rightarrow> request list \<Rightarrow> transmission \<Rightarrow> (path, bytes) fmap \<Rightarrow> bool" where
  "tracks N seen t fs =
     (cummulatedSize t = sum_list (map (\<lambda>r. length (payload r)) seen) \<and>
      fmdom' (parts t) = set (map x_partial seen) \<and>
      (\<forall>r\<in>set seen. \<exists>p. fmlookup (parts t) (x_partial r) = Some p \<and>
                          fmlookup fs p = Some (payload r)) \<and>
      keysTogether t \<and>
      count t = (if N \<in> set (map x_partial seen) then Some N else None) \<and>
      (\<forall>r\<in>set seen. x_partial r = N \<longrightarrow> filename t = x_filename r))"

section \<open>Facts about the helpers\<close>

lemma removeFile_eq: "removeFile p d = d\<lparr>files := fmdrop p (files d)\<rparr>"
  by (simp add: removeFile_def exists_def unlink_def fmdrop_idle)

lemma fileUtils_removeFile_eq: "fileUtils_removeFile p d = removeFile p d"
  by (simp add: fileUtils_removeFile_def removeFile_def)

lemma fold_startRemoveFile:
  "fold (\<lambda>(key, p). startRemoveFile p) kps d = d\<lparr>pending := pending d @ map snd kps\<rparr>"
  by (induction kps arbitrary: d) (auto simp: startRemoveFile_def)

lemma removeParts_eq:
  "removeParts t d = d\<lparr>pending := pending d @ map snd (sorted_list_of_fmap (parts t))\<rparr>"
  by (simp only: removeParts_def fold_startRemoveFile)

lemma fileUtils_removeParts_eq: "fileUtils_removeParts t d = removeParts t d"
proof -
  have "fileUtils_startRemoveFile = startRemoveFile"
    by (intro ext) (simp add: fileUtils_startRemoveFile_def startRemoveFile_def)
  then show ?thesis
    by (simp add: fileUtils_removeParts_def removeParts_def)
qed

lemma fold_removeFile:
  "fold removeFile ps d = d\<lparr>files := fmdrop_fset (fset_of_list ps) (files d)\<rparr>"
proof (induction ps arbitrary: d)
  case Nil
  then show ?case by simp
next
  case (Cons p ps)
  have "fold removeFile (p # ps) d = fold removeFile ps (removeFile p d)"
    by simp
  also have "\<dots> = (removeFile p d)\<lparr>files :=
      fmdrop_fset (fset_of_list ps) (files (removeFile p d))\<rparr>"
    by (rule Cons.IH)
  also have "\<dots> = d\<lparr>files := fmdrop_fset (fset_of_list (p # ps)) (files d)\<rparr>"
    by (simp add: removeFile_eq)
  finally show ?case .
qed

lemma settle_eq:
  "settle d = d\<lparr>files := fmdrop_fset (fset_of_list (pending d)) (files d), pending := []\<rparr>"
  by (simp add: settle_def fold_removeFile)

lemma fileUtils_settle_eq: "fileUtils_settle d = settle d"
proof -
  have "fileUtils_removeFile = removeFile"
    by (intro ext) (rule fileUtils_removeFile_eq)
  then show ?thesis
    by (simp add: fileUtils_settle_def settle_def)
qed

lemma settle_at_rest: "pending d = [] \<Longrightarrow> settle d = d"
  by (simp add: settle_def)

lemma pending_settle [simp]: "pending (settle d) = []"
  by (simp add: settle_eq)

lemma snd_sorted_list_of_fmap: "fset_of_list (map snd (sorted_list_of_fmap m)) = fmran m"
proof (rule fset_eqI)
  fix y
  show "y |\<in>| fset_of_list (map snd (sorted_list_of_fmap m)) \<longleftrightarrow> y |\<in>| fmran m"
  proof
    assume "y |\<in>| fset_of_list (map snd (sorted_list_of_fmap m))"
    then obtain k where "k |\<in>| fmdom m" "y = the (fmlookup m k)"
      by (auto simp: sorted_list_of_fmap_def fset_of_list_elem)
    then show "y |\<in>| fmran m"
      by (auto simp: fmlookup_ran_iff fmlookup_dom_iff)
  next
    assume "y |\<in>| fmran m"
    then obtain k where k: "fmlookup m k = Some y"
      by (auto simp: fmlookup_ran_iff)
    then have "k |\<in>| fmdom m" "y = the (fmlookup m k)"
      by (simp_all add: fmdomI)
    then have "(k, y) \<in> set (sorted_list_of_fmap m)"
      by (auto simp: sorted_list_of_fmap_def)
    then have "y \<in> set (map snd (sorted_list_of_fmap m))"
      by force
    then show "y |\<in>| fset_of_list (map snd (sorted_list_of_fmap m))"
      by (simp only: fset_of_list_elem)
  qed
qed

lemma nameReserved_fresh: "nameReserved fs fname i |\<notin>| fmdom fs"
  by (induction fs fname i rule: nameReserved.induct) (simp add: nameReserved.simps)

lemma fileUtils_nameReserved_eq:
  "fileUtils_nameReserved fs ext fname i = nameReserved fs fname i @ (case ext of None \<Rightarrow> [] | Some e \<Rightarrow> e)"
  by (induction fs fname i rule: nameReserved.induct)
     (simp add: nameReserved.simps fileUtils_nameReserved.simps)

lemma fileUtils_appendFileData_eq: "fileUtils_appendFileData t out part d = appendFileData t out part d"
proof (induction t out part d rule: appendFileData.induct)
  case (1 t out part d)
  show ?case
    using "1.IH"
    by (subst fileUtils_appendFileData.simps, subst appendFileData.simps)
       (auto simp: fileUtils_removeParts_eq Let_def split: option.splits)
qed

lemma appendFileData_undefined:
  "fmlookup (parts t) part = None \<Longrightarrow> appendFileData t out part d = (Inl TypeError, d)"
  by (subst appendFileData.simps) simp

lemma appendFileData_missing:
  "fmlookup (parts t) part = Some p \<Longrightarrow> fmlookup (files d) p = None \<Longrightarrow>
   appendFileData t out part d = (Inl ENOENT, d)"
  by (subst appendFileData.simps) simp

lemma appendFileData_last:
  "fmlookup (parts t) part = Some p \<Longrightarrow> fmlookup (files d) p = Some dat \<Longrightarrow>
   count t = Some part \<Longrightarrow>
   appendFileData t out part d = (Inr (), removeParts t (endPromise out (wstream_write out dat d)))"
  by (subst appendFileData.simps) simp

lemma appendFileData_next:
  "fmlookup (parts t) part = Some p \<Longrightarrow> fmlookup (files d) p = Some dat \<Longrightarrow>
   count t \<noteq> Some part \<Longrightarrow>
   appendFileData t out part d = appendFileData t out (Suc part) (wstream_write out dat d)"
  by (subst appendFileData.simps) auto

lemmas run_simps =
  exampleConfig_def exampleNames_def handleFile_def orElse_def chunk_def initial_def recieveFile_def
  atRest_def settle_def processChunk_def
  accumulate_def transmissionOf_def putTransmission_def exceeds_def maxSize_def
  DEF_MAX_FILESIZE_def deleteTransmission_def storeChunk_def getUniqueFilename_def
  nameReserved.simps fullFilename_def show_nat.simps digit_def createWriteStream_def
  wstream_write_def endPromise_def terminalInfo_def truthy_def buildIfComplete_def
  allPartsProcessed_def size_t_def assemble_def
  replyAndCleanup_def removeFile_eq Let_def fcard_finsert_if fcard_fempty fmdrop_fmupd

lemma fmran_fmupd: "fmran (fmupd k v m) = finsert v (fmran (fmdrop k m))"
proof (rule fset_eqI)
  fix y
  show "y |\<in>| fmran (fmupd k v m) \<longleftrightarrow> y |\<in>| finsert v (fmran (fmdrop k m))"
    by (auto simp del: fmran_drop simp: fmlookup_ran_iff split: if_splits)
qed

lemmas build_simps =
  exampleNames_def getFinalFile_def getUniqueFilename_def nameReserved.simps fullFilename_def show_nat.simps
  digit_def createWriteStream_def wstream_write_def endPromise_def
  appendFileData_undefined appendFileData_missing appendFileData_last appendFileData_next
  removeParts_eq Let_def fmran_fmupd fmdrop_fmupd

lemma transmissionOf_putTransmission:
  "transmissionOf (putTransmission c t tr reg) c' t'
     = (if c' = c \<and> t' = t then Some tr else transmissionOf reg c' t')"
  by (auto simp: transmissionOf_def putTransmission_def split: option.splits)

lemma transmissionOf_deleteTransmission:
  "transmissionOf (deleteTransmission c t reg) c' t'
     = (if c' = c \<and> t' = t then None else transmissionOf reg c' t')"
proof (cases "fmlookup reg c")
  case None
  then show ?thesis
    by (auto simp: transmissionOf_def deleteTransmission_def)
next
  case (Some client)
  show ?thesis
  proof (cases "fmdom (fmdrop t client) = {||}")
    case True
    then have "\<And>k. fmlookup (fmdrop t client) k = None"
      by (metis fmdom_notD fempty_iff)
    then have "\<And>k. k \<noteq> t \<Longrightarrow> fmlookup client k = None"
      by (metis fmlookup_drop)
    with Some True show ?thesis
      by (auto simp: transmissionOf_def deleteTransmission_def)
  next
    case False
    with Some show ?thesis
      by (auto simp: transmissionOf_def deleteTransmission_def)
  qed
qed

lemma client_deleteTransmission:
  assumes "\<And>t'. t' \<noteq> t \<Longrightarrow> transmissionOf reg c t' = None"
  shows "fmlookup (deleteTransmission c t reg) c = None"
proof (cases "fmlookup reg c")
  case None
  then show ?thesis
    by (simp add: deleteTransmission_def)
next
  case (Some client)
  with assms have "\<And>t'. t' \<noteq> t \<Longrightarrow> fmlookup client t' = None"
    by (simp add: transmissionOf_def)
  then have "\<And>k. fmlookup (fmdrop t client) k = None"
    by simp
  then have "fmdom (fmdrop t client) = {||}"
    by (metis fmlookup_dom_iff option.distinct(1) fset_eqI fempty_iff)
  with Some show ?thesis
    by (simp add: deleteTransmission_def)
qed

lemma transmissionOf_accumulate:
  "transmissionOf (accumulate r reg) c t
     = (if c = x_clientid r \<and> t = x_transid r
        then Some (case transmissionOf reg c t of
               None \<Rightarrow> \<lparr>cummulatedSize = length (payload r), count = None, filename = None,
                         data = None, parts = fmempty\<rparr>
             | Some t0 \<Rightarrow> t0\<lparr>cummulatedSize := cummulatedSize t0 + length (payload r)\<rparr>)
        else transmissionOf reg c t)"
  by (simp add: accumulate_def transmissionOf_putTransmission Let_def)

lemma getUniqueFilename_fresh:
  "fst (getUniqueFilename gen folder d) |\<notin>| fmdom (files d)"
  by (simp add: getUniqueFilename_def nameReserved_fresh)

lemma getUniqueFilename_disk:
  "snd (getUniqueFilename gen folder d) = d\<lparr>tick := Suc (tick d)\<rparr>"
  by (simp add: getUniqueFilename_def)

section \<open>The two copies of the helpers\<close>

text \<open>
  Claim C8.  \<open>getUniqueFilename\<close> of lib/file-utils.js is documented to return a unique
  file name, but it probes the name without the extension and returns the name with the
  extension.  With the base name \<open>tmp-file-1-0\<close>, the extension \<open>png\<close> and a disk that
  holds \<open>/tmp/tmp-file-1-0.png\<close> (and not \<open>/tmp/tmp-file-1-0\<close>), the path it returns
  exists.
\<close>

theorem getUniqueFilename_extension_collision:
  "exists \<lparr>files = fmupd ''/tmp/tmp-file-1-0.png'' ''old'' fmempty, handles = [], tick = 0, pending = []\<rparr>
     (fst (fileUtils_getUniqueFilename (\<lambda>n. ''tmp-file-1-0'') ''/tmp/'' (Some ''png'')
        \<lparr>files = fmupd ''/tmp/tmp-file-1-0.png'' ''old'' fmempty, handles = [], tick = 0, pending = []\<rparr>))"
  by (simp add: exists_def fileUtils_getUniqueFilename_def truthy_def fileUtils_nameReserved.simps
      fullFilename_def)

text \<open>
  Claim C9, as stated: the helpers of index.js and of lib/file-utils.js give the same
  result and the same effects on the same input.  They do not: for a transmission whose
  file name is \<open>a.png\<close>, \<open>getFinalFile\<close> of lib/file-utils.js builds the file
  \<open>/tmp/f.png\<close> and the one of index.js builds \<open>/tmp/f\<close>.
\<close>

theorem getFinalFile_differs:
  "fileUtils_getFinalFile (\<lambda>n. ''f'') ''/tmp/''
     \<lparr>cummulatedSize = 1, count = Some 1, filename = Some ''a.png'', data = Some [],
      parts = fmupd 1 ''/tmp/c1'' fmempty\<rparr>
     \<lparr>files = fmupd ''/tmp/c1'' ''x'' fmempty, handles = [], tick = 0, pending = []\<rparr>
   \<noteq> getFinalFile (\<lambda>n. ''f'') ''/tmp/''
     \<lparr>cummulatedSize = 1, count = Some 1, filename = Some ''a.png'', data = Some [],
      parts = fmupd 1 ''/tmp/c1'' fmempty\<rparr>
     \<lparr>files = fmupd ''/tmp/c1'' ''x'' fmempty, handles = [], tick = 0, pending = []\<rparr>"
  by (simp add: fileUtils_getFinalFile_def getFinalFile_def extentionOf_def
      fileUtils_getUniqueFilename_def getUniqueFilename_def truthy_def
      fileUtils_nameReserved.simps nameReserved.simps fullFilename_def createWriteStream_def
      fileUtils_appendFileData.simps appendFileData.simps wstream_write_def)

text \<open>
  Claim C9, amended.  The two copies of \<open>removeFile\<close> agree on every input;
  \<open>getUniqueFilename\<close> of lib/file-utils.js called without an extension (or with an
  empty one) agrees with the one of index.js; and the two copies of \<open>getFinalFile\<close>
  agree on every transmission whose file name has no extension (no dot, or nothing
  after its last dot).
\<close>

theorem helpers_agree_without_extension:
  "fileUtils_removeFile p d = removeFile p d \<and>
   (\<not> truthy ext \<longrightarrow>
      fileUtils_getUniqueFilename gen folder ext d = getUniqueFilename gen folder d) \<and>
   ((\<exists>fn. filename t = Some fn \<and> \<not> truthy (extentionOf fn)) \<longrightarrow>
      fileUtils_getFinalFile gen folder t d = getFinalFile gen folder t d)"
proof (intro conjI impI)
  show "fileUtils_removeFile p d = removeFile p d"
    by (rule fileUtils_removeFile_eq)
next
  assume "\<not> truthy ext"
  then have "(case ext of None \<Rightarrow> [] | Some e \<Rightarrow> e) = []"
    by (simp add: truthy_def split: option.splits)
  with \<open>\<not> truthy ext\<close>
  show "fileUtils_getUniqueFilename gen folder ext d = getUniqueFilename gen folder d"
    by (simp add: fileUtils_getUniqueFilename_def getUniqueFilename_def fileUtils_nameReserved_eq)
next
  assume "\<exists>fn. filename t = Some fn \<and> \<not> truthy (extentionOf fn)"
  then obtain fn where fn: "filename t = Some fn" and e: "\<not> truthy (extentionOf fn)"
    by blast
  from e have "(case extentionOf fn of None \<Rightarrow> [] | Some e \<Rightarrow> e) = []"
    by (simp add: truthy_def split: option.splits)
  with e have "fileUtils_getUniqueFilename gen folder (extentionOf fn) d
      = getUniqueFilename gen folder d"
    by (simp add: fileUtils_getUniqueFilename_def getUniqueFilename_def fileUtils_nameReserved_eq)
  with fn show "fileUtils_getFinalFile gen folder t d = getFinalFile gen folder t d"
    by (simp add: fileUtils_getFinalFile_def getFinalFile_def fileUtils_appendFileData_eq)
qed

theorem helpers_agree_without_extension_witness:
  "\<not> truthy None \<and> \<not> truthy (extentionOf ''notes'') \<and>
   fileUtils_getUniqueFilename (\<lambda>n. ''f'') ''/tmp/'' None
       \<lparr>files = fmupd ''/tmp/f'' ''x'' fmempty, handles = [], tick = 0, pending = []\<rparr>
     = getUniqueFilename (\<lambda>n. ''f'') ''/tmp/''
       \<lparr>files = fmupd ''/tmp/f'' ''x'' fmempty, handles = [], tick = 0, pending = []\<rparr> \<and>
   fileUtils_getFinalFile (\<lambda>n. ''f'') ''/tmp/''
       \<lparr>cummulatedSize = 1, count = Some 1, filename = Some ''notes'', data = Some [],
        parts = fmupd 1 ''/tmp/c1'' fmempty\<rparr>
       \<lparr>files = fmupd ''/tmp/c1'' ''x'' fmempty, handles = [], tick = 0, pending = []\<rparr>
     = getFinalFile (\<lambda>n. ''f'') ''/tmp/''
       \<lparr>cummulatedSize = 1, count = Some 1, filename = Some ''notes'', data = Some [],
        parts = fmupd 1 ''/tmp/c1'' fmempty\<rparr>
       \<lparr>files = fmupd ''/tmp/c1'' ''x'' fmempty, handles = [], tick = 0, pending = []\<rparr>"
proof -
  have a: "\<not> truthy None" by (simp add: truthy_def)
  have b: "\<not> truthy (extentionOf ''notes'')" by (simp add: truthy_def extentionOf_def)
  have c: "\<exists>fn. filename \<lparr>cummulatedSize = 1, count = Some 1, filename = Some ''notes'', data = Some [],
        parts = fmupd 1 ''/tmp/c1'' fmempty\<rparr> = Some fn \<and> \<not> truthy (extentionOf fn)"
    using b by simp
  show ?thesis
    using a b c
      helpers_agree_without_extension [of "''/tmp/c1''" "\<lparr>files = fmupd ''/tmp/f'' ''x'' fmempty, handles = [], tick = 0, pending = []\<rparr>" None "\<lambda>n. ''f''" "''/tmp/''" "\<lparr>cummulatedSize = 1, count = Some 1, filename = Some ''notes'', data = Some [],
        parts = fmupd 1 ''/tmp/c1'' fmempty\<rparr>"]
      helpers_agree_without_extension [of "''/tmp/c1''" "\<lparr>files = fmupd ''/tmp/c1'' ''x'' fmempty, handles = [], tick = 0, pending = []\<rparr>" None "\<lambda>n. ''f''" "''/tmp/''" "\<lparr>cummulatedSize = 1, count = Some 1, filename = Some ''notes'', data = Some [],
        parts = fmupd 1 ''/tmp/c1'' fmempty\<rparr>"]
    by blast
qed

lemma store_disk:
  "endPromise p (wstream_write p dat (createWriteStream p d))
     = d\<lparr>files := fmupd p dat (files d)\<rparr>"
  by (simp add: endPromise_def wstream_write_def createWriteStream_def)

lemma storeChunk_Some:
  assumes "transmissionOf (FILE_TRANSMISSIONS w) (x_clientid r) (x_transid r) = Some t0"
    and "p = fst (getUniqueFilename (idGenerator cfg) (TMP_DIR cfg) (disk_of w))"
    and "t1 = terminalInfo cfg r (t0\<lparr>parts := fmupd (x_partial r) p (parts t0)\<rparr>)"
  shows "storeChunk cfg r w =
     (Inr t1,
      \<lparr>FILE_TRANSMISSIONS = putTransmission (x_clientid r) (x_transid r) t1 (FILE_TRANSMISSIONS w),
       disk_of = (disk_of w)\<lparr>files := fmupd p (payload r) (files (disk_of w)),
                              tick := Suc (tick (disk_of w))\<rparr>\<rparr>)"
  using assms
  by (simp add: storeChunk_def store_disk split_beta getUniqueFilename_def Let_def)

lemma parts_terminalInfo [simp]: "parts (terminalInfo cfg r t) = parts t"
  by (simp add: terminalInfo_def)

lemma cummulatedSize_terminalInfo [simp]: "cummulatedSize (terminalInfo cfg r t) = cummulatedSize t"
  by (simp add: terminalInfo_def)

lemma exceeds_accumulate:
  "exceeds cfg r m (accumulate r reg) \<longleftrightarrow>
     (\<exists>ts. x_total_size r = Some ts \<and> maxSize cfg m < ts)
     \<or> maxSize cfg m < receivedSize reg (x_clientid r) (x_transid r) + length (payload r)"
  by (auto simp: exceeds_def transmissionOf_accumulate receivedSize_def split: option.splits)

lemma fst_assemble_not_Incomplete: "fst (assemble cfg t w) \<noteq> Incomplete"
  by (simp add: assemble_def split: prod.splits sum.splits)

lemma fst_assemble_not_Quota: "fst (assemble cfg t w) \<noteq> QuotaExceeded"
  by (simp add: assemble_def split: prod.splits sum.splits)


section \<open>The output stream of the assembler\<close>

lemma handles_wstream_write [simp]: "handles (wstream_write p dat d) = handles d"
  by (simp add: wstream_write_def)

lemma handles_removeParts [simp]: "handles (removeParts t d) = handles d"
  by (simp add: removeParts_eq)

lemma handles_endPromise [simp]: "handles (endPromise p d) = remove1 p (handles d)"
  by (simp add: endPromise_def)

lemma files_removeParts [simp]: "files (removeParts t d) = files d"
  by (simp add: removeParts_eq)

lemma files_endPromise [simp]: "files (endPromise p d) = files d"
  by (simp add: endPromise_def)

lemma pending_wstream_write [simp]: "pending (wstream_write p dat d) = pending d"
  by (simp add: wstream_write_def)

lemma pending_endPromise [simp]: "pending (endPromise p d) = pending d"
  by (simp add: endPromise_def)

lemma pending_removeParts [simp]:
  "pending (removeParts t d) = pending d @ map snd (sorted_list_of_fmap (parts t))"
  by (simp add: removeParts_eq)

lemma files_wstream_write_other:
  "p \<noteq> out \<Longrightarrow> fmlookup (files (wstream_write out dat d)) p = fmlookup (files d) p"
  by (simp add: wstream_write_def)

lemma files_wstream_write_out:
  "fmlookup (files (wstream_write out dat d)) out
     = Some ((case fmlookup (files d) out of None \<Rightarrow> [] | Some c \<Rightarrow> c) @ dat)"
  by (simp add: wstream_write_def)

lemma chunkData_wstream_write:
  assumes "out |\<notin>| fmran (parts t)"
  shows "chunkData t (wstream_write out dat d) k = chunkData t d k"
proof (cases "fmlookup (parts t) k")
  case None
  then show ?thesis
    by (simp add: chunkData_def)
next
  case (Some p)
  then have "p |\<in>| fmran (parts t)"
    by (rule fmranI)
  with assms have "p \<noteq> out"
    by auto
  with Some show ?thesis
    by (simp add: chunkData_def files_wstream_write_other)
qed

lemma appendFileData_keeps_out:
  "out |\<in>| fmdom (files d) \<Longrightarrow> out |\<in>| fmdom (files (snd (appendFileData t out part d)))"
proof (induction t out part d rule: appendFileData.induct)
  case (1 t out part d)
  show ?case
  proof (cases "fmlookup (parts t) part")
    case None
    with "1.prems" show ?thesis
      by (simp add: appendFileData_undefined)
  next
    case (Some p)
    note p = this
    show ?thesis
    proof (cases "fmlookup (files d) p")
      case None
      with p "1.prems" show ?thesis
        by (simp add: appendFileData_missing)
    next
      case (Some dat)
      note dat = this
      have w: "out |\<in>| fmdom (files (wstream_write out dat d))"
        by (simp add: wstream_write_def)
      show ?thesis
      proof (cases "count t = Some part")
        case True
        with p dat w show ?thesis
          by (simp add: appendFileData_last)
      next
        case False
        then have ne: "Some part \<noteq> count t"
          by auto
        from "1.IH" [OF p dat refl ne w] False p dat show ?thesis
          by (simp add: appendFileData_next)
      qed
    qed
  qed
qed

text \<open>
  The loop from index \<open>part\<close> on.  No file but the output changes.  When the loop fails,
  the stream has not been ended and no removal has been started.  When it succeeds, the
  stream has been ended, every index from \<open>part\<close> to the count has a chunk file, which
  is still on the disk, the contents of these files have been appended to the output in
  ascending order of the index, and the removal of the chunk files has been started.
\<close>

lemma appendFileData_result:
  "appendFileData t out part d = (res, d') \<Longrightarrow>
     (\<forall>p. p \<noteq> out \<longrightarrow> fmlookup (files d') p = fmlookup (files d) p) \<and>
     (case res of
        Inl e \<Rightarrow> handles d' = handles d \<and> pending d' = pending d
      | Inr u \<Rightarrow>
          handles d' = remove1 out (handles d) \<and>
          pending d' = pending d @ map snd (sorted_list_of_fmap (parts t)) \<and>
          (\<exists>n. count t = Some n \<and> part \<le> n \<and>
               (\<forall>k. part \<le> k \<and> k \<le> n \<longrightarrow>
                    (\<exists>p. fmlookup (parts t) k = Some p \<and> p |\<in>| fmdom (files d'))) \<and>
               (out |\<notin>| fmran (parts t) \<longrightarrow>
                  fmlookup (files d') out
                    = Some ((case fmlookup (files d) out of None \<Rightarrow> [] | Some c \<Rightarrow> c)
                            @ concat (map (chunkData t d) [part..<Suc n])))))"
proof (induction t out part d arbitrary: res d' rule: appendFileData.induct)
  case (1 t out part d)
  show ?case
  proof (cases "fmlookup (parts t) part")
    case None
    with "1.prems" show ?thesis
      by (auto simp: appendFileData_undefined)
  next
    case (Some p)
    note p = this
    show ?thesis
    proof (cases "fmlookup (files d) p")
      case None
      with p "1.prems" show ?thesis
        by (auto simp: appendFileData_missing)
    next
      case (Some dat)
      note dat = this
      let ?old = "case fmlookup (files d) out of None \<Rightarrow> [] | Some c \<Rightarrow> c"
      let ?d1 = "wstream_write out dat d"
      have here: "p |\<in>| fmdom (files ?d1)"
        using dat by (cases "p = out") (auto simp: wstream_write_def dest: fmdomI)
      have data: "out |\<notin>| fmran (parts t) \<Longrightarrow> chunkData t d part = dat"
        using p dat by (simp add: chunkData_def)
      show ?thesis
      proof (cases "count t = Some part")
        case True
        with p dat "1.prems" have res: "res = Inr ()"
          and d': "d' = removeParts t (endPromise out ?d1)"
          by (simp_all add: appendFileData_last)
        have other: "\<forall>q. q \<noteq> out \<longrightarrow> fmlookup (files d') q = fmlookup (files d) q"
          by (simp add: d' files_wstream_write_other)
        have h: "handles d' = remove1 out (handles d)"
          by (simp add: d')
        have pe: "pending d' = pending d @ map snd (sorted_list_of_fmap (parts t))"
          by (simp add: d')
        have dom: "\<forall>k. part \<le> k \<and> k \<le> part \<longrightarrow>
            (\<exists>q. fmlookup (parts t) k = Some q \<and> q |\<in>| fmdom (files d'))"
          using p here by (auto simp: d')
        have content: "out |\<notin>| fmran (parts t) \<longrightarrow>
            fmlookup (files d') out = Some (?old @ concat (map (chunkData t d) [part..<Suc part]))"
          using data by (simp add: d' files_wstream_write_out)
        from other h pe dom content True res show ?thesis
          by simp
      next
        case False
        with p dat "1.prems"
        have rec: "appendFileData t out (part + 1) ?d1 = (res, d')"
          by (simp add: appendFileData_next)
        from False have ne: "Some part \<noteq> count t"
          by auto
        note IH = "1.IH" [OF p dat refl ne rec]
        from IH have other1: "\<forall>q. q \<noteq> out \<longrightarrow> fmlookup (files d') q = fmlookup (files ?d1) q"
          by simp
        then have other: "\<forall>q. q \<noteq> out \<longrightarrow> fmlookup (files d') q = fmlookup (files d) q"
          by (simp add: files_wstream_write_other)
        show ?thesis
        proof (cases res)
          case (Inl e)
          with IH other show ?thesis
            by simp
        next
          case (Inr u)
          with IH obtain n where n: "count t = Some n" "part + 1 \<le> n"
            and h: "handles d' = remove1 out (handles d)"
            and pe: "pending d' = pending d @ map snd (sorted_list_of_fmap (parts t))"
            and dom1: "\<forall>k. part + 1 \<le> k \<and> k \<le> n \<longrightarrow>
                (\<exists>q. fmlookup (parts t) k = Some q \<and> q |\<in>| fmdom (files d'))"
            and content1: "out |\<notin>| fmran (parts t) \<longrightarrow>
                fmlookup (files d') out
                  = Some ((case fmlookup (files ?d1) out of None \<Rightarrow> [] | Some c \<Rightarrow> c)
                          @ concat (map (chunkData t ?d1) [part + 1..<Suc n]))"
            by auto
          have "out |\<in>| fmdom (files ?d1)"
            by (simp add: wstream_write_def)
          from appendFileData_keeps_out [OF this, of t "part + 1"] rec
          have out_there: "out |\<in>| fmdom (files d')"
            by simp
          have here': "p |\<in>| fmdom (files d')"
          proof (cases "p = out")
            case True
            with out_there show ?thesis by simp
          next
            case False
            with other dat show ?thesis
              by (auto intro: fmdomI)
          qed
          with p dom1 have dom: "\<forall>k. part \<le> k \<and> k \<le> n \<longrightarrow>
              (\<exists>q. fmlookup (parts t) k = Some q \<and> q |\<in>| fmdom (files d'))"
            by (metis Suc_eq_plus1 Suc_leI le_neq_implies_less)
          have content: "out |\<notin>| fmran (parts t) \<longrightarrow>
              fmlookup (files d') out = Some (?old @ concat (map (chunkData t d) [part..<Suc n]))"
          proof
            assume nr: "out |\<notin>| fmran (parts t)"
            have cd: "chunkData t ?d1 = chunkData t d"
              by (intro ext) (rule chunkData_wstream_write [OF nr])
            have upt: "[part..<Suc n] = part # [part + 1..<Suc n]"
              using n by (simp add: upt_conv_Cons)
            from content1 nr have c1: "fmlookup (files d') out
                = Some ((?old @ dat) @ concat (map (chunkData t d) [part + 1..<Suc n]))"
              unfolding cd files_wstream_write_out by simp
            show "fmlookup (files d') out
                = Some (?old @ concat (map (chunkData t d) [part..<Suc n]))"
              unfolding upt c1 using data [OF nr] by simp
          qed
          from n have "part \<le> n"
            by simp
          with n(1) h pe dom content other Inr show ?thesis
            by simp
        qed
      qed
    qed
  qed
qed

text \<open>
  Claim C7, amended.  \<open>getFinalFile\<close> ends its write stream on the success path only,
  after every index from 1 to \<open>count\<close> has been read and appended, and before any chunk
  file is removed.  When it succeeds, the stream has been ended, every index from 1 to
  \<open>count\<close> has a chunk file, the output file holds the contents of these files in
  ascending order of the index (the output being none of the recorded chunk files), no
  other file has changed, so that every chunk file is still on the disk, and the removal
  of the recorded chunk files has been started.  When reading a chunk fails the stream
  is not ended: the output handle stays open, and no removal is started.
\<close>

theorem output_handle_closed_on_success_only:
  assumes "getFinalFile gen folder t d = (res, d')"
  shows "case res of
           Inl e \<Rightarrow>
             handles d' = fst (getUniqueFilename gen folder d) # handles d \<and>
             pending d' = pending d
         | Inr f \<Rightarrow>
             tmpBuildFilename f = fst (getUniqueFilename gen folder d) \<and>
             handles d' = handles d \<and>
             (\<exists>n. count t = Some n \<and> 1 \<le> n \<and>
                  (\<forall>k. 1 \<le> k \<and> k \<le> n \<longrightarrow>
                       (\<exists>p. fmlookup (parts t) k = Some p \<and> p |\<in>| fmdom (files d'))) \<and>
                  (tmpBuildFilename f |\<notin>| fmran (parts t) \<longrightarrow>
                     fmlookup (files d') (tmpBuildFilename f)
                       = Some (concat (map (chunkData t d) [1..<Suc n])))) \<and>
             (\<forall>p. p \<noteq> tmpBuildFilename f \<longrightarrow> fmlookup (files d') p = fmlookup (files d) p) \<and>
             pending d' = pending d @ map snd (sorted_list_of_fmap (parts t))"
proof -
  let ?out = "fst (getUniqueFilename gen folder d)"
  let ?d2 = "createWriteStream ?out (snd (getUniqueFilename gen folder d))"
  obtain r d3 where loop: "appendFileData t ?out 1 ?d2 = (r, d3)"
    by (cases "appendFileData t ?out 1 ?d2")
  have h2: "handles ?d2 = ?out # handles d"
    by (simp add: createWriteStream_def getUniqueFilename_disk)
  have p2: "pending ?d2 = pending d"
    by (simp add: createWriteStream_def getUniqueFilename_disk)
  have f2: "files ?d2 = fmupd ?out [] (files d)"
    by (simp add: createWriteStream_def getUniqueFilename_disk)
  have cd: "?out |\<notin>| fmran (parts t) \<Longrightarrow> chunkData t ?d2 = chunkData t d"
  proof (intro ext)
    fix k
    assume nr: "?out |\<notin>| fmran (parts t)"
    show "chunkData t ?d2 k = chunkData t d k"
    proof (cases "fmlookup (parts t) k")
      case None
      then show ?thesis
        by (simp add: chunkData_def)
    next
      case (Some p)
      then have "p |\<in>| fmran (parts t)"
        by (rule fmranI)
      with nr have "p \<noteq> ?out"
        by auto
      with Some show ?thesis
        by (simp add: chunkData_def f2)
    qed
  qed
  from assms loop have d': "d' = d3"
    and res: "res = (case r of Inl e \<Rightarrow> Inl e
                | Inr u \<Rightarrow> Inr \<lparr>originalFilename = filename t, tmpBuildFilename = ?out\<rparr>)"
    by (auto simp: getFinalFile_def split_beta Let_def split: sum.splits)
  note result = appendFileData_result [OF loop]
  show ?thesis
  proof (cases r)
    case (Inl e)
    with result res d' show ?thesis
      by (simp add: h2 p2)
  next
    case (Inr u)
    with result obtain n where n: "count t = Some n" "1 \<le> n"
      and h: "handles d3 = remove1 ?out (handles ?d2)"
      and pe: "pending d3 = pending ?d2 @ map snd (sorted_list_of_fmap (parts t))"
      and dom: "\<forall>k. 1 \<le> k \<and> k \<le> n \<longrightarrow>
          (\<exists>p. fmlookup (parts t) k = Some p \<and> p |\<in>| fmdom (files d3))"
      and content: "?out |\<notin>| fmran (parts t) \<longrightarrow>
          fmlookup (files d3) ?out
            = Some ((case fmlookup (files ?d2) ?out of None \<Rightarrow> [] | Some c \<Rightarrow> c)
                    @ concat (map (chunkData t ?d2) [1..<Suc n]))"
      and other: "\<forall>p. p \<noteq> ?out \<longrightarrow> fmlookup (files d3) p = fmlookup (files ?d2) p"
      by auto
    from content cd have content': "?out |\<notin>| fmran (parts t) \<longrightarrow>
        fmlookup (files d3) ?out = Some (concat (map (chunkData t d) [1..<Suc n]))"
      by (simp add: f2)
    from other have other': "\<forall>p. p \<noteq> ?out \<longrightarrow> fmlookup (files d3) p = fmlookup (files d) p"
      by (simp add: f2)
    from Inr res have res': "res = Inr \<lparr>originalFilename = filename t, tmpBuildFilename = ?out\<rparr>"
      by simp
    have "handles d3 = handles d"
      by (simp add: h h2)
    moreover have "pending d3 = pending d @ map snd (sorted_list_of_fmap (parts t))"
      by (simp add: pe p2)
    ultimately show ?thesis
      unfolding res' d' using n dom content' other' by simp
  qed
qed

lemma recieveFiles_one:
  "recieveFile cfg r1 m cb w = (o1, w1) \<Longrightarrow> recieveFiles cfg m cb [r1] w = ([o1], w1)"
  by simp

lemma recieveFiles_two:
  "recieveFile cfg r1 m cb w = (o1, w1) \<Longrightarrow> recieveFile cfg r2 m cb w1 = (o2, w2) \<Longrightarrow>
   recieveFiles cfg m cb [r1, r2] w = ([o1, o2], w2)"
  by simp

lemma recieveFiles_three:
  "recieveFile cfg r1 m cb w = (o1, w1) \<Longrightarrow> recieveFile cfg r2 m cb w1 = (o2, w2) \<Longrightarrow>
   recieveFile cfg r3 m cb w2 = (o3, w3) \<Longrightarrow>
   recieveFiles cfg m cb [r1, r2, r3] w = ([o1, o2, o3], w3)"
  by simp

lemma atRest_id: "pending (disk_of w) = [] \<Longrightarrow> atRest w = w"
  by (simp add: atRest_def settle_at_rest)

lemma FILE_TRANSMISSIONS_atRest [simp]: "FILE_TRANSMISSIONS (atRest w) = FILE_TRANSMISSIONS w"
  by (simp add: atRest_def)

lemma pending_atRest [simp]: "pending (disk_of (atRest w)) = []"
  by (simp add: atRest_def)

lemma recieveFile_not_Complete:
  assumes "processChunk cfg r m w = (out, w1)" and "\<forall>f. out \<noteq> Complete f"
    and "pending (disk_of w) = []" and "pending (disk_of w1) = []"
  shows "recieveFile cfg r m cb w = (out, w1)"
proof -
  from assms(2) have "replyAndCleanup cb r (out, w1) = (out, w1)"
    by (cases out) (simp_all add: replyAndCleanup_def)
  with assms(1,3,4) show ?thesis
    by (simp add: recieveFile_def atRest_id)
qed

lemma recieveFile_Complete_None:
  assumes "processChunk cfg r m w = (Complete f, w1)" and "pending (disk_of w) = []"
  shows "recieveFile cfg r m None w =
     (Complete f,
      atRest \<lparr>FILE_TRANSMISSIONS =
                 deleteTransmission (x_clientid r) (x_transid r) (FILE_TRANSMISSIONS w1),
               disk_of = removeFile (tmpBuildFilename f) (disk_of w1)\<rparr>)"
  using assms by (simp add: recieveFile_def atRest_id replyAndCleanup_def)

lemma exampleA_first:
  "recieveFile exampleConfig (chunk 2 ''bb'' None) (Some 3) None initial =
     (Incomplete,
      \<lparr>FILE_TRANSMISSIONS = fmupd ''ITSA_CL_ID-1'' (fmupd ''ITSA-FILETRANS-1''
          \<lparr>cummulatedSize = Suc (Suc 0), count = None, filename = None, data = None,
           parts = fmupd 2 ''/tmp/tmp-file-0'' fmempty\<rparr> fmempty) fmempty,
       disk_of = \<lparr>files = fmupd ''/tmp/tmp-file-0'' ''bb'' fmempty, handles = [],
                  tick = Suc 0, pending = []\<rparr>\<rparr>)"
  by (simp add: run_simps)

lemma exampleA_second:
  "processChunk exampleConfig (chunk 1 ''aa'' None) (Some 3)
      \<lparr>FILE_TRANSMISSIONS = fmupd ''ITSA_CL_ID-1'' (fmupd ''ITSA-FILETRANS-1''
          \<lparr>cummulatedSize = Suc (Suc 0), count = None, filename = None, data = None,
           parts = fmupd 2 ''/tmp/tmp-file-0'' fmempty\<rparr> fmempty) fmempty,
       disk_of = \<lparr>files = fmupd ''/tmp/tmp-file-0'' ''bb'' fmempty, handles = [],
                  tick = Suc 0, pending = []\<rparr>\<rparr> =
     (QuotaExceeded,
      \<lparr>FILE_TRANSMISSIONS = fmempty,
       disk_of = \<lparr>files = fmupd ''/tmp/tmp-file-0'' ''bb'' fmempty, handles = [],
                  tick = Suc 0, pending = []\<rparr>\<rparr>)"
  by (simp add: run_simps)

text \<open>
  Claim C2.  With a limit of 3 bytes, chunk 2 (2 bytes) is stored and chunk 1 (2 more
  bytes) exceeds the limit: the reply is the rejection and the table is emptied, but the
  file of chunk 2 is still on the disk, and no removal has been started.  The completion
  path starts the removal of the chunk files before it deletes the transmission; the
  abort path deletes the transmission only.
\<close>

theorem quota_abort_leaves_chunk_file:
  "fst (recieveFiles exampleConfig (Some 3) None [chunk 2 ''bb'' None, chunk 1 ''aa'' None] initial)
     = [Incomplete, QuotaExceeded] \<and>
   FILE_TRANSMISSIONS (snd (recieveFiles exampleConfig (Some 3) None
       [chunk 2 ''bb'' None, chunk 1 ''aa'' None] initial)) = fmempty \<and>
   fmlookup (files (disk_of (snd (recieveFiles exampleConfig (Some 3) None
       [chunk 2 ''bb'' None, chunk 1 ''aa'' None] initial)))) ''/tmp/tmp-file-0'' = Some ''bb'' \<and>
   pending (disk_of (snd (recieveFiles exampleConfig (Some 3) None
       [chunk 2 ''bb'' None, chunk 1 ''aa'' None] initial))) = []"
proof -
  have "recieveFile exampleConfig (chunk 1 ''aa'' None) (Some 3) None
      \<lparr>FILE_TRANSMISSIONS = fmupd ''ITSA_CL_ID-1'' (fmupd ''ITSA-FILETRANS-1''
          \<lparr>cummulatedSize = Suc (Suc 0), count = None, filename = None, data = None,
           parts = fmupd 2 ''/tmp/tmp-file-0'' fmempty\<rparr> fmempty) fmempty,
       disk_of = \<lparr>files = fmupd ''/tmp/tmp-file-0'' ''bb'' fmempty, handles = [],
                  tick = Suc 0, pending = []\<rparr>\<rparr> =
     (QuotaExceeded,
      \<lparr>FILE_TRANSMISSIONS = fmempty,
       disk_of = \<lparr>files = fmupd ''/tmp/tmp-file-0'' ''bb'' fmempty, handles = [],
                  tick = Suc 0, pending = []\<rparr>\<rparr>)"
    by (rule recieveFile_not_Complete [OF exampleA_second]) simp_all
  from recieveFiles_two [OF exampleA_first this] show ?thesis
    by (simp only: fst_conv snd_conv world.simps disk.simps fmupd_lookup if_True simp_thms)
qed



lemma exampleB_first:
  "recieveFile exampleConfig (chunk 4 ''dd'' None) None None initial =
     (Incomplete,
      \<lparr>FILE_TRANSMISSIONS = fmupd ''ITSA_CL_ID-1'' (fmupd ''ITSA-FILETRANS-1''
          \<lparr>cummulatedSize = Suc (Suc 0), count = None, filename = None, data = None,
           parts = fmupd 4 ''/tmp/tmp-file-0'' fmempty\<rparr> fmempty) fmempty,
       disk_of = \<lparr>files = fmupd ''/tmp/tmp-file-0'' ''dd'' fmempty, handles = [],
                  tick = Suc 0, pending = []\<rparr>\<rparr>)"
  by (simp add: run_simps)

lemma exampleB_second:
  "recieveFile exampleConfig (chunk 1 ''aa'' None) None None
      \<lparr>FILE_TRANSMISSIONS = fmupd ''ITSA_CL_ID-1'' (fmupd ''ITSA-FILETRANS-1''
          \<lparr>cummulatedSize = Suc (Suc 0), count = None, filename = None, data = None,
           parts = fmupd 4 ''/tmp/tmp-file-0'' fmempty\<rparr> fmempty) fmempty,
       disk_of = \<lparr>files = fmupd ''/tmp/tmp-file-0'' ''dd'' fmempty, handles = [],
                  tick = Suc 0, pending = []\<rparr>\<rparr> =
     (Incomplete,
      \<lparr>FILE_TRANSMISSIONS = fmupd ''ITSA_CL_ID-1'' (fmupd ''ITSA-FILETRANS-1''
          \<lparr>cummulatedSize = Suc (Suc (Suc (Suc 0))), count = None, filename = None, data = None,
           parts = fmupd (Suc 0) ''/tmp/tmp-file-1'' (fmupd 4 ''/tmp/tmp-file-0'' fmempty)\<rparr>
          fmempty) fmempty,
       disk_of = \<lparr>files = fmupd ''/tmp/tmp-file-1'' ''aa'' (fmupd ''/tmp/tmp-file-0'' ''dd'' fmempty),
                  handles = [], tick = Suc (Suc 0), pending = []\<rparr>\<rparr>)"
  by (simp add: run_simps)

lemma exampleB_build:
  "getFinalFile exampleNames ''/tmp/''
      \<lparr>cummulatedSize = Suc (Suc (Suc (Suc (Suc (Suc 0))))), count = Some 3,
       filename = Some ''photo.png'', data = Some [],
       parts = fmupd 3 ''/tmp/tmp-file-2''
                 (fmupd (Suc 0) ''/tmp/tmp-file-1'' (fmupd 4 ''/tmp/tmp-file-0'' fmempty))\<rparr>
      \<lparr>files = fmupd ''/tmp/tmp-file-2'' ''cc''
                 (fmupd ''/tmp/tmp-file-1'' ''aa'' (fmupd ''/tmp/tmp-file-0'' ''dd'' fmempty)),
       handles = [], tick = Suc (Suc (Suc 0)), pending = []\<rparr> =
     (Inl TypeError,
      \<lparr>files = fmupd ''/tmp/tmp-file-3'' ''aa'' (fmupd ''/tmp/tmp-file-2'' ''cc''
                 (fmupd ''/tmp/tmp-file-1'' ''aa'' (fmupd ''/tmp/tmp-file-0'' ''dd'' fmempty))),
       handles = [''/tmp/tmp-file-3''], tick = Suc (Suc (Suc (Suc 0))), pending = []\<rparr>)"
  by (simp add: build_simps)

lemma exampleB_third:
  "recieveFile exampleConfig (chunk 3 ''cc'' (Some ''photo.png'')) None None
      \<lparr>FILE_TRANSMISSIONS = fmupd ''ITSA_CL_ID-1'' (fmupd ''ITSA-FILETRANS-1''
          \<lparr>cummulatedSize = Suc (Suc (Suc (Suc 0))), count = None, filename = None, data = None,
           parts = fmupd (Suc 0) ''/tmp/tmp-file-1'' (fmupd 4 ''/tmp/tmp-file-0'' fmempty)\<rparr>
          fmempty) fmempty,
       disk_of = \<lparr>files = fmupd ''/tmp/tmp-file-1'' ''aa'' (fmupd ''/tmp/tmp-file-0'' ''dd'' fmempty),
                  handles = [], tick = Suc (Suc 0), pending = []\<rparr>\<rparr> =
     (Failed TypeError,
      \<lparr>FILE_TRANSMISSIONS = fmupd ''ITSA_CL_ID-1'' (fmupd ''ITSA-FILETRANS-1''
          \<lparr>cummulatedSize = Suc (Suc (Suc (Suc (Suc (Suc 0))))), count = Some 3,
           filename = Some ''photo.png'', data = Some [],
           parts = fmupd 3 ''/tmp/tmp-file-2''
                     (fmupd (Suc 0) ''/tmp/tmp-file-1'' (fmupd 4 ''/tmp/tmp-file-0'' fmempty))\<rparr>
          fmempty) fmempty,
       disk_of = \<lparr>files = fmupd ''/tmp/tmp-file-3'' ''aa'' (fmupd ''/tmp/tmp-file-2'' ''cc''
                    (fmupd ''/tmp/tmp-file-1'' ''aa'' (fmupd ''/tmp/tmp-file-0'' ''dd'' fmempty))),
                  handles = [''/tmp/tmp-file-3''], tick = Suc (Suc (Suc (Suc 0))), pending = []\<rparr>\<rparr>)"
  by (simp add: run_simps exampleB_build)

text \<open>
  Claim C7, as stated: the output handle is released on every exit path of the loop.
  Chunks 4, 1 and 3 arrive, chunk 3 carrying the file name: three parts are recorded and
  the count is 3, so the final file is built; index 1 is appended, reading index 2
  throws, and the write stream of the output is left open.
\<close>

theorem failed_read_leaves_handle_open:
  "fst (recieveFiles exampleConfig None None
          [chunk 4 ''dd'' None, chunk 1 ''aa'' None, chunk 3 ''cc'' (Some ''photo.png'')] initial)
     = [Incomplete, Incomplete, Failed TypeError] \<and>
   handles (disk_of (snd (recieveFiles exampleConfig None None
          [chunk 4 ''dd'' None, chunk 1 ''aa'' None, chunk 3 ''cc'' (Some ''photo.png'')] initial)))
     = [''/tmp/tmp-file-3'']"
  using recieveFiles_three [OF exampleB_first exampleB_second exampleB_third]
  by (simp only: fst_conv snd_conv world.simps disk.simps simp_thms)

lemma exampleD_first:
  "recieveFile exampleConfig (chunk 2 ''bb'' None) None None initial =
     (Incomplete,
      \<lparr>FILE_TRANSMISSIONS = fmupd ''ITSA_CL_ID-1'' (fmupd ''ITSA-FILETRANS-1''
          \<lparr>cummulatedSize = Suc (Suc 0), count = None, filename = None, data = None,
           parts = fmupd 2 ''/tmp/tmp-file-0'' fmempty\<rparr> fmempty) fmempty,
       disk_of = \<lparr>files = fmupd ''/tmp/tmp-file-0'' ''bb'' fmempty, handles = [],
                  tick = Suc 0, pending = []\<rparr>\<rparr>)"
  by (simp add: run_simps)

lemma exampleD_second:
  "recieveFile exampleConfig (chunk 1 ''aa'' None) None None
      \<lparr>FILE_TRANSMISSIONS = fmupd ''ITSA_CL_ID-1'' (fmupd ''ITSA-FILETRANS-1''
          \<lparr>cummulatedSize = Suc (Suc 0), count = None, filename = None, data = None,
           parts = fmupd 2 ''/tmp/tmp-file-0'' fmempty\<rparr> fmempty) fmempty,
       disk_of = \<lparr>files = fmupd ''/tmp/tmp-file-0'' ''bb'' fmempty, handles = [],
                  tick = Suc 0, pending = []\<rparr>\<rparr> =
     (Incomplete,
      \<lparr>FILE_TRANSMISSIONS = fmupd ''ITSA_CL_ID-1'' (fmupd ''ITSA-FILETRANS-1''
          \<lparr>cummulatedSize = Suc (Suc (Suc (Suc 0))), count = None, filename = None, data = None,
           parts = fmupd (Suc 0) ''/tmp/tmp-file-1'' (fmupd 2 ''/tmp/tmp-file-0'' fmempty)\<rparr>
          fmempty) fmempty,
       disk_of = \<lparr>files = fmupd ''/tmp/tmp-file-1'' ''aa'' (fmupd ''/tmp/tmp-file-0'' ''bb'' fmempty),
                  handles = [], tick = Suc (Suc 0), pending = []\<rparr>\<rparr>)"
  by (simp add: run_simps)

lemma exampleD_parts:
  "map snd (sorted_list_of_fmap
      (fmupd (3::nat) ''/tmp/tmp-file-2''
         (fmupd (Suc 0) ''/tmp/tmp-file-1'' (fmupd 2 ''/tmp/tmp-file-0'' fmempty))))
     = [''/tmp/tmp-file-1'', ''/tmp/tmp-file-0'', ''/tmp/tmp-file-2'']"
  by code_simp

lemma exampleD_build:
  "getFinalFile exampleNames ''/tmp/''
      \<lparr>cummulatedSize = Suc (Suc (Suc (Suc (Suc (Suc 0))))), count = Some 3,
       filename = Some ''photo.png'', data = Some [],
       parts = fmupd 3 ''/tmp/tmp-file-2''
                 (fmupd (Suc 0) ''/tmp/tmp-file-1'' (fmupd 2 ''/tmp/tmp-file-0'' fmempty))\<rparr>
      \<lparr>files = fmupd ''/tmp/tmp-file-2'' ''cc''
                 (fmupd ''/tmp/tmp-file-1'' ''aa'' (fmupd ''/tmp/tmp-file-0'' ''bb'' fmempty)),
       handles = [], tick = Suc (Suc (Suc 0)), pending = []\<rparr> =
     (Inr \<lparr>originalFilename = Some ''photo.png'', tmpBuildFilename = ''/tmp/tmp-file-3''\<rparr>,
      \<lparr>files = fmupd ''/tmp/tmp-file-3'' ''aabbcc'' (fmupd ''/tmp/tmp-file-2'' ''cc''
                 (fmupd ''/tmp/tmp-file-1'' ''aa'' (fmupd ''/tmp/tmp-file-0'' ''bb'' fmempty))),
       handles = [], tick = Suc (Suc (Suc (Suc 0))),
       pending = [''/tmp/tmp-file-1'', ''/tmp/tmp-file-0'', ''/tmp/tmp-file-2'']\<rparr>)"
  by (simp add: build_simps exampleD_parts)

lemma exampleD_third:
  "processChunk exampleConfig (chunk 3 ''cc'' (Some ''photo.png'')) None
      \<lparr>FILE_TRANSMISSIONS = fmupd ''ITSA_CL_ID-1'' (fmupd ''ITSA-FILETRANS-1''
          \<lparr>cummulatedSize = Suc (Suc (Suc (Suc 0))), count = None, filename = None, data = None,
           parts = fmupd (Suc 0) ''/tmp/tmp-file-1'' (fmupd 2 ''/tmp/tmp-file-0'' fmempty)\<rparr>
          fmempty) fmempty,
       disk_of = \<lparr>files = fmupd ''/tmp/tmp-file-1'' ''aa'' (fmupd ''/tmp/tmp-file-0'' ''bb'' fmempty),
                  handles = [], tick = Suc (Suc 0), pending = []\<rparr>\<rparr> =
     (Complete \<lparr>originalFilename = Some ''photo.png'', tmpBuildFilename = ''/tmp/tmp-file-3''\<rparr>,
      \<lparr>FILE_TRANSMISSIONS = fmupd ''ITSA_CL_ID-1'' (fmupd ''ITSA-FILETRANS-1''
          \<lparr>cummulatedSize = Suc (Suc (Suc (Suc (Suc (Suc 0))))), count = Some 3,
           filename = Some ''photo.png'', data = Some [],
           parts = fmupd 3 ''/tmp/tmp-file-2''
                     (fmupd (Suc 0) ''/tmp/tmp-file-1'' (fmupd 2 ''/tmp/tmp-file-0'' fmempty))\<rparr>
          fmempty) fmempty,
       disk_of = \<lparr>files = fmupd ''/tmp/tmp-file-3'' ''aabbcc'' (fmupd ''/tmp/tmp-file-2'' ''cc''
                    (fmupd ''/tmp/tmp-file-1'' ''aa'' (fmupd ''/tmp/tmp-file-0'' ''bb'' fmempty))),
                  handles = [], tick = Suc (Suc (Suc (Suc 0))),
                  pending = [''/tmp/tmp-file-1'', ''/tmp/tmp-file-0'', ''/tmp/tmp-file-2'']\<rparr>\<rparr>)"
  by (simp add: run_simps exampleD_build)

text \<open>
  Claim C7, amended: two instances.  For a transmission with the parts 1, 2, 3 the
  stream is ended, the output holds \<open>aabbcc\<close>, the three chunk files are still on the
  disk and their removal has been started.  For one with the parts 1, 3, 4 and the count
  3 the stream stays open and no removal is started.
\<close>

theorem output_handle_closed_on_success_only_witness:
  "(\<exists>f d'. getFinalFile exampleNames ''/tmp/''
      \<lparr>cummulatedSize = Suc (Suc (Suc (Suc (Suc (Suc 0))))), count = Some 3,
       filename = Some ''photo.png'', data = Some [],
       parts = fmupd 3 ''/tmp/tmp-file-2''
                 (fmupd (Suc 0) ''/tmp/tmp-file-1'' (fmupd 2 ''/tmp/tmp-file-0'' fmempty))\<rparr>
      \<lparr>files = fmupd ''/tmp/tmp-file-2'' ''cc''
                 (fmupd ''/tmp/tmp-file-1'' ''aa'' (fmupd ''/tmp/tmp-file-0'' ''bb'' fmempty)),
       handles = [], tick = Suc (Suc (Suc 0)), pending = []\<rparr> = (Inr f, d') \<and>
     tmpBuildFilename f = ''/tmp/tmp-file-3'' \<and>
     handles d' = [] \<and>
     fmlookup (files d') ''/tmp/tmp-file-3'' = Some ''aabbcc'' \<and>
     fmlookup (files d') ''/tmp/tmp-file-0'' = Some ''bb'' \<and>
     fmlookup (files d') ''/tmp/tmp-file-1'' = Some ''aa'' \<and>
     fmlookup (files d') ''/tmp/tmp-file-2'' = Some ''cc'' \<and>
     pending d' = [''/tmp/tmp-file-1'', ''/tmp/tmp-file-0'', ''/tmp/tmp-file-2'']) \<and>
   (\<exists>e d'. getFinalFile exampleNames ''/tmp/''
      \<lparr>cummulatedSize = Suc (Suc (Suc (Suc (Suc (Suc 0))))), count = Some 3,
       filename = Some ''photo.png'', data = Some [],
       parts = fmupd 3 ''/tmp/tmp-file-2''
                 (fmupd (Suc 0) ''/tmp/tmp-file-1'' (fmupd 4 ''/tmp/tmp-file-0'' fmempty))\<rparr>
      \<lparr>files = fmupd ''/tmp/tmp-file-2'' ''cc''
                 (fmupd ''/tmp/tmp-file-1'' ''aa'' (fmupd ''/tmp/tmp-file-0'' ''dd'' fmempty)),
       handles = [], tick = Suc (Suc (Suc 0)), pending = []\<rparr> = (Inl e, d') \<and>
     handles d' = [''/tmp/tmp-file-3''] \<and> pending d' = [])"
proof -
  let ?t = "\<lparr>cummulatedSize = Suc (Suc (Suc (Suc (Suc (Suc 0))))), count = Some 3,
       filename = Some ''photo.png'', data = Some [],
       parts = fmupd 3 ''/tmp/tmp-file-2''
                 (fmupd (Suc 0) ''/tmp/tmp-file-1'' (fmupd 2 ''/tmp/tmp-file-0'' fmempty))\<rparr>"
  let ?d = "\<lparr>files = fmupd ''/tmp/tmp-file-2'' ''cc''
                 (fmupd ''/tmp/tmp-file-1'' ''aa'' (fmupd ''/tmp/tmp-file-0'' ''bb'' fmempty)),
       handles = [], tick = Suc (Suc (Suc 0)), pending = []\<rparr>"
  let ?tB = "\<lparr>cummulatedSize = Suc (Suc (Suc (Suc (Suc (Suc 0))))), count = Some 3,
       filename = Some ''photo.png'', data = Some [],
       parts = fmupd 3 ''/tmp/tmp-file-2''
                 (fmupd (Suc 0) ''/tmp/tmp-file-1'' (fmupd 4 ''/tmp/tmp-file-0'' fmempty))\<rparr>"
  let ?dB = "\<lparr>files = fmupd ''/tmp/tmp-file-2'' ''cc''
                 (fmupd ''/tmp/tmp-file-1'' ''aa'' (fmupd ''/tmp/tmp-file-0'' ''dd'' fmempty)),
       handles = [], tick = Suc (Suc (Suc 0)), pending = []\<rparr>"
  have outB: "fst (getUniqueFilename exampleNames ''/tmp/'' ?dB) = ''/tmp/tmp-file-3''"
    by (simp add: getUniqueFilename_def nameReserved.simps fullFilename_def exampleNames_def
        show_nat.simps digit_def)
  have out: "fst (getUniqueFilename exampleNames ''/tmp/'' ?d) = ''/tmp/tmp-file-3''"
    by (simp add: getUniqueFilename_def nameReserved.simps fullFilename_def exampleNames_def
        show_nat.simps digit_def)
  have ran: "''/tmp/tmp-file-3'' |\<notin>| fmran (parts ?t)"
    by (simp add: fmran_fmupd fmdrop_fmupd)
  have data: "concat (map (chunkData ?t ?d) [1..<Suc 3]) = ''aabbcc''"
    by (simp add: chunkData_def upt_rec)
  note ok = output_handle_closed_on_success_only [OF exampleD_build]
  from ok have "handles (snd (getFinalFile exampleNames ''/tmp/'' ?t ?d)) = []"
    by (simp add: exampleD_build out)
  moreover from ok ran data
  have "fmlookup (files (snd (getFinalFile exampleNames ''/tmp/'' ?t ?d))) ''/tmp/tmp-file-3''
      = Some ''aabbcc''"
    by (simp add: exampleD_build out)
  moreover from ok
  have "fmlookup (files (snd (getFinalFile exampleNames ''/tmp/'' ?t ?d))) ''/tmp/tmp-file-0''
      = Some ''bb''"
    and "fmlookup (files (snd (getFinalFile exampleNames ''/tmp/'' ?t ?d))) ''/tmp/tmp-file-1''
      = Some ''aa''"
    and "fmlookup (files (snd (getFinalFile exampleNames ''/tmp/'' ?t ?d))) ''/tmp/tmp-file-2''
      = Some ''cc''"
    by (simp_all add: exampleD_build out)
  moreover from ok
  have "pending (snd (getFinalFile exampleNames ''/tmp/'' ?t ?d))
      = [''/tmp/tmp-file-1'', ''/tmp/tmp-file-0'', ''/tmp/tmp-file-2'']"
    by (simp add: exampleD_build out)
  moreover from output_handle_closed_on_success_only [OF exampleB_build]
  have "handles (snd (getFinalFile exampleNames ''/tmp/'' ?tB ?dB)) = [''/tmp/tmp-file-3'']"
    and "pending (snd (getFinalFile exampleNames ''/tmp/'' ?tB ?dB)) = []"
    by (simp_all add: exampleB_build outB)
  ultimately show ?thesis
    by (simp add: exampleD_build exampleB_build)
qed

section \<open>One arrival, step by step\<close>

lemma accumulate_arrived:
  "accumulate r reg = putTransmission (x_clientid r) (x_transid r) (arrived r reg) reg"
  by (simp add: accumulate_def arrived_def Let_def)

lemma transmissionOf_accumulate_same:
  "transmissionOf (accumulate r reg) (x_clientid r) (x_transid r) = Some (arrived r reg)"
  by (simp add: accumulate_arrived transmissionOf_putTransmission)

lemma cummulatedSize_arrived:
  "cummulatedSize (arrived r reg)
     = receivedSize reg (x_clientid r) (x_transid r) + length (payload r)"
  by (simp add: arrived_def receivedSize_def split: option.splits)

lemma storeChunk_stored:
  "storeChunk cfg r (w\<lparr>FILE_TRANSMISSIONS := accumulate r (FILE_TRANSMISSIONS w)\<rparr>)
     = (Inr (recorded cfg r w), stored cfg r w)"
  using storeChunk_Some [where w = "w\<lparr>FILE_TRANSMISSIONS := accumulate r (FILE_TRANSMISSIONS w)\<rparr>"
      and r = r and cfg = cfg, OF _ refl refl]
  by (simp add: transmissionOf_accumulate_same recorded_def stored_def chunkPath_def)

lemma processChunk_eq:
  "processChunk cfg r m w =
     (if exceeds cfg r m (accumulate r (FILE_TRANSMISSIONS w))
      then (QuotaExceeded, aborted r w)
      else buildIfComplete cfg (recorded cfg r w) (stored cfg r w))"
  by (simp add: processChunk_def Let_def storeChunk_stored aborted_def)

lemma fst_buildIfComplete_not_Quota: "fst (buildIfComplete cfg t w) \<noteq> QuotaExceeded"
  by (simp add: buildIfComplete_def fst_assemble_not_Quota)

lemma processChunk_Quota_iff:
  "fst (processChunk cfg r m w) = QuotaExceeded
     \<longleftrightarrow> exceeds cfg r m (accumulate r (FILE_TRANSMISSIONS w))"
  by (simp add: processChunk_eq fst_buildIfComplete_not_Quota)

lemma FILE_TRANSMISSIONS_assemble [simp]:
  "FILE_TRANSMISSIONS (snd (assemble cfg t w)) = FILE_TRANSMISSIONS w"
  by (simp add: assemble_def split: prod.splits sum.splits)

lemma FILE_TRANSMISSIONS_buildIfComplete [simp]:
  "FILE_TRANSMISSIONS (snd (buildIfComplete cfg t w)) = FILE_TRANSMISSIONS w"
  by (simp add: buildIfComplete_def)

lemma transmissionOf_stored:
  "transmissionOf (FILE_TRANSMISSIONS (stored cfg r w)) c t
     = (if c = x_clientid r \<and> t = x_transid r then Some (recorded cfg r w)
        else transmissionOf (FILE_TRANSMISSIONS w) c t)"
  by (simp add: stored_def transmissionOf_putTransmission transmissionOf_accumulate)

lemma chunkPath_fresh: "chunkPath cfg w |\<notin>| fmdom (files (disk_of w))"
  by (simp add: chunkPath_def getUniqueFilename_fresh)

lemma parts_recorded:
  "parts (recorded cfg r w)
     = fmupd (x_partial r) (chunkPath cfg w) (parts (arrived r (FILE_TRANSMISSIONS w)))"
  by (simp add: recorded_def)

lemma parts_arrived:
  "parts (arrived r reg)
     = (case transmissionOf reg (x_clientid r) (x_transid r) of
          None \<Rightarrow> fmempty | Some t0 \<Rightarrow> parts t0)"
  by (simp add: arrived_def split: option.splits)

lemma cummulatedSize_recorded:
  "cummulatedSize (recorded cfg r w)
     = receivedSize (FILE_TRANSMISSIONS w) (x_clientid r) (x_transid r) + length (payload r)"
  by (simp add: recorded_def cummulatedSize_arrived)

section \<open>The keys of a transmission\<close>

lemma keysTogether_arrived:
  assumes "consistent reg"
  shows "keysTogether (arrived r reg)"
proof (cases "transmissionOf reg (x_clientid r) (x_transid r)")
  case None
  then show ?thesis
    by (simp add: arrived_def keysTogether_def)
next
  case (Some t0)
  then obtain client where "fmlookup reg (x_clientid r) = Some client"
    and "fmlookup client (x_transid r) = Some t0"
    by (auto simp: transmissionOf_def split: option.splits)
  with assms have "keysTogether t0"
    by (auto simp: consistent_def)
  with Some show ?thesis
    by (auto simp: arrived_def keysTogether_def split: option.splits)
qed

lemma keysTogether_terminalInfo:
  "keysTogether t \<Longrightarrow> keysTogether (terminalInfo cfg r t)"
  by (auto simp: keysTogether_def terminalInfo_def truthy_def split: option.splits)

lemma keysTogether_parts:
  "keysTogether t \<Longrightarrow> keysTogether (t\<lparr>parts := ps\<rparr>)"
  by (simp add: keysTogether_def split: option.splits)

lemma keysTogether_recorded:
  "consistent (FILE_TRANSMISSIONS w) \<Longrightarrow> keysTogether (recorded cfg r w)"
  unfolding recorded_def
  by (intro keysTogether_terminalInfo keysTogether_parts keysTogether_arrived)

lemma allPartsProcessed_complete:
  assumes "keysTogether t" and "fmdom (parts t) \<noteq> {||}"
  shows "allPartsProcessed t \<longleftrightarrow> complete t"
proof (cases "count t")
  case None
  then show ?thesis
    by (simp add: allPartsProcessed_def complete_def)
next
  case (Some n)
  with assms(1) have "filename t \<noteq> None" "data t \<noteq> None"
    by (simp_all add: keysTogether_def)
  with Some have size: "size_t t = fcard (fmdom (parts t)) + 4"
    by (simp add: size_t_def)
  from assms(2) have "0 < fcard (fmdom (parts t))"
    by (metis fcard_0_eq neq0_conv)
  with Some size show ?thesis
    unfolding allPartsProcessed_def complete_def by auto
qed

lemma recorded_has_part: "fmdom (parts (recorded cfg r w)) \<noteq> {||}"
  by (simp add: parts_recorded)

text \<open>
  Claim C3.  For an arrival that the quota check lets pass, with the transmission as it
  is recorded after the arrival: the final file is built if and only if the count is
  known and the number of recorded parts equals it, and otherwise the reply is the
  incomplete one.  The decision looks at the count and the number of parts only, not at
  whether the chunk that has just arrived carries the file name.
\<close>

theorem completion_decided_by_count:
  assumes "consistent (FILE_TRANSMISSIONS w)"
    and "\<not> exceeds cfg r m (accumulate r (FILE_TRANSMISSIONS w))"
  shows "transmissionOf (FILE_TRANSMISSIONS (stored cfg r w)) (x_clientid r) (x_transid r)
           = Some (recorded cfg r w) \<and>
         processChunk cfg r m w =
           (if complete (recorded cfg r w)
            then assemble cfg (recorded cfg r w) (stored cfg r w)
            else (Incomplete, stored cfg r w)) \<and>
         (fst (processChunk cfg r m w) = Incomplete \<longleftrightarrow> \<not> complete (recorded cfg r w))"
proof -
  from assms(1) have "keysTogether (recorded cfg r w)"
    by (rule keysTogether_recorded)
  then have iff: "allPartsProcessed (recorded cfg r w) \<longleftrightarrow> complete (recorded cfg r w)"
    using recorded_has_part by (rule allPartsProcessed_complete)
  from assms(2) have eq: "processChunk cfg r m w =
      (if complete (recorded cfg r w)
       then assemble cfg (recorded cfg r w) (stored cfg r w)
       else (Incomplete, stored cfg r w))"
    by (simp add: processChunk_eq buildIfComplete_def iff)
  moreover have "transmissionOf (FILE_TRANSMISSIONS (stored cfg r w)) (x_clientid r) (x_transid r)
      = Some (recorded cfg r w)"
    by (simp add: transmissionOf_stored)
  moreover have "fst (processChunk cfg r m w) = Incomplete \<longleftrightarrow> \<not> complete (recorded cfg r w)"
    using fst_assemble_not_Incomplete [of cfg "recorded cfg r w" "stored cfg r w"]
    by (simp add: eq)
  ultimately show ?thesis
    by blast
qed

section \<open>The table stays consistent\<close>

lemma consistent_initial: "consistent (FILE_TRANSMISSIONS initial)"
  by (simp add: consistent_def initial_def)

lemma consistent_client:
  "consistent reg \<Longrightarrow>
   fmpred (\<lambda>transId t. keysTogether t)
     (case fmlookup reg c of None \<Rightarrow> fmempty | Some client \<Rightarrow> client)"
  by (auto simp: consistent_def split: option.splits)

lemma consistent_putTransmission:
  assumes "consistent reg" and "keysTogether t"
  shows "consistent (putTransmission c tid t reg)"
proof -
  let ?client = "case fmlookup reg c of None \<Rightarrow> fmempty | Some client \<Rightarrow> client"
  from assms(1) have "fmpred (\<lambda>transId t. keysTogether t) ?client"
    by (rule consistent_client)
  then have inner: "fmpred (\<lambda>transId t. keysTogether t) (fmupd tid t ?client)"
    using assms(2) by (rule fmpred_upd)
  from assms(1)
  have "fmpred (\<lambda>clientId client. fmpred (\<lambda>transId t. keysTogether t) client) reg"
    by (simp add: consistent_def)
  then show ?thesis
    unfolding consistent_def putTransmission_def using inner by (rule fmpred_upd)
qed

lemma consistent_deleteTransmission:
  assumes "consistent reg"
  shows "consistent (deleteTransmission c tid reg)"
proof (cases "fmlookup reg c")
  case None
  with assms show ?thesis
    by (simp add: deleteTransmission_def)
next
  case (Some client)
  with assms have "fmpred (\<lambda>transId t. keysTogether t) client"
    by (auto simp: consistent_def)
  then have "fmpred (\<lambda>transId t. keysTogether t) (fmdrop tid client)"
    by (rule fmpred_drop)
  with assms Some show ?thesis
    unfolding consistent_def deleteTransmission_def
    by (auto simp: Let_def)
qed

lemma consistent_accumulate: "consistent reg \<Longrightarrow> consistent (accumulate r reg)"
  unfolding accumulate_arrived
  by (intro consistent_putTransmission keysTogether_arrived)

lemma consistent_stored:
  "consistent (FILE_TRANSMISSIONS w) \<Longrightarrow> consistent (FILE_TRANSMISSIONS (stored cfg r w))"
  by (simp add: stored_def consistent_putTransmission consistent_accumulate
      keysTogether_recorded)

lemma consistent_processChunk:
  "consistent (FILE_TRANSMISSIONS w) \<Longrightarrow>
   consistent (FILE_TRANSMISSIONS (snd (processChunk cfg r m w)))"
  by (simp add: processChunk_eq aborted_def consistent_deleteTransmission
      consistent_accumulate consistent_stored)

lemma FILE_TRANSMISSIONS_replyAndCleanup:
  "FILE_TRANSMISSIONS (snd (replyAndCleanup cb r (out, w))) = FILE_TRANSMISSIONS w
   \<or> FILE_TRANSMISSIONS (snd (replyAndCleanup cb r (out, w)))
       = deleteTransmission (x_clientid r) (x_transid r) (FILE_TRANSMISSIONS w)"
  by (cases out) (auto simp: replyAndCleanup_def split_beta Let_def)

lemma consistent_recieveFile:
  assumes "consistent (FILE_TRANSMISSIONS w)"
  shows "consistent (FILE_TRANSMISSIONS (snd (recieveFile cfg r m cb w)))"
proof -
  from assms have c0: "consistent (FILE_TRANSMISSIONS (atRest w))"
    by simp
  obtain out w1 where p: "processChunk cfg r m (atRest w) = (out, w1)"
    by (cases "processChunk cfg r m (atRest w)")
  with consistent_processChunk [OF c0, of cfg r m]
  have "consistent (FILE_TRANSMISSIONS w1)"
    by simp
  with FILE_TRANSMISSIONS_replyAndCleanup [of cb r out w1] show ?thesis
    by (auto simp: recieveFile_def p split_beta consistent_deleteTransmission)
qed

lemma exampleE_first:
  "recieveFile exampleConfig (chunk 2 ''bb'' (Some ''photo.png'')) None None initial =
     (Incomplete,
      \<lparr>FILE_TRANSMISSIONS = fmupd ''ITSA_CL_ID-1'' (fmupd ''ITSA-FILETRANS-1''
          \<lparr>cummulatedSize = Suc (Suc 0), count = Some 2, filename = Some ''photo.png'',
           data = Some [], parts = fmupd 2 ''/tmp/tmp-file-0'' fmempty\<rparr> fmempty) fmempty,
       disk_of = \<lparr>files = fmupd ''/tmp/tmp-file-0'' ''bb'' fmempty, handles = [],
                  tick = Suc 0, pending = []\<rparr>\<rparr>)"
  by (simp add: run_simps)

text \<open>
  Claim C3: an instance.  Chunk 2, which carries the file name, has arrived first; the
  arrival of chunk 1 makes the number of parts equal to the count, and the final file is
  built although the chunk that arrived last is not the one with the file name.
\<close>

theorem completion_decided_by_count_witness:
  "consistent (FILE_TRANSMISSIONS
      (snd (recieveFile exampleConfig (chunk 2 ''bb'' (Some ''photo.png'')) None None initial))) \<and>
   \<not> exceeds exampleConfig (chunk 1 ''aa'' None) None
      (accumulate (chunk 1 ''aa'' None) (FILE_TRANSMISSIONS
        (snd (recieveFile exampleConfig (chunk 2 ''bb'' (Some ''photo.png'')) None None initial)))) \<and>
   complete (recorded exampleConfig (chunk 1 ''aa'' None)
      (snd (recieveFile exampleConfig (chunk 2 ''bb'' (Some ''photo.png'')) None None initial))) \<and>
   fst (processChunk exampleConfig (chunk 1 ''aa'' None) None
      (snd (recieveFile exampleConfig (chunk 2 ''bb'' (Some ''photo.png'')) None None initial)))
     \<noteq> Incomplete"
proof -
  let ?w = "snd (recieveFile exampleConfig (chunk 2 ''bb'' (Some ''photo.png'')) None None initial)"
  let ?r = "chunk 1 ''aa'' None"
  have c: "consistent (FILE_TRANSMISSIONS ?w)"
    by (intro consistent_recieveFile consistent_initial)
  have q: "\<not> exceeds exampleConfig ?r None (accumulate ?r (FILE_TRANSMISSIONS ?w))"
    unfolding exampleE_first by (simp add: run_simps)
  have k: "complete (recorded exampleConfig ?r ?w)"
    unfolding exampleE_first
    by (simp add: complete_def recorded_def arrived_def chunkPath_def run_simps)
  from completion_decided_by_count [OF c q] c q k show ?thesis
    by (simp add: fst_assemble_not_Incomplete)
qed

section \<open>The metadata of the last chunk\<close>

lemma accumulate_x_data [simp]: "accumulate (r\<lparr>x_data := v\<rparr>) reg = accumulate r reg"
  by (simp add: accumulate_def)

lemma exceeds_x_data [simp]: "exceeds cfg (r\<lparr>x_data := v\<rparr>) m reg = exceeds cfg r m reg"
  by (simp add: exceeds_def)

lemma arrived_x_data [simp]: "arrived (r\<lparr>x_data := v\<rparr>) reg = arrived r reg"
  by (simp add: arrived_def split: option.splits)

lemma aborted_x_data [simp]: "aborted (r\<lparr>x_data := v\<rparr>) w = aborted r w"
  by (simp add: aborted_def)

lemma recorded_parse_failure:
  assumes "x_data r = Some s" and "parseJSON cfg s = None"
  shows "recorded cfg (r\<lparr>x_data := None\<rparr>) w = recorded cfg r w"
  using assms by (simp add: recorded_def terminalInfo_def)

lemma stored_parse_failure:
  assumes "x_data r = Some s" and "parseJSON cfg s = None"
  shows "stored cfg (r\<lparr>x_data := None\<rparr>) w = stored cfg r w"
  using recorded_parse_failure [OF assms] by (simp add: stored_def)

text \<open>
  Claim C6.  When the chunk that carries the file name has an \<open>x-data\<close> header that
  \<open>JSON.parse\<close> rejects, the transmission is recorded with empty metadata, with the
  count and the file name of this chunk, and the arrival is processed exactly as the same
  chunk without the header: the chunk is not rejected, and when the quota check passes
  and the recorded transmission is complete the final file is built.
\<close>

theorem metadata_parse_failure_tolerated:
  assumes "truthy (x_filename r)" and "x_data r = Some s" and "parseJSON cfg s = None"
  shows "data (recorded cfg r w) = Some [] \<and>
         count (recorded cfg r w) = Some (x_partial r) \<and>
         filename (recorded cfg r w) = x_filename r \<and>
         processChunk cfg r m w = processChunk cfg (r\<lparr>x_data := None\<rparr>) m w \<and>
         (\<not> exceeds cfg r m (accumulate r (FILE_TRANSMISSIONS w)) \<longrightarrow>
            transmissionOf (FILE_TRANSMISSIONS (snd (processChunk cfg r m w)))
              (x_clientid r) (x_transid r) = Some (recorded cfg r w)) \<and>
         (consistent (FILE_TRANSMISSIONS w) \<and>
          \<not> exceeds cfg r m (accumulate r (FILE_TRANSMISSIONS w)) \<and>
          complete (recorded cfg r w) \<longrightarrow>
            processChunk cfg r m w = assemble cfg (recorded cfg r w) (stored cfg r w))"
proof (intro conjI impI)
  show "data (recorded cfg r w) = Some []"
    using assms by (simp add: recorded_def terminalInfo_def)
  show "count (recorded cfg r w) = Some (x_partial r)"
    using assms(1) by (simp add: recorded_def terminalInfo_def)
  show "filename (recorded cfg r w) = x_filename r"
    using assms(1) by (simp add: recorded_def terminalInfo_def)
  show "processChunk cfg r m w = processChunk cfg (r\<lparr>x_data := None\<rparr>) m w"
    by (simp add: processChunk_eq recorded_parse_failure [OF assms(2,3)]
        stored_parse_failure [OF assms(2,3)])
next
  assume "\<not> exceeds cfg r m (accumulate r (FILE_TRANSMISSIONS w))"
  then show "transmissionOf (FILE_TRANSMISSIONS (snd (processChunk cfg r m w)))
      (x_clientid r) (x_transid r) = Some (recorded cfg r w)"
    by (simp add: processChunk_eq transmissionOf_stored)
next
  assume a: "consistent (FILE_TRANSMISSIONS w) \<and>
      \<not> exceeds cfg r m (accumulate r (FILE_TRANSMISSIONS w)) \<and> complete (recorded cfg r w)"
  then have "keysTogether (recorded cfg r w)"
    by (simp add: keysTogether_recorded)
  then have "allPartsProcessed (recorded cfg r w) \<longleftrightarrow> complete (recorded cfg r w)"
    using recorded_has_part by (rule allPartsProcessed_complete)
  with a show "processChunk cfg r m w = assemble cfg (recorded cfg r w) (stored cfg r w)"
    by (simp add: processChunk_eq buildIfComplete_def)
qed

lemma exampleF_parts:
  "map snd (sorted_list_of_fmap (fmupd (Suc 0) ''/tmp/tmp-file-0'' fmempty)) = [''/tmp/tmp-file-0'']"
  by code_simp

lemma exampleF_build:
  "getFinalFile exampleNames ''/tmp/''
      \<lparr>cummulatedSize = Suc (Suc 0), count = Some (Suc 0),
       filename = Some ''photo.png'', data = Some [],
       parts = fmupd (Suc 0) ''/tmp/tmp-file-0'' fmempty\<rparr>
      \<lparr>files = fmupd ''/tmp/tmp-file-0'' ''aa'' fmempty, handles = [], tick = Suc 0, pending = []\<rparr> =
     (Inr \<lparr>originalFilename = Some ''photo.png'', tmpBuildFilename = ''/tmp/tmp-file-1''\<rparr>,
      \<lparr>files = fmupd ''/tmp/tmp-file-1'' ''aa'' (fmupd ''/tmp/tmp-file-0'' ''aa'' fmempty),
       handles = [], tick = Suc (Suc 0), pending = [''/tmp/tmp-file-0'']\<rparr>)"
  by (simp add: build_simps exampleF_parts)

lemma exampleF_only:
  "processChunk exampleConfig (chunk 1 ''aa'' (Some ''photo.png'')) None initial =
     (Complete \<lparr>originalFilename = Some ''photo.png'', tmpBuildFilename = ''/tmp/tmp-file-1''\<rparr>,
      \<lparr>FILE_TRANSMISSIONS = fmupd ''ITSA_CL_ID-1'' (fmupd ''ITSA-FILETRANS-1''
          \<lparr>cummulatedSize = Suc (Suc 0), count = Some (Suc 0), filename = Some ''photo.png'',
           data = Some [], parts = fmupd (Suc 0) ''/tmp/tmp-file-0'' fmempty\<rparr> fmempty) fmempty,
       disk_of = \<lparr>files = fmupd ''/tmp/tmp-file-1'' ''aa'' (fmupd ''/tmp/tmp-file-0'' ''aa'' fmempty),
                  handles = [], tick = Suc (Suc 0), pending = [''/tmp/tmp-file-0'']\<rparr>\<rparr>)"
  by (simp add: run_simps exampleF_build)

text \<open>
  Claim C6: an instance.  A transmission of one chunk whose \<open>x-data\<close> header is the
  string \<open>{bad\<close>: the metadata is empty and the transmission completes.
\<close>

theorem metadata_parse_failure_tolerated_witness:
  "truthy (x_filename ((chunk 1 ''aa'' (Some ''photo.png''))\<lparr>x_data := Some ''{bad''\<rparr>)) \<and>
   x_data ((chunk 1 ''aa'' (Some ''photo.png''))\<lparr>x_data := Some ''{bad''\<rparr>) = Some ''{bad'' \<and>
   parseJSON exampleConfig ''{bad'' = None \<and>
   data (recorded exampleConfig ((chunk 1 ''aa'' (Some ''photo.png''))\<lparr>x_data := Some ''{bad''\<rparr>)
          initial) = Some [] \<and>
   fst (processChunk exampleConfig
          ((chunk 1 ''aa'' (Some ''photo.png''))\<lparr>x_data := Some ''{bad''\<rparr>) None initial)
     = Complete \<lparr>originalFilename = Some ''photo.png'', tmpBuildFilename = ''/tmp/tmp-file-1''\<rparr>"
proof -
  let ?r = "(chunk 1 ''aa'' (Some ''photo.png''))\<lparr>x_data := Some ''{bad''\<rparr>"
  have a: "truthy (x_filename ?r)"
    by (simp add: chunk_def truthy_def)
  have b: "x_data ?r = Some ''{bad''"
    by simp
  have c: "parseJSON exampleConfig ''{bad'' = None"
    by (simp add: exampleConfig_def handleFile_def Let_def)
  have d: "?r\<lparr>x_data := None\<rparr> = chunk 1 ''aa'' (Some ''photo.png'')"
    by (simp add: chunk_def)
  from metadata_parse_failure_tolerated [OF a b c, of initial None] a b c show ?thesis
    by (simp only: d exampleF_only fst_conv simp_thms)
qed

section \<open>The cumulated size\<close>

lemma processChunk_recorded:
  assumes "processChunk cfg r m w = (out, w')" and "out \<noteq> QuotaExceeded"
  shows "transmissionOf (FILE_TRANSMISSIONS w') (x_clientid r) (x_transid r)
           = Some (recorded cfg r w)"
proof -
  from assms have "\<not> exceeds cfg r m (accumulate r (FILE_TRANSMISSIONS w))"
    by (auto simp: processChunk_eq split: if_splits)
  with assms(1) have "(out, w') = buildIfComplete cfg (recorded cfg r w) (stored cfg r w)"
    by (simp add: processChunk_eq)
  then have "FILE_TRANSMISSIONS w' = FILE_TRANSMISSIONS (stored cfg r w)"
    by (metis FILE_TRANSMISSIONS_buildIfComplete snd_conv)
  then show ?thesis
    by (simp add: transmissionOf_stored)
qed

lemma files_getFinalFile_other:
  assumes "p |\<in>| fmdom (files d)"
  shows "fmlookup (files (snd (getFinalFile gen folder t d))) p = fmlookup (files d) p"
proof -
  let ?out = "fst (getUniqueFilename gen folder d)"
  let ?d2 = "createWriteStream ?out (snd (getUniqueFilename gen folder d))"
  obtain r d3 where loop: "appendFileData t ?out 1 ?d2 = (r, d3)"
    by (cases "appendFileData t ?out 1 ?d2")
  have "?out |\<notin>| fmdom (files d)"
    by (rule getUniqueFilename_fresh)
  with assms have ne: "p \<noteq> ?out"
    by auto
  with appendFileData_result [OF loop]
  have "fmlookup (files d3) p = fmlookup (files ?d2) p"
    by simp
  also have "\<dots> = fmlookup (files d) p"
    using ne by (simp add: createWriteStream_def getUniqueFilename_disk)
  finally have "fmlookup (files d3) p = fmlookup (files d) p" .
  moreover from loop have "snd (getFinalFile gen folder t d) = d3"
    by (simp add: getFinalFile_def split_beta Let_def split: sum.splits)
  ultimately show ?thesis
    by simp
qed

lemma processChunk_written:
  assumes "processChunk cfg r m w = (out, w')" and "out \<noteq> QuotaExceeded"
  shows "fmlookup (files (disk_of w')) (chunkPath cfg w) = Some (payload r)"
proof -
  from assms have "\<not> exceeds cfg r m (accumulate r (FILE_TRANSMISSIONS w))"
    by (auto simp: processChunk_eq split: if_splits)
  with assms(1) have build: "(out, w') = buildIfComplete cfg (recorded cfg r w) (stored cfg r w)"
    by (simp add: processChunk_eq)
  have here: "fmlookup (files (disk_of (stored cfg r w))) (chunkPath cfg w) = Some (payload r)"
    by (simp add: stored_def)
  show ?thesis
  proof (cases "allPartsProcessed (recorded cfg r w)")
    case False
    with build have "w' = stored cfg r w"
      by (simp add: buildIfComplete_def)
    with here show ?thesis
      by simp
  next
    case True
    with build have "w' = snd (assemble cfg (recorded cfg r w) (stored cfg r w))"
      by (simp add: buildIfComplete_def) (metis snd_conv)
    then have "disk_of w' = snd (getFinalFile (idGenerator cfg) (TMP_DIR cfg)
        (recorded cfg r w) (disk_of (stored cfg r w)))"
      by (simp add: assemble_def split: prod.splits sum.splits)
    moreover from here have "chunkPath cfg w |\<in>| fmdom (files (disk_of (stored cfg r w)))"
      by (rule fmdomI)
    ultimately show ?thesis
      using here by (simp add: files_getFinalFile_other)
  qed
qed

lemma replyAndCleanup_keeps:
  assumes "replyAndCleanup cb r (out1, w1) = (out, w')" and "\<forall>f. out \<noteq> Complete f"
  shows "FILE_TRANSMISSIONS w' = FILE_TRANSMISSIONS w1 \<and> (out1 = QuotaExceeded \<longrightarrow> out = QuotaExceeded)"
  using assms
  by (cases out1) (auto simp: replyAndCleanup_def split_beta Let_def split: if_splits)

lemma recieveFile_receivedSize:
  assumes "recieveFile cfg r m cb w = (out, w')"
    and "out \<noteq> QuotaExceeded" and "\<forall>f. out \<noteq> Complete f"
  shows "receivedSize (FILE_TRANSMISSIONS w') (x_clientid r) (x_transid r)
           = receivedSize (FILE_TRANSMISSIONS w) (x_clientid r) (x_transid r)
             + length (payload r)"
proof -
  obtain out1 w1 where p: "processChunk cfg r m (atRest w) = (out1, w1)"
    by (cases "processChunk cfg r m (atRest w)")
  obtain out2 w2 where q: "replyAndCleanup cb r (out1, w1) = (out2, w2)"
    by (cases "replyAndCleanup cb r (out1, w1)")
  from assms(1) p q have "out = out2" and w': "w' = atRest w2"
    by (simp_all add: recieveFile_def)
  with q have "replyAndCleanup cb r (out1, w1) = (out, w2)"
    by simp
  from replyAndCleanup_keeps [OF this assms(3)] assms(2)
  have "FILE_TRANSMISSIONS w2 = FILE_TRANSMISSIONS w1" and "out1 \<noteq> QuotaExceeded"
    by auto
  with processChunk_recorded [OF p] w' show ?thesis
    by (simp add: receivedSize_def cummulatedSize_recorded)
qed

lemma recieveFiles_receivedSize:
  assumes "\<forall>r\<in>set rs. x_clientid r = c \<and> x_transid r = t"
    and "recieveFiles cfg m cb rs w = (outs, w')"
    and "\<forall>out\<in>set outs. out \<noteq> QuotaExceeded \<and> (\<forall>f. out \<noteq> Complete f)"
  shows "receivedSize (FILE_TRANSMISSIONS w') c t
           = receivedSize (FILE_TRANSMISSIONS w) c t + sum_list (map (\<lambda>r. length (payload r)) rs)"
  using assms
proof (induction rs arbitrary: w outs w')
  case Nil
  then show ?case by simp
next
  case (Cons r rs)
  obtain out1 w1 where s1: "recieveFile cfg r m cb w = (out1, w1)"
    by (cases "recieveFile cfg r m cb w")
  obtain outs2 w2 where s2: "recieveFiles cfg m cb rs w1 = (outs2, w2)"
    by (cases "recieveFiles cfg m cb rs w1")
  from Cons.prems(2) s1 s2 have eq: "outs = out1 # outs2" "w' = w2"
    by simp_all
  from Cons.prems(1) have ids: "x_clientid r = c" "x_transid r = t"
    and rest: "\<forall>r\<in>set rs. x_clientid r = c \<and> x_transid r = t"
    by simp_all
  from Cons.prems(3) eq have ok1: "out1 \<noteq> QuotaExceeded" "\<forall>f. out1 \<noteq> Complete f"
    and ok2: "\<forall>out\<in>set outs2. out \<noteq> QuotaExceeded \<and> (\<forall>f. out \<noteq> Complete f)"
    by simp_all
  from recieveFile_receivedSize [OF s1 ok1] ids
  have "receivedSize (FILE_TRANSMISSIONS w1) c t
      = receivedSize (FILE_TRANSMISSIONS w) c t + length (payload r)"
    by simp
  moreover from Cons.IH [OF rest s2 ok2]
  have "receivedSize (FILE_TRANSMISSIONS w2) c t
      = receivedSize (FILE_TRANSMISSIONS w1) c t + sum_list (map (\<lambda>r. length (payload r)) rs)" .
  ultimately show ?case
    using eq by simp
qed

text \<open>
  Claim C10, amended.  Chunks of one client and one transmission arrive one after the
  other, none of those before the last is rejected for the quota, and none of them
  completes the transmission (a completed transmission is deleted from the table, and a
  later arrival starts a new one).  Then the last arrival is rejected for the quota
  exactly when its declared total size, or the size the transmission had before the
  first arrival plus the lengths of the payloads of all the arrivals, exceeds the limit:
  a chunk number that arrives twice counts twice.  When the last arrival is not
  rejected, the cumulated size of the transmission is that sum, its chunk number is
  mapped to the file that was newly written for it, whatever path it was mapped to
  before, and the other chunk numbers are mapped as before.
\<close>

theorem cumulated_size_counts_every_arrival:
  assumes "\<forall>r\<in>set (rs @ [r']). x_clientid r = c \<and> x_transid r = t"
    and "recieveFiles cfg m cb rs w = (outs, w1)"
    and "\<forall>out\<in>set outs. out \<noteq> QuotaExceeded \<and> (\<forall>f. out \<noteq> Complete f)"
    and "processChunk cfg r' m w1 = (out', w')"
  shows "(out' = QuotaExceeded \<longleftrightarrow>
            (\<exists>ts. x_total_size r' = Some ts \<and> maxSize cfg m < ts) \<or>
            maxSize cfg m < receivedSize (FILE_TRANSMISSIONS w) c t
                            + sum_list (map (\<lambda>r. length (payload r)) (rs @ [r']))) \<and>
         (out' \<noteq> QuotaExceeded \<longrightarrow>
            (\<exists>t'. transmissionOf (FILE_TRANSMISSIONS w') c t = Some t' \<and>
                  cummulatedSize t'
                    = receivedSize (FILE_TRANSMISSIONS w) c t
                      + sum_list (map (\<lambda>r. length (payload r)) (rs @ [r'])) \<and>
                  chunkPath cfg w1 |\<notin>| fmdom (files (disk_of w1)) \<and>
                  fmlookup (files (disk_of w')) (chunkPath cfg w1) = Some (payload r') \<and>
                  fmlookup (parts t') (x_partial r') = Some (chunkPath cfg w1) \<and>
                  (\<forall>k. k \<noteq> x_partial r' \<longrightarrow>
                       fmlookup (parts t') k
                         = fmlookup (parts (view (FILE_TRANSMISSIONS w1) c t)) k)))"
proof -
  from assms(1) have ids: "x_clientid r' = c" "x_transid r' = t"
    and rest: "\<forall>r\<in>set rs. x_clientid r = c \<and> x_transid r = t"
    by simp_all
  from recieveFiles_receivedSize [OF rest assms(2,3)]
  have before: "receivedSize (FILE_TRANSMISSIONS w1) c t
      = receivedSize (FILE_TRANSMISSIONS w) c t + sum_list (map (\<lambda>r. length (payload r)) rs)" .
  from processChunk_Quota_iff [of cfg r' m w1] assms(4)
  have "out' = QuotaExceeded \<longleftrightarrow> exceeds cfg r' m (accumulate r' (FILE_TRANSMISSIONS w1))"
    by simp
  with before ids have quota: "out' = QuotaExceeded \<longleftrightarrow>
      (\<exists>ts. x_total_size r' = Some ts \<and> maxSize cfg m < ts) \<or>
      maxSize cfg m < receivedSize (FILE_TRANSMISSIONS w) c t
                      + sum_list (map (\<lambda>r. length (payload r)) (rs @ [r']))"
    by (simp add: exceeds_accumulate add.assoc)
  have stored: "out' \<noteq> QuotaExceeded \<longrightarrow>
      (\<exists>t'. transmissionOf (FILE_TRANSMISSIONS w') c t = Some t' \<and>
            cummulatedSize t'
              = receivedSize (FILE_TRANSMISSIONS w) c t
                + sum_list (map (\<lambda>r. length (payload r)) (rs @ [r'])) \<and>
            chunkPath cfg w1 |\<notin>| fmdom (files (disk_of w1)) \<and>
            fmlookup (files (disk_of w')) (chunkPath cfg w1) = Some (payload r') \<and>
            fmlookup (parts t') (x_partial r') = Some (chunkPath cfg w1) \<and>
            (\<forall>k. k \<noteq> x_partial r' \<longrightarrow>
                 fmlookup (parts t') k = fmlookup (parts (view (FILE_TRANSMISSIONS w1) c t)) k))"
  proof
    assume ok: "out' \<noteq> QuotaExceeded"
    from processChunk_recorded [OF assms(4) ok] ids
    have t': "transmissionOf (FILE_TRANSMISSIONS w') c t = Some (recorded cfg r' w1)"
      by simp
    have size: "cummulatedSize (recorded cfg r' w1)
        = receivedSize (FILE_TRANSMISSIONS w) c t
          + sum_list (map (\<lambda>r. length (payload r)) (rs @ [r']))"
      using ids before by (simp add: cummulatedSize_recorded)
    have old: "parts (arrived r' (FILE_TRANSMISSIONS w1))
        = parts (view (FILE_TRANSMISSIONS w1) c t)"
      using ids by (simp add: parts_arrived view_def split: option.splits)
    have new: "fmlookup (parts (recorded cfg r' w1)) (x_partial r') = Some (chunkPath cfg w1)"
      by (simp add: parts_recorded)
    have others: "\<forall>k. k \<noteq> x_partial r' \<longrightarrow>
        fmlookup (parts (recorded cfg r' w1)) k
          = fmlookup (parts (view (FILE_TRANSMISSIONS w1) c t)) k"
      by (simp add: parts_recorded old)
    have written: "fmlookup (files (disk_of w')) (chunkPath cfg w1) = Some (payload r')"
      by (rule processChunk_written [OF assms(4) ok])
    from t' size new others written chunkPath_fresh [of cfg w1] show "\<exists>t'.
        transmissionOf (FILE_TRANSMISSIONS w') c t = Some t' \<and>
        cummulatedSize t'
          = receivedSize (FILE_TRANSMISSIONS w) c t
            + sum_list (map (\<lambda>r. length (payload r)) (rs @ [r'])) \<and>
        chunkPath cfg w1 |\<notin>| fmdom (files (disk_of w1)) \<and>
        fmlookup (files (disk_of w')) (chunkPath cfg w1) = Some (payload r') \<and>
        fmlookup (parts t') (x_partial r') = Some (chunkPath cfg w1) \<and>
        (\<forall>k. k \<noteq> x_partial r' \<longrightarrow>
             fmlookup (parts t') k = fmlookup (parts (view (FILE_TRANSMISSIONS w1) c t)) k)"
      by blast
  qed
  from quota stored show ?thesis
    by (rule conjI)
qed

section \<open>A chunk that is sent twice\<close>

lemma exampleC_first:
  "recieveFile exampleConfig (chunk 1 ''aa'' None) None None initial =
     (Incomplete,
      \<lparr>FILE_TRANSMISSIONS = fmupd ''ITSA_CL_ID-1'' (fmupd ''ITSA-FILETRANS-1''
          \<lparr>cummulatedSize = Suc (Suc 0), count = None, filename = None, data = None,
           parts = fmupd (Suc 0) ''/tmp/tmp-file-0'' fmempty\<rparr> fmempty) fmempty,
       disk_of = \<lparr>files = fmupd ''/tmp/tmp-file-0'' ''aa'' fmempty, handles = [],
                  tick = Suc 0, pending = []\<rparr>\<rparr>)"
  by (simp add: run_simps)

lemma exampleC_second:
  "recieveFile exampleConfig (chunk 1 ''AA'' None) None None
      \<lparr>FILE_TRANSMISSIONS = fmupd ''ITSA_CL_ID-1'' (fmupd ''ITSA-FILETRANS-1''
          \<lparr>cummulatedSize = Suc (Suc 0), count = None, filename = None, data = None,
           parts = fmupd (Suc 0) ''/tmp/tmp-file-0'' fmempty\<rparr> fmempty) fmempty,
       disk_of = \<lparr>files = fmupd ''/tmp/tmp-file-0'' ''aa'' fmempty, handles = [],
                  tick = Suc 0, pending = []\<rparr>\<rparr> =
     (Incomplete,
      \<lparr>FILE_TRANSMISSIONS = fmupd ''ITSA_CL_ID-1'' (fmupd ''ITSA-FILETRANS-1''
          \<lparr>cummulatedSize = Suc (Suc (Suc (Suc 0))), count = None, filename = None, data = None,
           parts = fmupd (Suc 0) ''/tmp/tmp-file-1'' fmempty\<rparr> fmempty) fmempty,
       disk_of = \<lparr>files = fmupd ''/tmp/tmp-file-1'' ''AA'' (fmupd ''/tmp/tmp-file-0'' ''aa'' fmempty),
                  handles = [], tick = Suc (Suc 0), pending = []\<rparr>\<rparr>)"
  by (simp add: run_simps)

lemma exampleC_parts:
  "map snd (sorted_list_of_fmap
      (fmupd (2::nat) ''/tmp/tmp-file-2'' (fmupd (Suc 0) ''/tmp/tmp-file-1'' fmempty)))
     = [''/tmp/tmp-file-1'', ''/tmp/tmp-file-2'']"
  by code_simp

lemma exampleC_build:
  "getFinalFile exampleNames ''/tmp/''
      \<lparr>cummulatedSize = Suc (Suc (Suc (Suc (Suc (Suc 0))))), count = Some 2,
       filename = Some ''photo.png'', data = Some [],
       parts = fmupd 2 ''/tmp/tmp-file-2'' (fmupd (Suc 0) ''/tmp/tmp-file-1'' fmempty)\<rparr>
      \<lparr>files = fmupd ''/tmp/tmp-file-2'' ''bb''
                 (fmupd ''/tmp/tmp-file-1'' ''AA'' (fmupd ''/tmp/tmp-file-0'' ''aa'' fmempty)),
       handles = [], tick = Suc (Suc (Suc 0)), pending = []\<rparr> =
     (Inr \<lparr>originalFilename = Some ''photo.png'', tmpBuildFilename = ''/tmp/tmp-file-3''\<rparr>,
      \<lparr>files = fmupd ''/tmp/tmp-file-3'' ''AAbb'' (fmupd ''/tmp/tmp-file-2'' ''bb''
                 (fmupd ''/tmp/tmp-file-1'' ''AA'' (fmupd ''/tmp/tmp-file-0'' ''aa'' fmempty))),
       handles = [], tick = Suc (Suc (Suc (Suc 0))),
       pending = [''/tmp/tmp-file-1'', ''/tmp/tmp-file-2'']\<rparr>)"
  by (simp add: build_simps exampleC_parts)

lemma exampleC_third:
  "processChunk exampleConfig (chunk 2 ''bb'' (Some ''photo.png'')) None
      \<lparr>FILE_TRANSMISSIONS = fmupd ''ITSA_CL_ID-1'' (fmupd ''ITSA-FILETRANS-1''
          \<lparr>cummulatedSize = Suc (Suc (Suc (Suc 0))), count = None, filename = None, data = None,
           parts = fmupd (Suc 0) ''/tmp/tmp-file-1'' fmempty\<rparr> fmempty) fmempty,
       disk_of = \<lparr>files = fmupd ''/tmp/tmp-file-1'' ''AA'' (fmupd ''/tmp/tmp-file-0'' ''aa'' fmempty),
                  handles = [], tick = Suc (Suc 0), pending = []\<rparr>\<rparr> =
     (Complete \<lparr>originalFilename = Some ''photo.png'', tmpBuildFilename = ''/tmp/tmp-file-3''\<rparr>,
      \<lparr>FILE_TRANSMISSIONS = fmupd ''ITSA_CL_ID-1'' (fmupd ''ITSA-FILETRANS-1''
          \<lparr>cummulatedSize = Suc (Suc (Suc (Suc (Suc (Suc 0))))), count = Some 2,
           filename = Some ''photo.png'', data = Some [],
           parts = fmupd 2 ''/tmp/tmp-file-2'' (fmupd (Suc 0) ''/tmp/tmp-file-1'' fmempty)\<rparr>
          fmempty) fmempty,
       disk_of = \<lparr>files = fmupd ''/tmp/tmp-file-3'' ''AAbb'' (fmupd ''/tmp/tmp-file-2'' ''bb''
                    (fmupd ''/tmp/tmp-file-1'' ''AA'' (fmupd ''/tmp/tmp-file-0'' ''aa'' fmempty))),
                  handles = [], tick = Suc (Suc (Suc (Suc 0))),
                  pending = [''/tmp/tmp-file-1'', ''/tmp/tmp-file-2'']\<rparr>\<rparr>)"
  by (simp add: run_simps exampleC_build)

lemma exampleC_third_reply:
  "recieveFile exampleConfig (chunk 2 ''bb'' (Some ''photo.png'')) None None
      \<lparr>FILE_TRANSMISSIONS = fmupd ''ITSA_CL_ID-1'' (fmupd ''ITSA-FILETRANS-1''
          \<lparr>cummulatedSize = Suc (Suc (Suc (Suc 0))), count = None, filename = None, data = None,
           parts = fmupd (Suc 0) ''/tmp/tmp-file-1'' fmempty\<rparr> fmempty) fmempty,
       disk_of = \<lparr>files = fmupd ''/tmp/tmp-file-1'' ''AA'' (fmupd ''/tmp/tmp-file-0'' ''aa'' fmempty),
                  handles = [], tick = Suc (Suc 0), pending = []\<rparr>\<rparr> =
     (Complete \<lparr>originalFilename = Some ''photo.png'', tmpBuildFilename = ''/tmp/tmp-file-3''\<rparr>,
      \<lparr>FILE_TRANSMISSIONS = fmempty,
       disk_of = \<lparr>files = fmupd ''/tmp/tmp-file-0'' ''aa'' fmempty,
                  handles = [], tick = Suc (Suc (Suc (Suc 0))), pending = []\<rparr>\<rparr>)"
proof -
  have "pending (disk_of
      \<lparr>FILE_TRANSMISSIONS = fmupd ''ITSA_CL_ID-1'' (fmupd ''ITSA-FILETRANS-1''
          \<lparr>cummulatedSize = Suc (Suc (Suc (Suc 0))), count = None, filename = None, data = None,
           parts = fmupd (Suc 0) ''/tmp/tmp-file-1'' fmempty\<rparr> fmempty) fmempty,
       disk_of = \<lparr>files = fmupd ''/tmp/tmp-file-1'' ''AA'' (fmupd ''/tmp/tmp-file-0'' ''aa'' fmempty),
                  handles = [], tick = Suc (Suc 0), pending = []\<rparr>\<rparr>) = []"
    by simp
  note run = recieveFile_Complete_None [OF exampleC_third this]
  show ?thesis
    unfolding run
    by (simp add: atRest_def settle_def removeFile_eq deleteTransmission_def chunk_def
        fmdrop_fmupd)
qed

lemma exampleG_first:
  "recieveFile exampleConfig (chunk 1 ''aa'' None) (Some 3) None initial =
     (Incomplete,
      \<lparr>FILE_TRANSMISSIONS = fmupd ''ITSA_CL_ID-1'' (fmupd ''ITSA-FILETRANS-1''
          \<lparr>cummulatedSize = Suc (Suc 0), count = None, filename = None, data = None,
           parts = fmupd (Suc 0) ''/tmp/tmp-file-0'' fmempty\<rparr> fmempty) fmempty,
       disk_of = \<lparr>files = fmupd ''/tmp/tmp-file-0'' ''aa'' fmempty, handles = [],
                  tick = Suc 0, pending = []\<rparr>\<rparr>)"
  by (simp add: run_simps)

text \<open>
  Claim C10, amended: two instances.  Chunk 1 arrives twice (2 bytes each time), then
  chunk 2 (2 bytes, with the file name): the cumulated size is 6, chunk 1 is mapped to
  the file of its second arrival and chunk 2 to the file newly written for it.  And with
  a limit of 3 bytes, the second arrival of chunk 1 is rejected: 2 + 2 exceeds 3.
\<close>

theorem cumulated_size_counts_every_arrival_witness:
  "fst (recieveFiles exampleConfig None None [chunk 1 ''aa'' None, chunk 1 ''AA'' None] initial)
     = [Incomplete, Incomplete] \<and>
   fst (processChunk exampleConfig (chunk 2 ''bb'' (Some ''photo.png'')) None
          (snd (recieveFiles exampleConfig None None
                  [chunk 1 ''aa'' None, chunk 1 ''AA'' None] initial))) \<noteq> QuotaExceeded \<and>
   (\<exists>t'. transmissionOf (FILE_TRANSMISSIONS
             (snd (processChunk exampleConfig (chunk 2 ''bb'' (Some ''photo.png'')) None
                (snd (recieveFiles exampleConfig None None
                        [chunk 1 ''aa'' None, chunk 1 ''AA'' None] initial)))))
           ''ITSA_CL_ID-1'' ''ITSA-FILETRANS-1'' = Some t' \<and>
         cummulatedSize t' = 6 \<and>
         fmlookup (parts t') 1 = Some ''/tmp/tmp-file-1'' \<and>
         fmlookup (parts t') 2 = Some ''/tmp/tmp-file-2'') \<and>
   fst (recieveFiles exampleConfig (Some 3) None [chunk 1 ''aa'' None] initial) = [Incomplete] \<and>
   fst (processChunk exampleConfig (chunk 1 ''AA'' None) (Some 3)
          (snd (recieveFiles exampleConfig (Some 3) None [chunk 1 ''aa'' None] initial)))
     = QuotaExceeded"
proof -
  note run = recieveFiles_two [OF exampleC_first exampleC_second]
  let ?w1 = "\<lparr>FILE_TRANSMISSIONS = fmupd ''ITSA_CL_ID-1'' (fmupd ''ITSA-FILETRANS-1''
          \<lparr>cummulatedSize = Suc (Suc (Suc (Suc 0))), count = None, filename = None, data = None,
           parts = fmupd (Suc 0) ''/tmp/tmp-file-1'' fmempty\<rparr> fmempty) fmempty,
       disk_of = \<lparr>files = fmupd ''/tmp/tmp-file-1'' ''AA'' (fmupd ''/tmp/tmp-file-0'' ''aa'' fmempty),
                  handles = [], tick = Suc (Suc 0), pending = []\<rparr>\<rparr>"
  let ?w' = "\<lparr>FILE_TRANSMISSIONS = fmupd ''ITSA_CL_ID-1'' (fmupd ''ITSA-FILETRANS-1''
          \<lparr>cummulatedSize = Suc (Suc (Suc (Suc (Suc (Suc 0))))), count = Some 2,
           filename = Some ''photo.png'', data = Some [],
           parts = fmupd 2 ''/tmp/tmp-file-2'' (fmupd (Suc 0) ''/tmp/tmp-file-1'' fmempty)\<rparr>
          fmempty) fmempty,
       disk_of = \<lparr>files = fmupd ''/tmp/tmp-file-3'' ''AAbb'' (fmupd ''/tmp/tmp-file-2'' ''bb''
                    (fmupd ''/tmp/tmp-file-1'' ''AA'' (fmupd ''/tmp/tmp-file-0'' ''aa'' fmempty))),
                  handles = [], tick = Suc (Suc (Suc (Suc 0))),
                  pending = [''/tmp/tmp-file-1'', ''/tmp/tmp-file-2'']\<rparr>\<rparr>"
  have ids: "\<forall>r\<in>set ([chunk 1 ''aa'' None, chunk 1 ''AA'' None]
        @ [chunk 2 ''bb'' (Some ''photo.png'')]).
      x_clientid r = ''ITSA_CL_ID-1'' \<and> x_transid r = ''ITSA-FILETRANS-1''"
    by (simp add: chunk_def)
  have outs: "\<forall>out\<in>set [Incomplete, Incomplete].
      out \<noteq> QuotaExceeded \<and> (\<forall>f. out \<noteq> Complete f)"
    by simp
  have last: "Complete \<lparr>originalFilename = Some ''photo.png'',
      tmpBuildFilename = ''/tmp/tmp-file-3''\<rparr> \<noteq> QuotaExceeded"
    by simp
  have zero: "receivedSize (FILE_TRANSMISSIONS initial) ''ITSA_CL_ID-1'' ''ITSA-FILETRANS-1'' = 0"
    by (simp add: receivedSize_def transmissionOf_def initial_def)
  have path: "chunkPath exampleConfig ?w1 = ''/tmp/tmp-file-2''"
    by (simp add: chunkPath_def run_simps)
  have before: "parts (view (FILE_TRANSMISSIONS ?w1) ''ITSA_CL_ID-1'' ''ITSA-FILETRANS-1'')
      = fmupd (Suc 0) ''/tmp/tmp-file-1'' fmempty"
    by (simp add: view_def transmissionOf_def)
  from cumulated_size_counts_every_arrival [OF ids run outs exampleC_third,
      THEN conjunct2, THEN mp, OF last]
  obtain t' where t': "transmissionOf (FILE_TRANSMISSIONS ?w')
      ''ITSA_CL_ID-1'' ''ITSA-FILETRANS-1'' = Some t'"
    and size: "cummulatedSize t' = 6"
    and new: "fmlookup (parts t') (x_partial (chunk 2 ''bb'' (Some ''photo.png'')))
      = Some (chunkPath exampleConfig ?w1)"
    and old: "\<forall>k. k \<noteq> x_partial (chunk 2 ''bb'' (Some ''photo.png'')) \<longrightarrow>
      fmlookup (parts t') k
        = fmlookup (parts (view (FILE_TRANSMISSIONS ?w1) ''ITSA_CL_ID-1'' ''ITSA-FILETRANS-1'')) k"
    by (auto simp: zero chunk_def)
  from new have two: "fmlookup (parts t') 2 = Some ''/tmp/tmp-file-2''"
    by (simp add: path chunk_def)
  from old have one: "fmlookup (parts t') 1 = Some ''/tmp/tmp-file-1''"
    unfolding before by (simp add: chunk_def)
  have first: "fst (recieveFiles exampleConfig None None
      [chunk 1 ''aa'' None, chunk 1 ''AA'' None] initial) = [Incomplete, Incomplete]"
    unfolding run by simp
  have ok: "fst (processChunk exampleConfig (chunk 2 ''bb'' (Some ''photo.png'')) None
      (snd (recieveFiles exampleConfig None None
          [chunk 1 ''aa'' None, chunk 1 ''AA'' None] initial))) \<noteq> QuotaExceeded"
    unfolding run snd_conv exampleC_third by simp
  have found: "\<exists>t'. transmissionOf (FILE_TRANSMISSIONS
      (snd (processChunk exampleConfig (chunk 2 ''bb'' (Some ''photo.png'')) None
          (snd (recieveFiles exampleConfig None None
              [chunk 1 ''aa'' None, chunk 1 ''AA'' None] initial)))))
      ''ITSA_CL_ID-1'' ''ITSA-FILETRANS-1'' = Some t' \<and>
      cummulatedSize t' = 6 \<and>
      fmlookup (parts t') 1 = Some ''/tmp/tmp-file-1'' \<and>
      fmlookup (parts t') 2 = Some ''/tmp/tmp-file-2''"
    unfolding run snd_conv exampleC_third using t' size one two by blast
  have run3: "recieveFiles exampleConfig (Some 3) None [chunk 1 ''aa'' None] initial
      = ([Incomplete],
         \<lparr>FILE_TRANSMISSIONS = fmupd ''ITSA_CL_ID-1'' (fmupd ''ITSA-FILETRANS-1''
            \<lparr>cummulatedSize = Suc (Suc 0), count = None, filename = None, data = None,
             parts = fmupd (Suc 0) ''/tmp/tmp-file-0'' fmempty\<rparr> fmempty) fmempty,
          disk_of = \<lparr>files = fmupd ''/tmp/tmp-file-0'' ''aa'' fmempty, handles = [],
                     tick = Suc 0, pending = []\<rparr>\<rparr>)"
    by (rule recieveFiles_one [OF exampleG_first])
  have ids3: "\<forall>r\<in>set ([chunk 1 ''aa'' None] @ [chunk 1 ''AA'' None]).
      x_clientid r = ''ITSA_CL_ID-1'' \<and> x_transid r = ''ITSA-FILETRANS-1''"
    by (simp add: chunk_def)
  have outs3: "\<forall>out\<in>set [Incomplete]. out \<noteq> QuotaExceeded \<and> (\<forall>f. out \<noteq> Complete f)"
    by simp
  have over: "maxSize exampleConfig (Some 3)
      < receivedSize (FILE_TRANSMISSIONS initial) ''ITSA_CL_ID-1'' ''ITSA-FILETRANS-1''
        + sum_list (map (\<lambda>r. length (payload r)) ([chunk 1 ''aa'' None] @ [chunk 1 ''AA'' None]))"
    by (simp add: zero maxSize_def chunk_def)
  have pair: "processChunk exampleConfig (chunk 1 ''AA'' None) (Some 3)
        (snd (recieveFiles exampleConfig (Some 3) None [chunk 1 ''aa'' None] initial))
      = (fst (processChunk exampleConfig (chunk 1 ''AA'' None) (Some 3)
            (snd (recieveFiles exampleConfig (Some 3) None [chunk 1 ''aa'' None] initial))),
         snd (processChunk exampleConfig (chunk 1 ''AA'' None) (Some 3)
            (snd (recieveFiles exampleConfig (Some 3) None [chunk 1 ''aa'' None] initial))))"
    by simp
  have whole: "recieveFiles exampleConfig (Some 3) None [chunk 1 ''aa'' None] initial
      = ([Incomplete], snd (recieveFiles exampleConfig (Some 3) None [chunk 1 ''aa'' None] initial))"
    unfolding run3 by simp
  from cumulated_size_counts_every_arrival [OF ids3 whole outs3 pair, THEN conjunct1] over
  have rejected: "fst (processChunk exampleConfig (chunk 1 ''AA'' None) (Some 3)
      (snd (recieveFiles exampleConfig (Some 3) None [chunk 1 ''aa'' None] initial)))
      = QuotaExceeded"
    by blast
  have first3: "fst (recieveFiles exampleConfig (Some 3) None [chunk 1 ''aa'' None] initial)
      = [Incomplete]"
    unfolding run3 by simp
  from first ok found first3 rejected show ?thesis
    by (intro conjI)
qed

lemma exampleF_reply:
  "recieveFile exampleConfig (chunk 1 ''aa'' (Some ''photo.png'')) None None initial =
     (Complete \<lparr>originalFilename = Some ''photo.png'', tmpBuildFilename = ''/tmp/tmp-file-1''\<rparr>,
      \<lparr>FILE_TRANSMISSIONS = fmempty,
       disk_of = \<lparr>files = fmempty, handles = [], tick = Suc (Suc 0), pending = []\<rparr>\<rparr>)"
proof -
  have "pending (disk_of initial) = []"
    by (simp add: initial_def)
  note run = recieveFile_Complete_None [OF exampleF_only this]
  show ?thesis
    unfolding run
    by (simp add: atRest_def settle_def removeFile_eq deleteTransmission_def chunk_def
        fmdrop_fmupd)
qed

lemma exampleF_next:
  "recieveFile exampleConfig (chunk 2 ''b'' None) None None
      \<lparr>FILE_TRANSMISSIONS = fmempty,
       disk_of = \<lparr>files = fmempty, handles = [], tick = Suc (Suc 0), pending = []\<rparr>\<rparr> =
     (Incomplete,
      \<lparr>FILE_TRANSMISSIONS = fmupd ''ITSA_CL_ID-1'' (fmupd ''ITSA-FILETRANS-1''
          \<lparr>cummulatedSize = Suc 0, count = None, filename = None, data = None,
           parts = fmupd 2 ''/tmp/tmp-file-2'' fmempty\<rparr> fmempty) fmempty,
       disk_of = \<lparr>files = fmupd ''/tmp/tmp-file-2'' ''b'' fmempty, handles = [],
                  tick = Suc (Suc (Suc 0)), pending = []\<rparr>\<rparr>)"
  by (simp add: run_simps)

text \<open>
  Claim C10, as stated: for every sequence of arrivals of one transmission without a
  quota abort the cumulated size is the sum of the lengths of all the payloads.  It is
  not when an arrival completes the transmission: chunk 1 (2 bytes) arrives with the file
  name, the transmission is complete, assembled and deleted from the table; chunk 2
  (1 byte) of the same client and transmission then starts a new transmission, and the
  cumulated size is 1, not 3.  No arrival is rejected for the quota.
\<close>

theorem completed_transmission_starts_anew:
  "fst (recieveFiles exampleConfig None None
          [chunk 1 ''aa'' (Some ''photo.png''), chunk 2 ''b'' None] initial)
     = [Complete \<lparr>originalFilename = Some ''photo.png'', tmpBuildFilename = ''/tmp/tmp-file-1''\<rparr>,
        Incomplete] \<and>
   receivedSize (FILE_TRANSMISSIONS (snd (recieveFiles exampleConfig None None
          [chunk 1 ''aa'' (Some ''photo.png''), chunk 2 ''b'' None] initial)))
     ''ITSA_CL_ID-1'' ''ITSA-FILETRANS-1'' = 1 \<and>
   sum_list (map (\<lambda>r. length (payload r))
          [chunk 1 ''aa'' (Some ''photo.png''), chunk 2 ''b'' None]) = 3"
  unfolding recieveFiles_two [OF exampleF_reply exampleF_next]
  by (simp add: receivedSize_def transmissionOf_def chunk_def)

text \<open>
  Claim C5.  After the assembly no chunk file of the transmission should remain on the
  disk; \<open>getFinalFile\<close> is documented to remove the intermediate chunks.  One remains
  when a chunk is sent twice: chunk 1 arrives twice and then chunk 2 with the file name;
  the final file is built from the second copy of chunk 1, handed over and removed, and
  the transmission is deleted, but the file of the first copy of chunk 1 is still on the
  disk when every removal that was started has been carried out, and nothing refers to
  it any more.
\<close>

theorem resent_chunk_file_remains:
  "fst (recieveFiles exampleConfig None None
          [chunk 1 ''aa'' None, chunk 1 ''AA'' None, chunk 2 ''bb'' (Some ''photo.png'')] initial)
     = [Incomplete, Incomplete,
        Complete \<lparr>originalFilename = Some ''photo.png'', tmpBuildFilename = ''/tmp/tmp-file-3''\<rparr>] \<and>
   FILE_TRANSMISSIONS (snd (recieveFiles exampleConfig None None
          [chunk 1 ''aa'' None, chunk 1 ''AA'' None, chunk 2 ''bb'' (Some ''photo.png'')] initial))
     = fmempty \<and>
   fmlookup (files (disk_of (snd (recieveFiles exampleConfig None None
          [chunk 1 ''aa'' None, chunk 1 ''AA'' None, chunk 2 ''bb'' (Some ''photo.png'')] initial))))
     ''/tmp/tmp-file-0'' = Some ''aa'' \<and>
   pending (disk_of (snd (recieveFiles exampleConfig None None
          [chunk 1 ''aa'' None, chunk 1 ''AA'' None, chunk 2 ''bb'' (Some ''photo.png'')] initial)))
     = []"
  unfolding recieveFiles_three [OF exampleC_first exampleC_second exampleC_third_reply]
  by simp

section \<open>What is left after the assembly\<close>

lemma getFinalFile_Inr:
  assumes "getFinalFile gen folder t d = (Inr f, d')"
  shows "appendFileData t (fst (getUniqueFilename gen folder d)) 1
           (createWriteStream (fst (getUniqueFilename gen folder d))
              (snd (getUniqueFilename gen folder d))) = (Inr (), d')
         \<and> f = \<lparr>originalFilename = filename t,
                 tmpBuildFilename = fst (getUniqueFilename gen folder d)\<rparr>"
proof -
  let ?out = "fst (getUniqueFilename gen folder d)"
  let ?d2 = "createWriteStream ?out (snd (getUniqueFilename gen folder d))"
  obtain res d3 where loop: "appendFileData t ?out 1 ?d2 = (res, d3)"
    by (cases "appendFileData t ?out 1 ?d2")
  with assms show ?thesis
    by (cases res) (auto simp: getFinalFile_def split_beta Let_def)
qed

lemma getFinalFile_pending:
  assumes "getFinalFile gen folder t d = (Inr f, d')" and "p |\<in>| fmran (parts t)"
  shows "p \<in> set (pending d')"
proof -
  from getFinalFile_Inr [OF assms(1)]
  have "pending d' = pending (createWriteStream (fst (getUniqueFilename gen folder d))
      (snd (getUniqueFilename gen folder d))) @ map snd (sorted_list_of_fmap (parts t))"
    by (auto dest: appendFileData_result)
  moreover from assms(2) have "p |\<in>| fset_of_list (map snd (sorted_list_of_fmap (parts t)))"
    by (simp only: snd_sorted_list_of_fmap)
  then have "p \<in> set (map snd (sorted_list_of_fmap (parts t)))"
    by (simp only: fset_of_list_elem)
  ultimately show ?thesis
    by simp
qed

lemma processChunk_Complete:
  assumes "processChunk cfg r m w = (Complete f, w1)"
  shows "\<not> exceeds cfg r m (accumulate r (FILE_TRANSMISSIONS w))"
    and "allPartsProcessed (recorded cfg r w)"
    and "getFinalFile (idGenerator cfg) (TMP_DIR cfg) (recorded cfg r w)
           (disk_of (stored cfg r w)) = (Inr f, disk_of w1)"
    and "FILE_TRANSMISSIONS w1 = FILE_TRANSMISSIONS (stored cfg r w)"
proof -
  from assms show a: "\<not> exceeds cfg r m (accumulate r (FILE_TRANSMISSIONS w))"
    by (auto simp: processChunk_eq split: if_splits)
  with assms have b: "buildIfComplete cfg (recorded cfg r w) (stored cfg r w) = (Complete f, w1)"
    by (simp add: processChunk_eq)
  then show c: "allPartsProcessed (recorded cfg r w)"
    by (auto simp: buildIfComplete_def split: if_splits)
  with b have d: "assemble cfg (recorded cfg r w) (stored cfg r w) = (Complete f, w1)"
    by (simp add: buildIfComplete_def)
  then show "getFinalFile (idGenerator cfg) (TMP_DIR cfg) (recorded cfg r w)
      (disk_of (stored cfg r w)) = (Inr f, disk_of w1)"
    by (auto simp: assemble_def split: prod.splits sum.splits)
  from d show "FILE_TRANSMISSIONS w1 = FILE_TRANSMISSIONS (stored cfg r w)"
    by (metis FILE_TRANSMISSIONS_assemble snd_conv)
qed

lemma replyAndCleanup_Complete:
  assumes "replyAndCleanup cb r (out1, w1) = (Complete f, w2)"
  shows "out1 = Complete f"
    and "FILE_TRANSMISSIONS w2
           = deleteTransmission (x_clientid r) (x_transid r) (FILE_TRANSMISSIONS w1)"
    and "tmpBuildFilename f |\<notin>| fmdom (files (disk_of w2))"
    and "leavesRemovals cb \<Longrightarrow> pending (disk_of w2) = pending (disk_of w1)"
proof -
  from assms show out1: "out1 = Complete f"
    by (cases out1) (auto simp: replyAndCleanup_def split_beta Let_def split: if_splits)
  let ?res = "case cb of None \<Rightarrow> (True, disk_of w1)
    | Some c \<Rightarrow> c (tmpBuildFilename f) (originalFilename f) (disk_of w1)"
  from assms out1 have resolved: "fst ?res"
    by (auto simp: replyAndCleanup_def split_beta Let_def split: if_splits)
  with assms out1 have w2: "w2 = \<lparr>FILE_TRANSMISSIONS =
            deleteTransmission (x_clientid r) (x_transid r) (FILE_TRANSMISSIONS w1),
          disk_of = removeFile (tmpBuildFilename f) (snd ?res)\<rparr>"
    by (simp add: replyAndCleanup_def split_beta Let_def)
  then show "FILE_TRANSMISSIONS w2
      = deleteTransmission (x_clientid r) (x_transid r) (FILE_TRANSMISSIONS w1)"
    by simp
  from w2 show "tmpBuildFilename f |\<notin>| fmdom (files (disk_of w2))"
    by (simp add: removeFile_eq)
  assume "leavesRemovals cb"
  then have "pending (snd ?res) = pending (disk_of w1)"
    by (cases cb) (simp_all add: leavesRemovals_def)
  with w2 show "pending (disk_of w2) = pending (disk_of w1)"
    by (simp add: removeFile_eq)
qed

lemma files_settle:
  "fmdom (files (settle d)) = fmdom (files d) |-| fset_of_list (pending d)"
  by (simp add: settle_eq)

text \<open>
  What the cleanup does achieve.  A request completes a transmission, the final file is
  assembled and the consumer resolves, leaving alone the removals that have been
  started.  When the request has been served, no file recorded in the chunk-path mapping
  of the transmission is on the disk, the final file is not on the disk either, no
  removal is outstanding, the transmission is no longer in the table, the entry of the
  client is removed if it held no other transmission, and the other transmissions are as
  they were.  The file of a chunk whose number was sent again is not in the mapping any
  more, and the statement does not cover it.
\<close>

theorem cleanup_after_assembly:
  assumes "recieveFile cfg r m cb w = (Complete f, w')" and "leavesRemovals cb"
  shows "(\<forall>p. p |\<in>| fmran (parts (recorded cfg r (atRest w))) \<longrightarrow>
              p |\<notin>| fmdom (files (disk_of w'))) \<and>
         tmpBuildFilename f |\<notin>| fmdom (files (disk_of w')) \<and>
         pending (disk_of w') = [] \<and>
         transmissionOf (FILE_TRANSMISSIONS w') (x_clientid r) (x_transid r) = None \<and>
         ((\<forall>t'. t' \<noteq> x_transid r \<longrightarrow>
               transmissionOf (FILE_TRANSMISSIONS w) (x_clientid r) t' = None) \<longrightarrow>
            fmlookup (FILE_TRANSMISSIONS w') (x_clientid r) = None) \<and>
         (\<forall>c' t'. \<not> (c' = x_clientid r \<and> t' = x_transid r) \<longrightarrow>
            transmissionOf (FILE_TRANSMISSIONS w') c' t'
              = transmissionOf (FILE_TRANSMISSIONS w) c' t')"
proof -
  let ?w0 = "atRest w"
  obtain out1 w1 where p: "processChunk cfg r m ?w0 = (out1, w1)"
    by (cases "processChunk cfg r m ?w0")
  obtain out2 w2 where q: "replyAndCleanup cb r (out1, w1) = (out2, w2)"
    by (cases "replyAndCleanup cb r (out1, w1)")
  from assms(1) p q have out2: "out2 = Complete f" and w': "w' = atRest w2"
    by (simp_all add: recieveFile_def)
  note rc = replyAndCleanup_Complete [OF q [unfolded out2]]
  note pc = processChunk_Complete [OF p [unfolded rc(1)]]
  have reg1: "FILE_TRANSMISSIONS w1 = FILE_TRANSMISSIONS (stored cfg r ?w0)"
    by (rule pc(4))
  have reg': "FILE_TRANSMISSIONS w'
      = deleteTransmission (x_clientid r) (x_transid r) (FILE_TRANSMISSIONS w1)"
    by (simp add: w' rc(2))
  have gone: "\<forall>p. p |\<in>| fmran (parts (recorded cfg r ?w0)) \<longrightarrow>
      p |\<notin>| fmdom (files (disk_of w'))"
  proof (intro allI impI)
    fix p
    assume "p |\<in>| fmran (parts (recorded cfg r ?w0))"
    from getFinalFile_pending [OF pc(3) this] have "p \<in> set (pending (disk_of w1))" .
    with rc(4) [OF assms(2)] have "p |\<in>| fset_of_list (pending (disk_of w2))"
      by (simp add: fset_of_list_elem)
    then show "p |\<notin>| fmdom (files (disk_of w'))"
      by (simp add: w' atRest_def files_settle)
  qed
  have fin: "tmpBuildFilename f |\<notin>| fmdom (files (disk_of w'))"
    using rc(3) by (simp add: w' atRest_def files_settle)
  have rest: "pending (disk_of w') = []"
    by (simp add: w')
  have none: "transmissionOf (FILE_TRANSMISSIONS w') (x_clientid r) (x_transid r) = None"
    by (simp add: reg' transmissionOf_deleteTransmission)
  have client: "(\<forall>t'. t' \<noteq> x_transid r \<longrightarrow>
        transmissionOf (FILE_TRANSMISSIONS w) (x_clientid r) t' = None) \<longrightarrow>
      fmlookup (FILE_TRANSMISSIONS w') (x_clientid r) = None"
  proof
    assume "\<forall>t'. t' \<noteq> x_transid r \<longrightarrow>
      transmissionOf (FILE_TRANSMISSIONS w) (x_clientid r) t' = None"
    then have "\<And>t'. t' \<noteq> x_transid r \<Longrightarrow>
        transmissionOf (FILE_TRANSMISSIONS w1) (x_clientid r) t' = None"
      by (simp add: reg1 transmissionOf_stored)
    then show "fmlookup (FILE_TRANSMISSIONS w') (x_clientid r) = None"
      unfolding reg' by (rule client_deleteTransmission)
  qed
  have others: "\<forall>c' t'. \<not> (c' = x_clientid r \<and> t' = x_transid r) \<longrightarrow>
      transmissionOf (FILE_TRANSMISSIONS w') c' t' = transmissionOf (FILE_TRANSMISSIONS w) c' t'"
    by (auto simp: reg' reg1 transmissionOf_deleteTransmission transmissionOf_stored)
  from gone fin rest none client others show ?thesis
    by (intro conjI)
qed

lemma exampleD_third_reply:
  "recieveFile exampleConfig (chunk 3 ''cc'' (Some ''photo.png'')) None None
      \<lparr>FILE_TRANSMISSIONS = fmupd ''ITSA_CL_ID-1'' (fmupd ''ITSA-FILETRANS-1''
          \<lparr>cummulatedSize = Suc (Suc (Suc (Suc 0))), count = None, filename = None, data = None,
           parts = fmupd (Suc 0) ''/tmp/tmp-file-1'' (fmupd 2 ''/tmp/tmp-file-0'' fmempty)\<rparr>
          fmempty) fmempty,
       disk_of = \<lparr>files = fmupd ''/tmp/tmp-file-1'' ''aa'' (fmupd ''/tmp/tmp-file-0'' ''bb'' fmempty),
                  handles = [], tick = Suc (Suc 0), pending = []\<rparr>\<rparr> =
     (Complete \<lparr>originalFilename = Some ''photo.png'', tmpBuildFilename = ''/tmp/tmp-file-3''\<rparr>,
      \<lparr>FILE_TRANSMISSIONS = fmempty,
       disk_of = \<lparr>files = fmempty, handles = [], tick = Suc (Suc (Suc (Suc 0))), pending = []\<rparr>\<rparr>)"
proof -
  have "pending (disk_of
      \<lparr>FILE_TRANSMISSIONS = fmupd ''ITSA_CL_ID-1'' (fmupd ''ITSA-FILETRANS-1''
          \<lparr>cummulatedSize = Suc (Suc (Suc (Suc 0))), count = None, filename = None, data = None,
           parts = fmupd (Suc 0) ''/tmp/tmp-file-1'' (fmupd 2 ''/tmp/tmp-file-0'' fmempty)\<rparr>
          fmempty) fmempty,
       disk_of = \<lparr>files = fmupd ''/tmp/tmp-file-1'' ''aa'' (fmupd ''/tmp/tmp-file-0'' ''bb'' fmempty),
                  handles = [], tick = Suc (Suc 0), pending = []\<rparr>\<rparr>) = []"
    by simp
  note run = recieveFile_Complete_None [OF exampleD_third this]
  show ?thesis
    unfolding run
    by (simp add: atRest_def settle_def removeFile_eq deleteTransmission_def chunk_def
        fmdrop_fmupd)
qed

text \<open>
  An instance of the cleanup.  Chunks 2 and 1 have arrived; chunk 3 arrives with the file
  name and no consumer is given.  Afterwards none of the three chunk files and no final
  file is on the disk, and the client is not in the table.
\<close>

theorem cleanup_after_assembly_witness:
  "fst (recieveFiles exampleConfig None None
          [chunk 2 ''bb'' None, chunk 1 ''aa'' None, chunk 3 ''cc'' (Some ''photo.png'')] initial)
     = [Incomplete, Incomplete,
        Complete \<lparr>originalFilename = Some ''photo.png'', tmpBuildFilename = ''/tmp/tmp-file-3''\<rparr>] \<and>
   ''/tmp/tmp-file-0'' |\<notin>| fmdom (files (disk_of (snd (recieveFiles exampleConfig None None
          [chunk 2 ''bb'' None, chunk 1 ''aa'' None, chunk 3 ''cc'' (Some ''photo.png'')] initial)))) \<and>
   ''/tmp/tmp-file-1'' |\<notin>| fmdom (files (disk_of (snd (recieveFiles exampleConfig None None
          [chunk 2 ''bb'' None, chunk 1 ''aa'' None, chunk 3 ''cc'' (Some ''photo.png'')] initial)))) \<and>
   ''/tmp/tmp-file-2'' |\<notin>| fmdom (files (disk_of (snd (recieveFiles exampleConfig None None
          [chunk 2 ''bb'' None, chunk 1 ''aa'' None, chunk 3 ''cc'' (Some ''photo.png'')] initial)))) \<and>
   ''/tmp/tmp-file-3'' |\<notin>| fmdom (files (disk_of (snd (recieveFiles exampleConfig None None
          [chunk 2 ''bb'' None, chunk 1 ''aa'' None, chunk 3 ''cc'' (Some ''photo.png'')] initial)))) \<and>
   fmlookup (FILE_TRANSMISSIONS (snd (recieveFiles exampleConfig None None
          [chunk 2 ''bb'' None, chunk 1 ''aa'' None, chunk 3 ''cc'' (Some ''photo.png'')] initial)))
     ''ITSA_CL_ID-1'' = None"
proof -
  let ?r = "chunk 3 ''cc'' (Some ''photo.png'')"
  let ?w = "\<lparr>FILE_TRANSMISSIONS = fmupd ''ITSA_CL_ID-1'' (fmupd ''ITSA-FILETRANS-1''
          \<lparr>cummulatedSize = Suc (Suc (Suc (Suc 0))), count = None, filename = None, data = None,
           parts = fmupd (Suc 0) ''/tmp/tmp-file-1'' (fmupd 2 ''/tmp/tmp-file-0'' fmempty)\<rparr>
          fmempty) fmempty,
       disk_of = \<lparr>files = fmupd ''/tmp/tmp-file-1'' ''aa'' (fmupd ''/tmp/tmp-file-0'' ''bb'' fmempty),
                  handles = [], tick = Suc (Suc 0), pending = []\<rparr>\<rparr>"
  let ?f = "\<lparr>originalFilename = Some ''photo.png'', tmpBuildFilename = ''/tmp/tmp-file-3''\<rparr>"
  let ?w' = "\<lparr>FILE_TRANSMISSIONS = fmempty,
      disk_of = \<lparr>files = fmempty, handles = [], tick = Suc (Suc (Suc (Suc 0))), pending = []\<rparr>\<rparr>"
  note run = recieveFiles_three [OF exampleD_first exampleD_second exampleD_third_reply]
  have cb: "leavesRemovals None"
    by (simp add: leavesRemovals_def)
  have rest: "atRest ?w = ?w"
    by (simp add: atRest_id)
  have other: "\<forall>t'. t' \<noteq> x_transid ?r \<longrightarrow>
      transmissionOf (FILE_TRANSMISSIONS ?w) (x_clientid ?r) t' = None"
    by (simp add: transmissionOf_def chunk_def)
  have ps: "parts (recorded exampleConfig ?r ?w)
      = fmupd 3 ''/tmp/tmp-file-2''
          (fmupd (Suc 0) ''/tmp/tmp-file-1'' (fmupd 2 ''/tmp/tmp-file-0'' fmempty))"
    by (simp add: parts_recorded parts_arrived chunkPath_def run_simps)
  note inst = cleanup_after_assembly [OF exampleD_third_reply cb, unfolded rest]
  from inst have gone: "\<forall>p. p |\<in>| fmran (parts (recorded exampleConfig ?r ?w)) \<longrightarrow>
      p |\<notin>| fmdom (files (disk_of ?w'))"
    by (rule conjunct1)
  have "''/tmp/tmp-file-0'' |\<in>| fmran (parts (recorded exampleConfig ?r ?w))"
    "''/tmp/tmp-file-1'' |\<in>| fmran (parts (recorded exampleConfig ?r ?w))"
    "''/tmp/tmp-file-2'' |\<in>| fmran (parts (recorded exampleConfig ?r ?w))"
    unfolding ps by (simp_all add: fmran_fmupd fmdrop_fmupd)
  with gone have chunks: "''/tmp/tmp-file-0'' |\<notin>| fmdom (files (disk_of ?w'))"
    "''/tmp/tmp-file-1'' |\<notin>| fmdom (files (disk_of ?w'))"
    "''/tmp/tmp-file-2'' |\<notin>| fmdom (files (disk_of ?w'))"
    by blast+
  from inst have fin: "tmpBuildFilename ?f |\<notin>| fmdom (files (disk_of ?w'))"
    by blast
  from inst other have client: "fmlookup (FILE_TRANSMISSIONS ?w') (x_clientid ?r) = None"
    by blast
  from chunks fin client show ?thesis
    unfolding run fst_conv snd_conv by (simp add: chunk_def)
qed

section \<open>The assembler\<close>

text \<open>
  The loop of \<open>getFinalFile\<close> from index \<open>part\<close> on: when every index up to the count
  has a file, and the output is none of the chunk files, the loop succeeds and has
  appended to the output the contents of the chunk files in ascending order of the index.
\<close>

lemma appendFileData_concat:
  assumes "count t = Some N"
    and "out |\<notin>| fmran (parts t)"
    and "part \<le> N"
    and "\<forall>k. part \<le> k \<and> k \<le> N \<longrightarrow>
           (\<exists>p. fmlookup (parts t) k = Some p \<and> fmlookup (files d) p = Some (content k))"
    and "fmlookup (files d) out = Some acc"
  shows "\<exists>d'. appendFileData t out part d = (Inr (), d') \<and>
           fmlookup (files d') out = Some (acc @ concat (map content [part..<Suc N]))"
  using assms(3-5)
proof (induction "N - part" arbitrary: part d acc)
  case 0
  then have part: "part = N"
    by simp
  with "0.prems"(2) obtain p where p: "fmlookup (parts t) N = Some p"
    and dat: "fmlookup (files d) p = Some (content N)"
    by auto
  from assms(1) p dat part
  have "appendFileData t out part d
      = (Inr (), removeParts t (endPromise out (wstream_write out (content N) d)))"
    by (simp add: appendFileData_last)
  moreover have "fmlookup (files (removeParts t (endPromise out (wstream_write out (content N) d))))
      out = Some (acc @ content N)"
    using assms(2) "0.prems"(3)
    by (simp add: removeParts_eq endPromise_def wstream_write_def)
  ultimately show ?case
    using part by simp
next
  case (Suc n)
  then have lt: "part < N"
    by simp
  with Suc.prems(2) obtain p where p: "fmlookup (parts t) part = Some p"
    and dat: "fmlookup (files d) p = Some (content part)"
    by (metis le_refl less_imp_le)
  let ?d1 = "wstream_write out (content part) d"
  from assms(1) lt have "count t \<noteq> Some part"
    by simp
  with p dat have step: "appendFileData t out part d = appendFileData t out (Suc part) ?d1"
    by (simp add: appendFileData_next)
  have n: "n = N - Suc part"
    using Suc.hyps(2) by simp
  have le: "Suc part \<le> N"
    using lt by simp
  have rest: "\<forall>k. Suc part \<le> k \<and> k \<le> N \<longrightarrow>
      (\<exists>p. fmlookup (parts t) k = Some p \<and> fmlookup (files ?d1) p = Some (content k))"
  proof (intro allI impI)
    fix k
    assume k: "Suc part \<le> k \<and> k \<le> N"
    with Suc.prems(2) obtain q where q: "fmlookup (parts t) k = Some q"
      and c: "fmlookup (files d) q = Some (content k)"
      by (metis Suc_leD)
    from q have "q |\<in>| fmran (parts t)"
      by (rule fmranI)
    with assms(2) have "q \<noteq> out"
      by auto
    with q c show "\<exists>p. fmlookup (parts t) k = Some p \<and> fmlookup (files ?d1) p = Some (content k)"
      by (simp add: wstream_write_def)
  qed
  have out: "fmlookup (files ?d1) out = Some (acc @ content part)"
    using Suc.prems(3) by (simp add: wstream_write_def)
  from Suc.hyps(1) [OF n le rest out]
  obtain d' where "appendFileData t out (Suc part) ?d1 = (Inr (), d')"
    and "fmlookup (files d') out
      = Some ((acc @ content part) @ concat (map content [Suc part..<Suc N]))"
    by blast
  moreover have "[part..<Suc N] = part # [Suc part..<Suc N]"
    using lt by (simp add: upt_conv_Cons)
  ultimately show ?case
    using step by simp
qed

lemma getFinalFile_concat:
  assumes "count t = Some N" and "1 \<le> N"
    and "\<forall>k. 1 \<le> k \<and> k \<le> N \<longrightarrow>
           (\<exists>p. fmlookup (parts t) k = Some p \<and> fmlookup (files d) p = Some (content k))"
    and "\<forall>p. p |\<in>| fmran (parts t) \<longrightarrow> p |\<in>| fmdom (files d)"
  shows "\<exists>f d'. getFinalFile gen folder t d = (Inr f, d') \<and>
           originalFilename f = filename t \<and>
           fmlookup (files d') (tmpBuildFilename f) = Some (concat (map content [1..<Suc N]))"
proof -
  let ?out = "fst (getUniqueFilename gen folder d)"
  let ?d2 = "createWriteStream ?out (snd (getUniqueFilename gen folder d))"
  have fresh: "?out |\<notin>| fmdom (files d)"
    by (rule getUniqueFilename_fresh)
  with assms(4) have notchunk: "?out |\<notin>| fmran (parts t)"
    by blast
  have files2: "files ?d2 = fmupd ?out [] (files d)"
    by (simp add: createWriteStream_def getUniqueFilename_disk)
  have chunks: "\<forall>k. 1 \<le> k \<and> k \<le> N \<longrightarrow>
      (\<exists>p. fmlookup (parts t) k = Some p \<and> fmlookup (files ?d2) p = Some (content k))"
  proof (intro allI impI)
    fix k
    assume "1 \<le> k \<and> k \<le> N"
    with assms(3) obtain q where q: "fmlookup (parts t) k = Some q"
      and c: "fmlookup (files d) q = Some (content k)"
      by blast
    from c fresh have "q \<noteq> ?out"
      by (auto dest: fmdomI)
    with q c show "\<exists>p. fmlookup (parts t) k = Some p \<and> fmlookup (files ?d2) p = Some (content k)"
      by (simp add: files2)
  qed
  have empty: "fmlookup (files ?d2) ?out = Some []"
    by (simp add: files2)
  from appendFileData_concat [OF assms(1) notchunk assms(2) chunks empty]
  obtain d' where loop: "appendFileData t ?out 1 ?d2 = (Inr (), d')"
    and c: "fmlookup (files d') ?out = Some (concat (map content [1..<Suc N]))"
    by auto
  from loop have "getFinalFile gen folder t d
      = (Inr \<lparr>originalFilename = filename t, tmpBuildFilename = ?out\<rparr>, d')"
    by (simp add: getFinalFile_def split_beta Let_def)
  with c show ?thesis
    by simp
qed

section \<open>The chunks of a transmission, in any order\<close>

lemma arrived_view:
  "arrived r reg =
     (view reg (x_clientid r) (x_transid r))
       \<lparr>cummulatedSize := cummulatedSize (view reg (x_clientid r) (x_transid r))
                           + length (payload r)\<rparr>"
  by (simp add: arrived_def view_def split: option.splits)

lemma view_stored:
  "view (FILE_TRANSMISSIONS (stored cfg r w)) (x_clientid r) (x_transid r) = recorded cfg r w"
  by (simp add: view_def transmissionOf_stored)

lemma files_stored:
  "files (disk_of (stored cfg r w))
     = fmupd (chunkPath cfg w) (payload r) (files (disk_of w))"
  by (simp add: stored_def)

lemma tracks_initial:
  "transmissionOf reg c t = None \<Longrightarrow> tracks N [] (view reg c t) fs"
  by (simp add: tracks_def view_def keysTogether_def)

lemma tracks_step:
  assumes tr: "tracks N seen (view (FILE_TRANSMISSIONS w) (x_clientid r) (x_transid r))
                 (files (disk_of w))"
    and last: "truthy (x_filename r) \<longleftrightarrow> x_partial r = N"
    and new: "x_partial r \<notin> set (map x_partial seen)"
  shows "tracks N (seen @ [r]) (recorded cfg r w) (files (disk_of (stored cfg r w)))"
proof -
  let ?v = "view (FILE_TRANSMISSIONS w) (x_clientid r) (x_transid r)"
  let ?p = "chunkPath cfg w"
  let ?fs = "files (disk_of w)"
  let ?a = "arrived r (FILE_TRANSMISSIONS w)"
  let ?b = "?a\<lparr>parts := fmupd (x_partial r) ?p (parts ?a)\<rparr>"
  have rec: "recorded cfg r w = terminalInfo cfg r ?b"
    by (simp add: recorded_def)
  have pa: "parts ?a = parts ?v" and ca: "count ?a = count ?v"
    and fa: "filename ?a = filename ?v"
    by (simp_all add: arrived_view)
  from tr have size: "cummulatedSize ?v = sum_list (map (\<lambda>r. length (payload r)) seen)"
    and dom: "fmdom' (parts ?v) = set (map x_partial seen)"
    and held: "\<forall>q\<in>set seen. \<exists>p. fmlookup (parts ?v) (x_partial q) = Some p \<and>
                 fmlookup ?fs p = Some (payload q)"
    and keys: "keysTogether ?v"
    and cnt: "count ?v = (if N \<in> set (map x_partial seen) then Some N else None)"
    and name: "\<forall>q\<in>set seen. x_partial q = N \<longrightarrow> filename ?v = x_filename q"
    by (simp_all add: tracks_def)
  have "cummulatedSize (recorded cfg r w)
      = sum_list (map (\<lambda>r. length (payload r)) (seen @ [r]))"
    by (simp add: rec arrived_view size)
  moreover have "fmdom' (parts (recorded cfg r w)) = set (map x_partial (seen @ [r]))"
    by (simp add: rec pa dom)
  moreover have "\<forall>q\<in>set (seen @ [r]).
      \<exists>p. fmlookup (parts (recorded cfg r w)) (x_partial q) = Some p \<and>
          fmlookup (files (disk_of (stored cfg r w))) p = Some (payload q)"
  proof
    fix q
    assume "q \<in> set (seen @ [r])"
    then consider "q = r" | "q \<in> set seen"
      by auto
    then show "\<exists>p. fmlookup (parts (recorded cfg r w)) (x_partial q) = Some p \<and>
        fmlookup (files (disk_of (stored cfg r w))) p = Some (payload q)"
    proof cases
      case 1
      then show ?thesis
        by (simp add: rec files_stored)
    next
      case 2
      with held obtain p where p: "fmlookup (parts ?v) (x_partial q) = Some p"
        and c: "fmlookup ?fs p = Some (payload q)"
        by blast
      from 2 have "x_partial q \<in> set (map x_partial seen)"
        by simp
      with new have "x_partial q \<noteq> x_partial r"
        by metis
      moreover from c have "p |\<in>| fmdom ?fs"
        by (rule fmdomI)
      with chunkPath_fresh [of cfg w] have "p \<noteq> ?p"
        by auto
      ultimately show ?thesis
        using p c by (auto simp: rec pa files_stored)
    qed
  qed
  moreover have "keysTogether (recorded cfg r w)"
    unfolding rec
    by (intro keysTogether_terminalInfo keysTogether_parts)
       (use keys in \<open>simp add: arrived_view keysTogether_def split: option.splits\<close>)
  moreover have "count (recorded cfg r w)
      = (if N \<in> set (map x_partial (seen @ [r])) then Some N else None)"
    using last cnt by (auto simp: rec terminalInfo_def ca)
  moreover have "\<forall>q\<in>set (seen @ [r]). x_partial q = N \<longrightarrow>
      filename (recorded cfg r w) = x_filename q"
  proof (intro ballI impI)
    fix q
    assume q: "q \<in> set (seen @ [r])" and n: "x_partial q = N"
    show "filename (recorded cfg r w) = x_filename q"
    proof (cases "q = r")
      case True
      with n last show ?thesis
        by (simp add: rec terminalInfo_def)
    next
      case False
      with q have s: "q \<in> set seen"
        by simp
      then have "x_partial q \<in> set (map x_partial seen)"
        by simp
      with n new have "x_partial r \<noteq> N"
        by metis
      with last have "\<not> truthy (x_filename r)"
        by simp
      with name s n show ?thesis
        by (simp add: rec terminalInfo_def fa)
    qed
  qed
  ultimately show ?thesis
    unfolding tracks_def by blast
qed

lemma fcard_tracks:
  assumes "tracks N seen t fs" and "distinct (map x_partial seen)"
  shows "fcard (fmdom (parts t)) = length seen"
proof -
  have "fcard (fmdom (parts t)) = card (fmdom' (parts t))"
    by (simp add: fcard.rep_eq fmdom'_alt_def)
  also from assms(1) have "\<dots> = card (set (map x_partial seen))"
    by (simp add: tracks_def)
  also from assms(2) have "\<dots> = length seen"
    by (metis distinct_card length_map)
  finally show ?thesis .
qed

lemma complete_tracks:
  assumes "tracks N seen t fs" and "distinct (map x_partial seen)"
  shows "complete t \<longleftrightarrow> N \<in> set (map x_partial seen) \<and> length seen = N"
  using assms(1) fcard_tracks [OF assms]
  by (auto simp: complete_def tracks_def)

lemma allPartsProcessed_tracks:
  assumes "tracks N (seen @ [r]) t fs" and "distinct (map x_partial (seen @ [r]))"
  shows "allPartsProcessed t \<longleftrightarrow> N \<in> set (map x_partial (seen @ [r])) \<and> length (seen @ [r]) = N"
proof -
  from assms(1) have "keysTogether t" and "fmdom' (parts t) \<noteq> {}"
    by (simp_all add: tracks_def)
  then have "allPartsProcessed t \<longleftrightarrow> complete t"
    by (intro allPartsProcessed_complete) (auto simp: fmdom'_alt_def)
  with complete_tracks [OF assms] show ?thesis
    by simp
qed

lemma not_exceeds_tracks:
  assumes "tracks N seen (view (FILE_TRANSMISSIONS w) (x_clientid r) (x_transid r)) fs"
    and "sum_list (map (\<lambda>r. length (payload r)) (seen @ [r])) \<le> maxSize cfg m"
    and "case x_total_size r of None \<Rightarrow> True | Some ts \<Rightarrow> ts \<le> maxSize cfg m"
  shows "\<not> exceeds cfg r m (accumulate r (FILE_TRANSMISSIONS w))"
proof -
  from assms(1)
  have "receivedSize (FILE_TRANSMISSIONS w) (x_clientid r) (x_transid r)
      = sum_list (map (\<lambda>r. length (payload r)) seen)"
    by (simp add: tracks_def view_def receivedSize_def split: option.splits)
  with assms(2,3) show ?thesis
    by (auto simp: exceeds_accumulate split: option.splits)
qed

lemma wellFormed_length:
  assumes "wellFormed c t N rs"
  shows "length rs = N"
proof -
  from assms have "distinct (map x_partial rs)" and "set (map x_partial rs) = {1..N}"
    by (simp_all add: wellFormed_def)
  then have "length (map x_partial rs) = card {1..N}"
    by (metis distinct_card)
  then show ?thesis
    by simp
qed

lemma sum_list_prefix_le:
  fixes f :: "'a \<Rightarrow> nat"
  shows "sum_list (map f xs) \<le> sum_list (map f (xs @ ys))"
  by simp

lemma recieveFile_atRest: "recieveFile cfg r m cb (atRest w) = recieveFile cfg r m cb w"
  by (simp add: recieveFile_def atRest_id)

lemma arrivals_front:
  assumes "wellFormed c t N (seen @ rest @ [lst])"
    and "withinQuota cfg m (seen @ rest @ [lst])"
    and "tracks N seen (view (FILE_TRANSMISSIONS w) c t) (files (disk_of w))"
    and "pending (disk_of w) = []"
  shows "\<exists>w1. recieveFiles cfg m cb rest w = (replicate (length rest) Incomplete, w1) \<and>
           tracks N (seen @ rest) (view (FILE_TRANSMISSIONS w1) c t) (files (disk_of w1))"
  using assms
proof (induction rest arbitrary: seen w)
  case Nil
  then show ?case by simp
next
  case (Cons r rest)
  let ?all = "seen @ (r # rest) @ [lst]"
  from Cons.prems(1) have ids: "x_clientid r = c" "x_transid r = t"
    and last: "truthy (x_filename r) \<longleftrightarrow> x_partial r = N"
    and dist: "distinct (map x_partial ?all)"
    by (simp_all add: wellFormed_def)
  from dist have new: "x_partial r \<notin> set (map x_partial seen)"
    and dist1: "distinct (map x_partial (seen @ [r]))"
    by auto
  from Cons.prems(3) ids
  have tr: "tracks N seen (view (FILE_TRANSMISSIONS w) (x_clientid r) (x_transid r))
      (files (disk_of w))"
    by simp
  have tr1: "tracks N (seen @ [r]) (recorded cfg r w) (files (disk_of (stored cfg r w)))"
    using tr last new by (rule tracks_step)
  have "sum_list (map (\<lambda>r. length (payload r)) (seen @ [r]))
      \<le> sum_list (map (\<lambda>r. length (payload r)) ((seen @ [r]) @ rest @ [lst]))"
    by (rule sum_list_prefix_le)
  with Cons.prems(2)
  have quota: "sum_list (map (\<lambda>r. length (payload r)) (seen @ [r])) \<le> maxSize cfg m"
    and total: "case x_total_size r of None \<Rightarrow> True | Some ts \<Rightarrow> ts \<le> maxSize cfg m"
    by (simp_all add: withinQuota_def)
  have pass: "\<not> exceeds cfg r m (accumulate r (FILE_TRANSMISSIONS w))"
    using tr quota total by (rule not_exceeds_tracks)
  from wellFormed_length [OF Cons.prems(1)] have "length (seen @ [r]) \<noteq> N"
    by auto
  with allPartsProcessed_tracks [OF tr1 dist1]
  have "\<not> allPartsProcessed (recorded cfg r w)"
    by simp
  with pass have "processChunk cfg r m w = (Incomplete, stored cfg r w)"
    by (simp add: processChunk_eq buildIfComplete_def)
  moreover have rest1: "pending (disk_of (stored cfg r w)) = []"
    using Cons.prems(4) by (simp add: stored_def)
  ultimately have step: "recieveFile cfg r m cb w = (Incomplete, stored cfg r w)"
    using Cons.prems(4) by (intro recieveFile_not_Complete) simp_all
  from tr1 ids
  have tr2: "tracks N (seen @ [r]) (view (FILE_TRANSMISSIONS (stored cfg r w)) c t)
      (files (disk_of (stored cfg r w)))"
    using view_stored [of cfg r w] by simp
  from Cons.prems(1,2) have "wellFormed c t N ((seen @ [r]) @ rest @ [lst])"
    and "withinQuota cfg m ((seen @ [r]) @ rest @ [lst])"
    by simp_all
  from Cons.IH [OF this tr2 rest1]
  obtain w1 where "recieveFiles cfg m cb rest (stored cfg r w)
      = (replicate (length rest) Incomplete, w1)"
    and "tracks N ((seen @ [r]) @ rest) (view (FILE_TRANSMISSIONS w1) c t) (files (disk_of w1))"
    by blast
  with step show ?case
    by simp
qed

lemma sort_key_indices:
  assumes "distinct (map f xs)" and "set (map f xs) = {1..N}"
  shows "map f (sort_key f xs) = [1..<Suc N]"
proof (rule sorted_distinct_set_unique)
  show "sorted (map f (sort_key f xs))"
    by (rule sorted_sort_key)
  from assms(1) show "distinct (map f (sort_key f xs))"
    by (simp add: distinct_map)
  show "sorted [1..<Suc N]" and "distinct [1..<Suc N]"
    by (simp_all only: sorted_upt distinct_upt)
  have "set [1..<Suc N] = {1..N}"
    by (simp only: set_upt atLeastLessThanSuc_atLeastAtMost)
  moreover have "set (map f (sort_key f xs)) = set (map f xs)"
    by simp
  ultimately show "set (map f (sort_key f xs)) = set [1..<Suc N]"
    using assms(2) by (simp only:)
qed

lemma arrival_last:
  assumes wf: "wellFormed c t N (seen @ [lst])"
    and quota: "withinQuota cfg m (seen @ [lst])"
    and tr: "tracks N seen (view (FILE_TRANSMISSIONS w) c t) (files (disk_of w))"
  shows "\<exists>f w2. processChunk cfg lst m w = (Complete f, w2) \<and>
           (\<forall>r\<in>set (seen @ [lst]). x_partial r = N \<longrightarrow> originalFilename f = x_filename r) \<and>
           fmlookup (files (disk_of w2)) (tmpBuildFilename f)
             = Some (concat (map payload (sort_key x_partial (seen @ [lst]))))"
proof -
  let ?rs = "seen @ [lst]"
  let ?t1 = "recorded cfg lst w"
  let ?w2 = "stored cfg lst w"
  let ?fs = "files (disk_of ?w2)"
  let ?content = "\<lambda>k. the (fmlookup ?fs (the (fmlookup (parts ?t1) k)))"
  from wf have ids: "x_clientid lst = c" "x_transid lst = t"
    and last: "truthy (x_filename lst) \<longleftrightarrow> x_partial lst = N"
    and dist: "distinct (map x_partial ?rs)"
    and idx: "set (map x_partial ?rs) = {1..N}"
    by (simp_all add: wellFormed_def)
  from dist have new: "x_partial lst \<notin> set (map x_partial seen)"
    by auto
  from tr ids
  have tr0: "tracks N seen (view (FILE_TRANSMISSIONS w) (x_clientid lst) (x_transid lst))
      (files (disk_of w))"
    by simp
  have tr1: "tracks N ?rs ?t1 ?fs"
    using tr0 last new by (rule tracks_step)
  then have held: "\<forall>r\<in>set ?rs. \<exists>p. fmlookup (parts ?t1) (x_partial r) = Some p \<and>
      fmlookup ?fs p = Some (payload r)"
    and dom: "fmdom' (parts ?t1) = set (map x_partial ?rs)"
    and cnt: "count ?t1 = (if N \<in> set (map x_partial ?rs) then Some N else None)"
    and name: "\<forall>r\<in>set ?rs. x_partial r = N \<longrightarrow> filename ?t1 = x_filename r"
    by (simp_all add: tracks_def)
  have len: "length ?rs = N"
    using wf by (rule wellFormed_length)
  then have N: "1 \<le> N"
    by (cases N) simp_all
  with idx have inN: "N \<in> set (map x_partial ?rs)"
    by simp
  with cnt have count: "count ?t1 = Some N"
    by simp
  from quota
  have sum: "sum_list (map (\<lambda>r. length (payload r)) (seen @ [lst])) \<le> maxSize cfg m"
    and total: "case x_total_size lst of None \<Rightarrow> True | Some ts \<Rightarrow> ts \<le> maxSize cfg m"
    by (simp_all add: withinQuota_def)
  have pass: "\<not> exceeds cfg lst m (accumulate lst (FILE_TRANSMISSIONS w))"
    using tr0 sum total by (rule not_exceeds_tracks)
  have all: "allPartsProcessed ?t1"
    using allPartsProcessed_tracks [OF tr1 dist] inN len by simp
  have content: "\<forall>r\<in>set ?rs. ?content (x_partial r) = payload r"
    using held by fastforce
  have parts: "\<forall>k. 1 \<le> k \<and> k \<le> N \<longrightarrow>
      (\<exists>p. fmlookup (parts ?t1) k = Some p \<and> fmlookup ?fs p = Some (?content k))"
  proof (intro allI impI)
    fix k
    assume "1 \<le> k \<and> k \<le> N"
    with idx have "k \<in> set (map x_partial ?rs)"
      by simp
    then obtain r where r: "r \<in> set ?rs" and k: "x_partial r = k"
      by auto
    with held obtain p where "fmlookup (parts ?t1) k = Some p" "fmlookup ?fs p = Some (payload r)"
      by blast
    then show "\<exists>p. fmlookup (parts ?t1) k = Some p \<and> fmlookup ?fs p = Some (?content k)"
      by simp
  qed
  have exist: "\<forall>p. p |\<in>| fmran (parts ?t1) \<longrightarrow> p |\<in>| fmdom ?fs"
  proof (intro allI impI)
    fix p
    assume "p |\<in>| fmran (parts ?t1)"
    then obtain k where k: "fmlookup (parts ?t1) k = Some p"
      by (auto simp: fmlookup_ran_iff)
    then have "k \<in> fmdom' (parts ?t1)"
      by (rule fmdom'I)
    with dom obtain r where r: "r \<in> set ?rs" and "x_partial r = k"
      by auto
    with held k have "fmlookup ?fs p = Some (payload r)"
      by fastforce
    then show "p |\<in>| fmdom ?fs"
      by (rule fmdomI)
  qed
  from getFinalFile_concat [OF count N parts exist, of "idGenerator cfg" "TMP_DIR cfg"]
  obtain f d' where build: "getFinalFile (idGenerator cfg) (TMP_DIR cfg) ?t1 (disk_of ?w2)
      = (Inr f, d')"
    and orig: "originalFilename f = filename ?t1"
    and out: "fmlookup (files d') (tmpBuildFilename f)
      = Some (concat (map ?content [1..<Suc N]))"
    by blast
  from pass all build
  have res: "processChunk cfg lst m w = (Complete f, ?w2\<lparr>disk_of := d'\<rparr>)"
    by (simp add: processChunk_eq buildIfComplete_def assemble_def)
  have "map payload (sort_key x_partial ?rs)
      = map (\<lambda>r. ?content (x_partial r)) (sort_key x_partial ?rs)"
  proof (rule map_cong [OF refl])
    fix r
    assume "r \<in> set (sort_key x_partial ?rs)"
    then have "r \<in> set ?rs"
      by (simp only: set_sort)
    with content show "payload r = ?content (x_partial r)"
      by (simp only:)
  qed
  also have "\<dots> = map ?content (map x_partial (sort_key x_partial ?rs))"
    by (simp add: comp_def)
  also have "\<dots> = map ?content [1..<Suc N]"
    using sort_key_indices [OF dist idx] by simp
  finally have "concat (map ?content [1..<Suc N])
      = concat (map payload (sort_key x_partial ?rs))"
    by simp
  with out have "fmlookup (files (disk_of (?w2\<lparr>disk_of := d'\<rparr>))) (tmpBuildFilename f)
      = Some (concat (map payload (sort_key x_partial ?rs)))"
    by simp
  moreover from name orig
  have "\<forall>r\<in>set ?rs. x_partial r = N \<longrightarrow> originalFilename f = x_filename r"
    by simp
  ultimately show ?thesis
    using res by blast
qed

text \<open>
  Claim C1.  The \<open>N\<close> chunks of a new transmission arrive in any order, each once, the
  file name with chunk \<open>N\<close>, and they stay within the quota.  Every arrival but the last
  is answered as incomplete; the last arrival completes the transmission: the final file
  is built, it is handed over with the file name that came with chunk \<open>N\<close>, and its
  content is the payloads of the chunks in ascending order of the chunk number.
\<close>

theorem chunks_in_any_order_assemble:
  assumes "wellFormed c t N (front @ [lst])"
    and "withinQuota cfg m (front @ [lst])"
    and "transmissionOf (FILE_TRANSMISSIONS w) c t = None"
  shows "\<exists>w1 f w2.
           recieveFiles cfg m cb front w = (replicate (length front) Incomplete, w1) \<and>
           processChunk cfg lst m w1 = (Complete f, w2) \<and>
           (\<forall>r\<in>set (front @ [lst]). x_partial r = N \<longrightarrow> originalFilename f = x_filename r) \<and>
           fmlookup (files (disk_of w2)) (tmpBuildFilename f)
             = Some (concat (map payload (sort_key x_partial (front @ [lst]))))"
proof (cases front)
  case Nil
  from assms(3) have "tracks N [] (view (FILE_TRANSMISSIONS w) c t) (files (disk_of w))"
    by (rule tracks_initial)
  with Nil have tr: "tracks N front (view (FILE_TRANSMISSIONS w) c t) (files (disk_of w))"
    by simp
  from arrival_last [OF assms(1,2) tr] Nil show ?thesis
    by simp
next
  case (Cons r0 rest0)
  let ?w0 = "atRest w"
  from assms(3) have "transmissionOf (FILE_TRANSMISSIONS ?w0) c t = None"
    by simp
  then have start: "tracks N [] (view (FILE_TRANSMISSIONS ?w0) c t) (files (disk_of ?w0))"
    by (rule tracks_initial)
  have rest: "pending (disk_of ?w0) = []"
    by simp
  from assms(1,2) have "wellFormed c t N ([] @ front @ [lst])"
    and "withinQuota cfg m ([] @ front @ [lst])"
    by simp_all
  from arrivals_front [OF this start rest, of cb]
  obtain w1 where run: "recieveFiles cfg m cb front ?w0 = (replicate (length front) Incomplete, w1)"
    and tr: "tracks N front (view (FILE_TRANSMISSIONS w1) c t) (files (disk_of w1))"
    by auto
  from Cons have "recieveFiles cfg m cb front ?w0 = recieveFiles cfg m cb front w"
    by (simp add: recieveFile_atRest)
  with run have "recieveFiles cfg m cb front w = (replicate (length front) Incomplete, w1)"
    by simp
  with arrival_last [OF assms(1,2) tr] show ?thesis
    by blast
qed

text \<open>
  Claim C1: an instance.  The chunks 2, 1 and 3 of 2 bytes each arrive in this order,
  chunk 3 with the file name \<open>photo.png\<close>, under the default limit: the replies are
  incomplete, incomplete, complete, and the final file holds chunk 1, then chunk 2, then
  chunk 3.
\<close>

theorem chunks_in_any_order_assemble_witness:
  "fst (recieveFiles exampleConfig None None [chunk 2 ''bb'' None, chunk 1 ''aa'' None] initial)
     = [Incomplete, Incomplete] \<and>
   (\<exists>f. fst (processChunk exampleConfig (chunk 3 ''cc'' (Some ''photo.png'')) None
               (snd (recieveFiles exampleConfig None None
                       [chunk 2 ''bb'' None, chunk 1 ''aa'' None] initial))) = Complete f \<and>
        originalFilename f = Some ''photo.png'' \<and>
        fmlookup (files (disk_of
            (snd (processChunk exampleConfig (chunk 3 ''cc'' (Some ''photo.png'')) None
               (snd (recieveFiles exampleConfig None None
                       [chunk 2 ''bb'' None, chunk 1 ''aa'' None] initial))))))
          (tmpBuildFilename f) = Some ''aabbcc'')"
proof -
  let ?front = "[chunk 2 ''bb'' None, chunk 1 ''aa'' None]"
  let ?lst = "chunk 3 ''cc'' (Some ''photo.png'')"
  have wf: "wellFormed ''ITSA_CL_ID-1'' ''ITSA-FILETRANS-1'' 3 (?front @ [?lst])"
    by (auto simp: wellFormed_def chunk_def truthy_def)
  have quota: "withinQuota exampleConfig None (?front @ [?lst])"
    by (simp add: withinQuota_def chunk_def maxSize_def exampleConfig_def handleFile_def
        Let_def DEF_MAX_FILESIZE_def)
  have new: "transmissionOf (FILE_TRANSMISSIONS initial) ''ITSA_CL_ID-1'' ''ITSA-FILETRANS-1''
      = None"
    by (simp add: transmissionOf_def initial_def)
  have sorted: "concat (map payload (sort_key x_partial (?front @ [?lst]))) = ''aabbcc''"
    by (simp add: chunk_def sort_key_def)
  from chunks_in_any_order_assemble [OF wf quota new, of None]
  obtain w1 f w2
    where run: "recieveFiles exampleConfig None None ?front initial
        = (replicate (length ?front) Incomplete, w1)"
      and last: "processChunk exampleConfig ?lst None w1 = (Complete f, w2)"
      and name: "\<forall>r\<in>set (?front @ [?lst]). x_partial r = 3 \<longrightarrow> originalFilename f = x_filename r"
      and out: "fmlookup (files (disk_of w2)) (tmpBuildFilename f)
        = Some (concat (map payload (sort_key x_partial (?front @ [?lst]))))"
    by blast
  from name have "originalFilename f = Some ''photo.png''"
    by (simp add: chunk_def)
  with run last out sorted show ?thesis
    by simp
qed

end
